(* ===== verification/Prelude.thy ===== *)
theory Prelude
  imports Main "HOL-Library.Word" "HOL-Library.Monad_Syntax" "HOL-Library.Multiset"
begin

text \<open>
  Shared vocabulary of the development: the machine types of the C sources, the
  error numbers they return, byte encodings of integers in the byte order of the host,
  and the generic lemmas on lists, words and the option monad that every component uses.
\<close>

unbundle bit_operations_syntax

section \<open>Machine types\<close>

type_synonym byte = "8 word"
type_synonym u8 = "8 word"
type_synonym u16 = "16 word"
type_synonym u32 = "32 word"
type_synonym u64 = "64 word"

section \<open>Collections of rules\<close>

text \<open>
  \<open>os_defs\<close> holds the definitions of the system calls, \<open>os_frame\<close> the facts that
  a call leaves a part of the system state alone, \<open>errno_defs\<close> the error numbers.
\<close>

named_theorems os_defs
named_theorems os_frame
named_theorems errno_defs

section \<open>Error numbers (Linux values)\<close>

definition ENOENT :: int where [errno_defs]: "ENOENT = 2"
definition EIO :: int where [errno_defs]: "EIO = 5"
definition EBADF :: int where [errno_defs]: "EBADF = 9"
definition ENOMEM :: int where [errno_defs]: "ENOMEM = 12"
definition ENODEV :: int where [errno_defs]: "ENODEV = 19"
definition EINVAL :: int where [errno_defs]: "EINVAL = 22"
definition EMFILE :: int where [errno_defs]: "EMFILE = 24"
definition ENOSYS :: int where [errno_defs]: "ENOSYS = 38"

lemma errno_pos [simp]:
  "0 < ENOENT" "0 < EIO" "0 < EBADF" "0 < ENOMEM" "0 < ENODEV" "0 < EINVAL" "0 < EMFILE"
  "0 < ENOSYS"
  by (simp_all add: errno_defs)

lemma errno_nonzero [simp]:
  "ENOENT \<noteq> 0" "EIO \<noteq> 0" "EBADF \<noteq> 0" "ENOMEM \<noteq> 0" "ENODEV \<noteq> 0" "EINVAL \<noteq> 0" "EMFILE \<noteq> 0"
  "ENOSYS \<noteq> 0"
  by (simp_all add: errno_defs)

section \<open>Integers as bytes\<close>

text \<open>\<open>le_bytes k n\<close>: the low \<open>k\<close> bytes of \<open>n\<close>, least significant first.\<close>

fun le_bytes :: "nat \<Rightarrow> nat \<Rightarrow> byte list" where
  "le_bytes 0 n = []"
| "le_bytes (Suc k) n = of_nat (n mod 256) # le_bytes k (n div 256)"

fun le_nat :: "byte list \<Rightarrow> nat" where
  "le_nat [] = 0"
| "le_nat (b # bs) = unat b + 256 * le_nat bs"

lemma length_le_bytes [simp]: "length (le_bytes k n) = k"
  by (induction k arbitrary: n) auto

lemma le_bytes_numeral [simp]:
  "le_bytes (numeral v) n = of_nat (n mod 256) # le_bytes (pred_numeral v) (n div 256)"
  by (simp only: numeral_eq_Suc [of v] le_bytes.simps)

lemma unat_byte_of_nat [simp]: "unat (of_nat (n mod 256) :: byte) = n mod 256"
  by (simp add: unat_of_nat)

lemma le_nat_le_bytes [simp]: "le_nat (le_bytes k n) = n mod 256 ^ k"
proof (induction k arbitrary: n)
  case 0
  show ?case by simp
next
  case (Suc k)
  have "n mod (256 * 256 ^ k) = 256 * (n div 256 mod 256 ^ k) + n mod 256"
    by (rule mod_mult2_eq)
  then show ?case using Suc.IH [of "n div 256"] by (simp add: unat_of_nat)
qed

lemma le_nat_bound: "le_nat bs < 256 ^ length bs"
proof (induction bs)
  case Nil
  show ?case by simp
next
  case (Cons b bs)
  have b: "unat b < 256" using unsigned_less [of b] by simp
  from Cons.IH have "256 * le_nat bs + 256 \<le> 256 * 256 ^ length bs"
    by simp
  with b show ?case by simp
qed

lemma le_bytes_le_nat [simp]: "length bs = k \<Longrightarrow> le_bytes k (le_nat bs) = bs"
proof (induction bs arbitrary: k)
  case Nil
  then show ?case by simp
next
  case (Cons b bs)
  have b: "unat b < 256" using unsigned_less [of b] by simp
  then have "(unat b + 256 * le_nat bs) mod 256 = unat b"
    and "(unat b + 256 * le_nat bs) div 256 = le_nat bs"
    by auto
  with Cons show ?case by auto
qed

text \<open>The byte order of the host the program runs on.\<close>

datatype endian = Little | Big

definition enc :: "endian \<Rightarrow> nat \<Rightarrow> nat \<Rightarrow> byte list" where
  "enc e k n = (case e of Little \<Rightarrow> le_bytes k n | Big \<Rightarrow> rev (le_bytes k n))"

definition dec :: "endian \<Rightarrow> byte list \<Rightarrow> nat" where
  "dec e bs = (case e of Little \<Rightarrow> le_nat bs | Big \<Rightarrow> le_nat (rev bs))"

lemma length_enc [simp]: "length (enc e k n) = k"
  by (simp add: enc_def split: endian.splits)

lemma dec_enc [simp]: "dec e (enc e k n) = n mod 256 ^ k"
  by (simp add: enc_def dec_def split: endian.splits)

lemma enc_dec: "length bs = k \<Longrightarrow> enc e k (dec e bs) = bs"
  by (simp add: enc_def dec_def split: endian.splits)

lemma dec_bound: "length bs = k \<Longrightarrow> dec e bs < 256 ^ k"
  using le_nat_bound [of bs] le_nat_bound [of "rev bs"]
  by (auto simp add: dec_def split: endian.splits)

lemma dec_less: "n \<le> length bs \<Longrightarrow> dec e (take n bs) < 256 ^ n"
  by (rule dec_bound) simp

text \<open>
  Byte swapping (\<open>bswap_16\<close>, \<open>bswap_32\<close> of \<^verbatim>\<open>byteswap.h\<close>): the value whose bytes are
  those of the argument in the opposite order.
\<close>

definition bswap :: "nat \<Rightarrow> nat \<Rightarrow> nat" where
  "bswap k n = le_nat (rev (le_bytes k n))"

lemma bswap_bswap: "n < 256 ^ k \<Longrightarrow> bswap k (bswap k n) = n"
  by (simp add: bswap_def)

lemma bswap_bound: "bswap k n < 256 ^ k"
  using le_nat_bound [of "rev (le_bytes k n)"] by (simp add: bswap_def)

text \<open>Reading a field in the other byte order is reading it and swapping it.\<close>

lemma dec_other_endian:
  "e \<noteq> e' \<Longrightarrow> dec e (enc e' k n) = bswap k n"
  by (cases e; cases e') (simp_all add: dec_def enc_def bswap_def)

section \<open>Words\<close>

lemma unat_u32_lt [simp]: "unat (w :: u32) < 4294967296"
  using unsigned_less [of w] by simp

lemma unat_u16_lt [simp]: "unat (w :: u16) < 65536"
  using unsigned_less [of w] by simp

lemma unat_mod_u32 [simp]: "unat (w :: u32) mod 4294967296 = unat w"
  by simp

lemma unat_mod_u16 [simp]: "unat (w :: u16) mod 65536 = unat w"
  by simp

lemma ucast_up_down: "LENGTH('a) \<le> LENGTH('b) \<Longrightarrow> ucast (ucast w :: 'b::len word) = w" for w :: "'a::len word"
  by (auto intro!: bit_word_eqI simp: bit_simps)

lemma word_mask_split: "w = (w AND NOT m) OR (w AND m)" for w :: "'a::len word"
  by (auto simp: bit_eq_iff bit_simps)

section \<open>Lists\<close>

lemma take_drop_append_mid [simp]:
  "length xs = n \<Longrightarrow> length ys = k \<Longrightarrow> take k (drop n (xs @ ys @ zs)) = ys"
  by simp

lemma list_all_map_upt:
  "(\<forall>i < n. P (f i)) \<Longrightarrow> list_all P (map f [0..<n])"
  by (simp add: list_all_iff)

lemma find_upt_None: "find P [0..<n] = None \<longleftrightarrow> (\<forall>i<n. \<not> P i)"
  by (auto simp: find_None_iff)

lemma find_SomeD: "find P xs = Some x \<Longrightarrow> P x \<and> x \<in> set xs"
  by (auto simp: find_Some_iff)

lemma concat_replicate_snoc: "concat (replicate r xs) @ xs = concat (replicate (Suc r) xs)"
  by (simp add: replicate_append_same [symmetric])

section \<open>Option monad\<close>

lemma bind_SomeE:
  assumes "Option.bind m f = Some y"
  obtains x where "m = Some x" and "f x = Some y"
  using assms by (auto simp: Option.bind_eq_Some_conv)

end
