(* ===== verification/Posix.thy ===== *)
theory Posix
  imports Prelude
begin

text \<open>
  The operating system as the C sources see it: the file system, the descriptor table, the
  heap, the memory maps, packet sockets, POSIX threads and the device \<open>ioctl\<close> interface.
  Nothing here is code of the repository; it is the part of libc and of the Linux system call
  interface that the repository calls, with the documented effect of each call.

  What the environment decides is not fixed by the model. Every call that can fail consults
  \<open>os_sched\<close>, an arbitrary sequence of outcomes indexed by the number of calls made so far:
  a call succeeds, fails with some error number, or (for \<open>read\<close> and \<open>write\<close>) transfers
  fewer bytes than asked. The answers of network drivers (\<open>os_ioctl\<close>) may depend on the whole
  history of requests. \<open>os_names\<close> is the path under which an inode was created, and \<open>os_junk\<close>
  the value an uninitialised variable is found to have. Theorems quantify over all of them.
\<close>

section \<open>State\<close>

text \<open>Call outcomes; \<open>Fail n\<close> stands for the error number \<open>n + 1\<close>, which is never 0.\<close>

datatype outcome = Succeed | Fail nat | Short nat

text \<open>\<^verbatim>\<open>struct tpacket_req\<close> (linux/if_packet.h) and \<^verbatim>\<open>struct sock_filter\<close> (linux/filter.h).\<close>

record tpacket_req =
  tp_block_size :: u32
  tp_block_nr :: u32
  tp_frame_size :: u32
  tp_frame_nr :: u32

record sock_filter =
  code :: u16
  jt :: u8
  jf :: u8
  k :: u32

text \<open>A packet socket: its rings by option name, attached filter, bound interface, loss flag.\<close>

record psock =
  sk_rings :: "int \<rightharpoonup> tpacket_req"
  sk_filter :: "sock_filter list option"
  sk_ifindex :: "int option"
  sk_loss :: int

definition fresh_sock :: psock where
  "fresh_sock = \<lparr>sk_rings = Map.empty, sk_filter = None, sk_ifindex = None, sk_loss = 0\<rparr>"

text \<open>
  An open file description: a regular file (inode, offset, readable, writable, append), a socket, or the
  directory \<^verbatim>\<open>/proc/self/fd\<close>.
\<close>

datatype ofd = Reg nat nat bool bool bool | Sock psock | Fd_Dir

text \<open>
  A POSIX thread: identifier, start routine (one of the two the daemon has) and the heap block passed
  to it, pending cancellation, scheduling.
\<close>

datatype thread_fn = Fn_Packet_Rx | Fn_Packet_Tx

record thr =
  t_id :: nat
  t_fn :: thread_fn
  t_arg :: nat
  t_cancel :: bool
  t_policy :: int
  t_prio :: int
  t_cpus :: "nat set"

text \<open>
  Device requests: \<^verbatim>\<open>struct ifreq\<close> with the ethtool structure its data pointer designates.
\<close>

record ethtool_cmd =
  ec_cmd :: nat
  supported :: u32
  advertising :: u32
  speed :: u16
  duplex :: u8
  port :: u8
  autoneg :: u8
  maxtxpkt :: u32
  maxrxpkt :: u32
  speed_hi :: u16
  lp_advertising :: u32

record ethtool_pauseparam =
  pp_cmd :: nat
  pp_autoneg :: u32
  rx_pause :: u32
  tx_pause :: u32

record ethtool_coalesce =
  co_cmd :: nat
  rx_coalesce_usecs :: u32
  rx_max_coalesced_frames :: u32
  rx_coalesce_usecs_irq :: u32
  rx_max_coalesced_frames_irq :: u32
  tx_coalesce_usecs :: u32
  tx_max_coalesced_frames :: u32
  tx_coalesce_usecs_irq :: u32
  tx_max_coalesced_frames_irq :: u32
  stats_block_coalesce_usecs :: u32
  use_adaptive_rx_coalesce :: u32
  use_adaptive_tx_coalesce :: u32
  pkt_rate_low :: u32
  rx_coalesce_usecs_low :: u32
  rx_max_coalesced_frames_low :: u32
  tx_coalesce_usecs_low :: u32
  tx_max_coalesced_frames_low :: u32
  pkt_rate_high :: u32
  rx_coalesce_usecs_high :: u32
  rx_max_coalesced_frames_high :: u32
  tx_coalesce_usecs_high :: u32
  tx_max_coalesced_frames_high :: u32
  rate_sample_interval :: u32

record ethtool_drvinfo =
  di_cmd :: nat
  di_driver :: string
  di_version :: string
  di_fw_version :: string
  di_bus_info :: string

datatype ifr_data =
    No_Data
  | Value nat u32
  | Cmd ethtool_cmd
  | Pause ethtool_pauseparam
  | Coalesce ethtool_coalesce
  | Drvinfo ethtool_drvinfo

record ifreq =
  ifr_name :: string
  ifr_ifindex :: int
  ifr_flags :: u16
  ifr_data :: ifr_data

datatype dev_request = SIOCGIFINDEX | SIOCGIFNAME | SIOCGIFFLAGS | SIOCSIFFLAGS | SIOCETHTOOL

record os =
  os_endian :: endian
  os_sched :: "nat \<Rightarrow> outcome"
  os_tick :: nat
  os_errno :: int
  os_dir :: "string \<rightharpoonup> nat"
  os_data :: "nat \<Rightarrow> byte list"
  os_inodes :: nat
  os_fd :: "nat \<rightharpoonup> ofd"
  os_nofile :: nat
  os_heap :: "nat set"
  os_brk :: nat
  os_maps :: "int \<rightharpoonup> nat"
  os_vm :: nat
  os_threads :: "thr list"
  os_tids :: "nat \<Rightarrow> nat"
  os_online :: "nat set"
  os_core :: "nat \<times> nat"
  os_dumpable :: bool
  os_names :: "nat \<Rightarrow> string"
  os_junk :: "nat \<Rightarrow> int"
  os_hist :: "(dev_request \<times> ifreq) list"
  os_ioctl :: "(dev_request \<times> ifreq) list \<Rightarrow> dev_request \<Rightarrow> ifreq \<Rightarrow> outcome \<times> ifreq"

text \<open>
  A freshly booted process for concrete runs: descriptors 0 to 2 taken, no files, nothing
  allocated, the given outcomes and no network device (every device request fails with ENODEV).
\<close>

definition boot :: "(nat \<Rightarrow> outcome) \<Rightarrow> os" where
  "boot sc = \<lparr>os_endian = Little, os_sched = sc, os_tick = 0, os_errno = 0, os_dir = Map.empty,
     os_data = (\<lambda>_. []), os_inodes = 0,
     os_fd = [0 \<mapsto> Sock fresh_sock, 1 \<mapsto> Sock fresh_sock, 2 \<mapsto> Sock fresh_sock], os_nofile = 8,
     os_heap = {}, os_brk = 1, os_maps = Map.empty, os_vm = 4096,
     os_threads = [], os_tids = (\<lambda>n. 1000 + n), os_online = {..<4}, os_core = (0, 1), os_dumpable = False, os_names = (\<lambda>_. []), os_junk = (\<lambda>_. 0),
     os_hist = [], os_ioctl = (\<lambda>h q r. (Fail 18, r))\<rparr>"

lemma boot_simps [simp]:
  "os_endian (boot sc) = Little" "os_sched (boot sc) = sc" "os_tick (boot sc) = 0" "os_dir (boot sc) = Map.empty"
  "os_data (boot sc) = (\<lambda>_. [])" "os_inodes (boot sc) = 0" "os_nofile (boot sc) = 8"
  "os_fd (boot sc) = [0 \<mapsto> Sock fresh_sock, 1 \<mapsto> Sock fresh_sock, 2 \<mapsto> Sock fresh_sock]"
  "os_heap (boot sc) = {}" "os_brk (boot sc) = 1" "os_maps (boot sc) = Map.empty" "os_vm (boot sc) = 4096"
  "os_threads (boot sc) = []" "os_tids (boot sc) = (\<lambda>n. 1000 + n)" "os_online (boot sc) = {..<4}"
  "os_names (boot sc) = (\<lambda>_. [])" "os_junk (boot sc) = (\<lambda>_. 0)"
  "os_hist (boot sc) = []" "os_errno (boot sc) = 0" "os_ioctl (boot sc) = (\<lambda>h q r. (Fail 18, r))"
  by (simp_all add: boot_def)

section \<open>Outcomes\<close>

definition tick :: "os \<Rightarrow> os" where
  [os_defs]: "tick s = s\<lparr>os_tick := Suc (os_tick s)\<rparr>"

definition errno :: "int \<Rightarrow> os \<Rightarrow> os" where
  [os_defs]: "errno e s = s\<lparr>os_errno := e\<rparr>"

definition syscall :: "'a \<Rightarrow> (outcome \<Rightarrow> os \<Rightarrow> 'a \<times> os) \<Rightarrow> os \<Rightarrow> 'a \<times> os" where
  [os_defs]: "syscall bad f s =
     (case os_sched s (os_tick s) of
        Fail n \<Rightarrow> (bad, errno (int n + 1) (tick s))
      | oc \<Rightarrow> f oc (tick s))"

section \<open>Descriptors\<close>

definition fd_of :: "os \<Rightarrow> int \<Rightarrow> ofd option" where
  "fd_of s fd = (if fd < 0 then None else os_fd s (nat fd))"

definition set_fd :: "int \<Rightarrow> ofd option \<Rightarrow> os \<Rightarrow> os" where
  [os_defs]: "set_fd fd d s = s\<lparr>os_fd := (os_fd s)(nat fd := d)\<rparr>"

text \<open>The lowest descriptor not in use, or \<open>EMFILE\<close> at the process limit.\<close>

definition install_fd :: "ofd \<Rightarrow> os \<Rightarrow> int \<times> os" where
  [os_defs]: "install_fd d s =
     (case find (\<lambda>n. os_fd s n = None) [0..<os_nofile s] of
        None \<Rightarrow> (-1, errno EMFILE s)
      | Some n \<Rightarrow> (int n, set_fd (int n) (Some d) s))"

definition close_fd :: "int \<Rightarrow> os \<Rightarrow> int \<times> os" where
  [os_defs]: "close_fd fd s =
     (case fd_of s fd of
        None \<Rightarrow> (-1, errno EBADF (tick s))
      | Some _ \<Rightarrow>
          (case os_sched s (os_tick s) of
             Fail n \<Rightarrow> (-1, errno (int n + 1) (set_fd fd None (tick s)))
           | _ \<Rightarrow> (0, set_fd fd None (tick s))))"

section \<open>Files\<close>

definition O_RDONLY :: u32 where "O_RDONLY = 0"
definition O_WRONLY :: u32 where "O_WRONLY = 1"
definition O_RDWR :: u32 where "O_RDWR = 2"
definition O_CREAT :: u32 where "O_CREAT = 64"
definition O_TRUNC :: u32 where "O_TRUNC = 512"
definition O_APPEND :: u32 where "O_APPEND = 1024"

lemmas open_flag_defs = O_RDONLY_def O_WRONLY_def O_RDWR_def O_CREAT_def O_TRUNC_def O_APPEND_def

definition new_file :: "string \<Rightarrow> os \<Rightarrow> os" where
  [os_defs]: "new_file path s =
     s\<lparr>os_dir := (os_dir s)(path \<mapsto> os_inodes s),
       os_data := (os_data s)(os_inodes s := []),
       os_names := (os_names s)(os_inodes s := path),
       os_inodes := Suc (os_inodes s)\<rparr>"

definition truncate_file :: "nat \<Rightarrow> os \<Rightarrow> os" where
  [os_defs]: "truncate_file ino s = s\<lparr>os_data := (os_data s)(ino := [])\<rparr>"

text \<open>\<open>open(2)\<close>: the descriptor is allocated first, then the path is resolved.\<close>

definition open_file :: "string \<Rightarrow> u32 \<Rightarrow> os \<Rightarrow> int \<times> os" where
  [os_defs]: "open_file path flags =
     syscall (-1) (\<lambda>_ s.
       let rd = (flags AND 3 = 0 \<or> flags AND 3 = 2);
           wr = (flags AND 3 = 1 \<or> flags AND 3 = 2);
           ap = (flags AND O_APPEND = O_APPEND)
       in (case find (\<lambda>n. os_fd s n = None) [0..<os_nofile s] of
             None \<Rightarrow> (-1, errno EMFILE s)
           | Some n \<Rightarrow>
               (case os_dir s path of
                  None \<Rightarrow>
                    (if flags AND O_CREAT = O_CREAT
                     then (int n, set_fd (int n) (Some (Reg (os_inodes s) 0 rd wr ap)) (new_file path s))
                     else (-1, errno ENOENT s))
                | Some ino \<Rightarrow>
                    (int n, set_fd (int n) (Some (Reg ino 0 rd wr ap))
                       (if flags AND O_TRUNC = O_TRUNC then truncate_file ino s else s)))))"

text \<open>\<open>creat(path, mode)\<close> is \<open>open(path, O_WRONLY | O_CREAT | O_TRUNC, mode)\<close>.\<close>

definition creat :: "string \<Rightarrow> os \<Rightarrow> int \<times> os" where
  "creat path = open_file path (O_WRONLY OR O_CREAT OR O_TRUNC)"

definition unlink :: "string \<Rightarrow> os \<Rightarrow> int \<times> os" where
  [os_defs]: "unlink path =
     syscall (-1) (\<lambda>_ s.
       case os_dir s path of
         None \<Rightarrow> (-1, errno ENOENT s)
       | Some _ \<Rightarrow> (0, s\<lparr>os_dir := (os_dir s)(path := None)\<rparr>))"

text \<open>Overwrite from an offset; a hole left before the offset reads as zeroes.\<close>

definition write_at :: "nat \<Rightarrow> byte list \<Rightarrow> byte list \<Rightarrow> byte list" where
  "write_at p new old =
     take p (old @ replicate (p - length old) 0) @ new @ drop (p + length new) old"

definition write_fd :: "int \<Rightarrow> byte list \<Rightarrow> os \<Rightarrow> int \<times> os" where
  [os_defs]: "write_fd fd bs =
     syscall (-1) (\<lambda>oc s.
       case fd_of s fd of
         Some (Reg ino pos rd True ap) \<Rightarrow>
           let new = (case oc of Short m \<Rightarrow> take m bs | _ \<Rightarrow> bs);
               p = (if ap then length (os_data s ino) else pos)
           in (int (length new),
               set_fd fd (Some (Reg ino (p + length new) rd True ap))
                 (s\<lparr>os_data := (os_data s)(ino := write_at p new (os_data s ino))\<rparr>))
       | _ \<Rightarrow> (-1, errno EBADF s))"

definition read_fd :: "int \<Rightarrow> nat \<Rightarrow> os \<Rightarrow> (int \<times> byte list) \<times> os" where
  [os_defs]: "read_fd fd n =
     syscall (-1, []) (\<lambda>oc s.
       case fd_of s fd of
         Some (Reg ino pos True wr ap) \<Rightarrow>
           let avail = take n (drop pos (os_data s ino));
               got = (case oc of Short m \<Rightarrow> take m avail | _ \<Rightarrow> avail)
           in ((int (length got), got), set_fd fd (Some (Reg ino (pos + length got) True wr ap)) s)
       | _ \<Rightarrow> ((-1, []), errno EBADF s))"

datatype whence = SEEK_SET | SEEK_CUR | SEEK_END

definition lseek_fd :: "int \<Rightarrow> nat \<Rightarrow> whence \<Rightarrow> os \<Rightarrow> int \<times> os" where
  [os_defs]: "lseek_fd fd off w =
     syscall (-1) (\<lambda>_ s.
       case fd_of s fd of
         Some (Reg ino pos rd wr ap) \<Rightarrow>
           let p = (case w of SEEK_SET \<Rightarrow> off | SEEK_CUR \<Rightarrow> pos + off | SEEK_END \<Rightarrow> length (os_data s ino) + off)
           in (int p, set_fd fd (Some (Reg ino p rd wr ap)) s)
       | _ \<Rightarrow> (-1, errno EBADF s))"

section \<open>Heap\<close>

text \<open>\<open>malloc\<close>, \<open>calloc\<close>: a new block, or NULL (\<open>None\<close>) with \<open>errno\<close> set to \<open>ENOMEM\<close>.\<close>

definition malloc :: "os \<Rightarrow> nat option \<times> os" where
  [os_defs]: "malloc s =
     (case os_sched s (os_tick s) of
        Fail _ \<Rightarrow> (None, errno ENOMEM (tick s))
      | _ \<Rightarrow> (Some (os_brk s),
          (tick s)\<lparr>os_brk := Suc (os_brk s), os_heap := insert (os_brk s) (os_heap s)\<rparr>))"

text \<open>
  \<open>free\<close>: releasing NULL is a no-op, releasing a block that is not allocated corrupts the
  heap, which is the result \<open>None\<close>.
\<close>

definition free :: "nat option \<Rightarrow> os \<Rightarrow> os option" where
  [os_defs]: "free p s =
     (case p of
        None \<Rightarrow> Some s
      | Some b \<Rightarrow> if b \<in> os_heap s then Some (s\<lparr>os_heap := os_heap s - {b}\<rparr>) else None)"

section \<open>Packet sockets and memory maps\<close>

definition socket :: "os \<Rightarrow> int \<times> os" where
  [os_defs]: "socket = syscall (-1) (\<lambda>_. install_fd (Sock fresh_sock))"

text \<open>An operation on a socket descriptor: \<open>EBADF\<close> when the descriptor is not a socket.\<close>

definition on_sock :: "int \<Rightarrow> (psock \<Rightarrow> psock) \<Rightarrow> os \<Rightarrow> int \<times> os" where
  [os_defs]: "on_sock fd f =
     syscall (-1) (\<lambda>_ s.
       case fd_of s fd of
         Some (Sock sk) \<Rightarrow> (0, set_fd fd (Some (Sock (f sk))) s)
       | _ \<Rightarrow> (-1, errno EBADF s))"

text \<open>
  \<open>setsockopt(SOL_PACKET, ring, req)\<close> installs a ring; a request with no block releases it.
\<close>

definition setsockopt_ring :: "int \<Rightarrow> int \<Rightarrow> tpacket_req \<Rightarrow> os \<Rightarrow> int \<times> os" where
  [os_defs]: "setsockopt_ring fd opt req =
     on_sock fd (\<lambda>sk. sk\<lparr>sk_rings := (sk_rings sk)
                   (opt := (if tp_block_nr req = 0 then None else Some req))\<rparr>)"

definition setsockopt_filter :: "int \<Rightarrow> sock_filter list option \<Rightarrow> os \<Rightarrow> int \<times> os" where
  [os_defs]: "setsockopt_filter fd flt = on_sock fd (\<lambda>sk. sk\<lparr>sk_filter := flt\<rparr>)"

definition setsockopt_loss :: "int \<Rightarrow> int \<Rightarrow> os \<Rightarrow> int \<times> os" where
  [os_defs]: "setsockopt_loss fd v = on_sock fd (\<lambda>sk. sk\<lparr>sk_loss := v\<rparr>)"

definition bind_sock :: "int \<Rightarrow> int \<Rightarrow> os \<Rightarrow> int \<times> os" where
  [os_defs]: "bind_sock fd ifindex = on_sock fd (\<lambda>sk. sk\<lparr>sk_ifindex := Some ifindex\<rparr>)"

text \<open>\<open>mmap(2)\<close> of a descriptor: a length of 0 is \<open>EINVAL\<close>; the kernel picks a free range.\<close>

definition MAP_FAILED :: int where "MAP_FAILED = -1"

definition mmap :: "nat \<Rightarrow> int \<Rightarrow> os \<Rightarrow> int \<times> os" where
  [os_defs]: "mmap len fd =
     syscall MAP_FAILED (\<lambda>_ s.
       if len = 0 then (MAP_FAILED, errno EINVAL s)
       else if fd_of s fd = None then (MAP_FAILED, errno EBADF s)
       else (int (Suc (os_vm s)),
             s\<lparr>os_maps := (os_maps s)(int (Suc (os_vm s)) \<mapsto> len), os_vm := Suc (os_vm s) + len\<rparr>))"

definition munmap :: "int \<Rightarrow> nat \<Rightarrow> os \<Rightarrow> int \<times> os" where
  [os_defs]: "munmap addr len s =
     (if os_maps s addr = Some len then (0, s\<lparr>os_maps := (os_maps s)(addr := None)\<rparr>)
      else (-1, errno EINVAL s))"

section \<open>Devices\<close>

text \<open>
  \<open>ioctl(sock, request, &ifr)\<close>: the kernel answers from the history of requests; a success may
  rewrite the request structure in place.
\<close>

definition ioctl_dev :: "int \<Rightarrow> dev_request \<Rightarrow> ifreq \<Rightarrow> os \<Rightarrow> (int \<times> ifreq) \<times> os" where
  [os_defs]: "ioctl_dev fd q r s =
     (if fd_of s fd = None then ((-1, r), errno EBADF s)
      else case os_ioctl s (os_hist s) q r of
        (Fail n, _) \<Rightarrow> ((-1, r), errno (int n + 1) (s\<lparr>os_hist := os_hist s @ [(q, r)]\<rparr>))
      | (_, r') \<Rightarrow> ((0, r'), s\<lparr>os_hist := os_hist s @ [(q, r)]\<rparr>))"

section \<open>Threads\<close>

text \<open>
  A thread identifier is unique among the live threads, and otherwise arbitrary: the number
  proposed by the environment if it is free, else the next free one.
\<close>

definition pick_fresh :: "nat list \<Rightarrow> nat \<Rightarrow> nat" where
  "pick_fresh live h =
     (case find (\<lambda>n. n \<notin> set live) [h..<Suc (h + length live)] of Some n \<Rightarrow> n | None \<Rightarrow> h)"

definition thread_ids :: "os \<Rightarrow> nat list" where
  "thread_ids s = map t_id (os_threads s)"

definition find_thr :: "nat \<Rightarrow> os \<Rightarrow> thr option" where
  "find_thr i s = find (\<lambda>t. t_id t = i) (os_threads s)"

definition upd_thr :: "nat \<Rightarrow> (thr \<Rightarrow> thr) \<Rightarrow> os \<Rightarrow> os" where
  [os_defs]: "upd_thr i f s =
     s\<lparr>os_threads := map (\<lambda>t. if t_id t = i then f t else t) (os_threads s)\<rparr>"

text \<open>\<open>pthread_create\<close> returns 0 or an error number, and stores the new identifier.\<close>

definition pthread_create :: "thread_fn \<Rightarrow> nat \<Rightarrow> os \<Rightarrow> (int \<times> nat) \<times> os" where
  [os_defs]: "pthread_create fn arg s =
     (case os_sched s (os_tick s) of
        Fail n \<Rightarrow> ((int n + 1, 0), tick s)
      | _ \<Rightarrow>
          let i = pick_fresh (thread_ids s) (os_tids s (os_tick s))
          in ((0, i), (tick s)\<lparr>os_threads := os_threads s @
                [\<lparr>t_id = i, t_fn = fn, t_arg = arg, t_cancel = False, t_policy = 0, t_prio = 0,
                  t_cpus = os_online s\<rparr>]\<rparr>))"

definition ESRCH :: int where [errno_defs]: "ESRCH = 3"

text \<open>A thread function that returns 0 or an error number and acts on a live thread.\<close>

definition on_thr :: "nat \<Rightarrow> (thr \<Rightarrow> thr) \<Rightarrow> os \<Rightarrow> int \<times> os" where
  [os_defs]: "on_thr i f s =
     (case os_sched s (os_tick s) of
        Fail n \<Rightarrow> (int n + 1, tick s)
      | _ \<Rightarrow> (if find_thr i s = None then (ESRCH, tick s) else (0, upd_thr i f (tick s))))"

definition pthread_detach :: "nat \<Rightarrow> os \<Rightarrow> int \<times> os" where
  [os_defs]: "pthread_detach i = on_thr i (\<lambda>t. t)"

text \<open>\<open>pthread_cancel\<close> queues a cancellation request; the thread goes on to its next cancellation point.\<close>

definition pthread_cancel :: "nat \<Rightarrow> os \<Rightarrow> int \<times> os" where
  [os_defs]: "pthread_cancel i = on_thr i (\<lambda>t. t\<lparr>t_cancel := True\<rparr>)"

text \<open>
  The policies a thread may be given, with their ranges of priorities (sched(7)): \<open>SCHED_OTHER\<close>, \<open>SCHED_FIFO\<close>, \<open>SCHED_RR\<close>,
  \<open>SCHED_BATCH\<close> and \<open>SCHED_IDLE\<close>.
\<close>

definition SCHED_OTHER :: int where "SCHED_OTHER = 0"
definition SCHED_FIFO :: int where "SCHED_FIFO = 1"
definition SCHED_RR :: int where "SCHED_RR = 2"

definition prio_range :: "int \<Rightarrow> (int \<times> int) option" where
  "prio_range policy =
     (if policy = SCHED_FIFO \<or> policy = SCHED_RR then Some (1, 99)
      else if policy = SCHED_OTHER \<or> policy = 3 \<or> policy = 5 then Some (0, 0) else None)"

definition sched_get_priority_min :: "int \<Rightarrow> os \<Rightarrow> int \<times> os" where
  [os_defs]: "sched_get_priority_min policy =
     syscall (-1) (\<lambda>_ s. case prio_range policy of None \<Rightarrow> (-1, errno EINVAL s) | Some (lo, hi) \<Rightarrow> (lo, s))"

definition sched_get_priority_max :: "int \<Rightarrow> os \<Rightarrow> int \<times> os" where
  [os_defs]: "sched_get_priority_max policy =
     syscall (-1) (\<lambda>_ s. case prio_range policy of None \<Rightarrow> (-1, errno EINVAL s) | Some (lo, hi) \<Rightarrow> (hi, s))"

definition pthread_setschedparam :: "nat \<Rightarrow> int \<Rightarrow> int \<Rightarrow> os \<Rightarrow> int \<times> os" where
  [os_defs]: "pthread_setschedparam i policy prio s =
     (case prio_range policy of
        None \<Rightarrow> (EINVAL, tick s)
      | Some (lo, hi) \<Rightarrow>
          if prio < lo \<or> hi < prio then (EINVAL, tick s)
          else on_thr i (\<lambda>t. t\<lparr>t_policy := policy, t_prio := prio\<rparr>) s)"

text \<open>Nothing is stored by a call that fails.\<close>

definition pthread_getschedparam :: "nat \<Rightarrow> os \<Rightarrow> (int \<times> (int \<times> int) option) \<times> os" where
  [os_defs]: "pthread_getschedparam i s =
     (case os_sched s (os_tick s) of
        Fail n \<Rightarrow> ((int n + 1, None), tick s)
      | _ \<Rightarrow> (case find_thr i s of
          None \<Rightarrow> ((ESRCH, None), tick s) | Some t \<Rightarrow> ((0, Some (t_policy t, t_prio t)), tick s)))"

definition pthread_getaffinity :: "nat \<Rightarrow> os \<Rightarrow> (int \<times> nat set option) \<times> os" where
  [os_defs]: "pthread_getaffinity i s =
     (case os_sched s (os_tick s) of
        Fail n \<Rightarrow> ((int n + 1, None), tick s)
      | _ \<Rightarrow> (case find_thr i s of
          None \<Rightarrow> ((ESRCH, None), tick s) | Some t \<Rightarrow> ((0, Some (t_cpus t)), tick s)))"

definition pthread_setaffinity :: "nat \<Rightarrow> nat set \<Rightarrow> os \<Rightarrow> int \<times> os" where
  [os_defs]: "pthread_setaffinity i cpus s =
     (if cpus \<inter> os_online s = {} then (EINVAL, tick s)
      else on_thr i (\<lambda>t. t\<lparr>t_cpus := cpus \<inter> os_online s\<rparr>) s)"

section \<open>Frame facts\<close>

text \<open>What each call leaves alone, as rewrite rules on the state it returns.\<close>

lemma tick_frame [simp, os_frame]:
  "os_endian (tick s) = os_endian s" "os_sched (tick s) = os_sched s"
  "os_nofile (tick s) = os_nofile s" "os_tids (tick s) = os_tids s"
  "os_online (tick s) = os_online s" "os_ioctl (tick s) = os_ioctl s"
  "os_heap (tick s) = os_heap s" "os_brk (tick s) = os_brk s" "os_maps (tick s) = os_maps s"
  "os_vm (tick s) = os_vm s" "os_threads (tick s) = os_threads s" "os_hist (tick s) = os_hist s"
  "os_dir (tick s) = os_dir s" "os_inodes (tick s) = os_inodes s" "os_data (tick s) = os_data s"
  "os_fd (tick s) = os_fd s" "os_errno (tick s) = os_errno s"
  by (simp_all add: os_defs Let_def split: outcome.split option.split ofd.split bool.split prod.split)

lemma errno_frame [simp, os_frame]:
  "os_endian (errno e s) = os_endian s" "os_sched (errno e s) = os_sched s"
  "os_nofile (errno e s) = os_nofile s" "os_tids (errno e s) = os_tids s"
  "os_online (errno e s) = os_online s" "os_ioctl (errno e s) = os_ioctl s"
  "os_heap (errno e s) = os_heap s" "os_brk (errno e s) = os_brk s"
  "os_maps (errno e s) = os_maps s" "os_vm (errno e s) = os_vm s"
  "os_threads (errno e s) = os_threads s" "os_hist (errno e s) = os_hist s"
  "os_dir (errno e s) = os_dir s" "os_inodes (errno e s) = os_inodes s"
  "os_data (errno e s) = os_data s" "os_fd (errno e s) = os_fd s"
  "os_tick (errno e s) = os_tick s"
  by (simp_all add: os_defs Let_def split: outcome.split option.split ofd.split bool.split prod.split)

lemma set_fd_frame [simp, os_frame]:
  "os_endian (set_fd n d s) = os_endian s" "os_sched (set_fd n d s) = os_sched s"
  "os_nofile (set_fd n d s) = os_nofile s" "os_tids (set_fd n d s) = os_tids s"
  "os_online (set_fd n d s) = os_online s" "os_ioctl (set_fd n d s) = os_ioctl s"
  "os_heap (set_fd n d s) = os_heap s" "os_brk (set_fd n d s) = os_brk s"
  "os_maps (set_fd n d s) = os_maps s" "os_vm (set_fd n d s) = os_vm s"
  "os_threads (set_fd n d s) = os_threads s" "os_hist (set_fd n d s) = os_hist s"
  "os_dir (set_fd n d s) = os_dir s" "os_inodes (set_fd n d s) = os_inodes s"
  "os_data (set_fd n d s) = os_data s" "os_tick (set_fd n d s) = os_tick s"
  "os_errno (set_fd n d s) = os_errno s"
  by (simp_all add: os_defs Let_def split: outcome.split option.split ofd.split bool.split prod.split)

lemma close_fd_frame [simp, os_frame]:
  "os_endian (snd (close_fd n s)) = os_endian s" "os_sched (snd (close_fd n s)) = os_sched s"
  "os_nofile (snd (close_fd n s)) = os_nofile s" "os_tids (snd (close_fd n s)) = os_tids s"
  "os_online (snd (close_fd n s)) = os_online s" "os_ioctl (snd (close_fd n s)) = os_ioctl s"
  "os_heap (snd (close_fd n s)) = os_heap s" "os_brk (snd (close_fd n s)) = os_brk s"
  "os_maps (snd (close_fd n s)) = os_maps s" "os_vm (snd (close_fd n s)) = os_vm s"
  "os_threads (snd (close_fd n s)) = os_threads s" "os_hist (snd (close_fd n s)) = os_hist s"
  "os_dir (snd (close_fd n s)) = os_dir s" "os_inodes (snd (close_fd n s)) = os_inodes s"
  "os_data (snd (close_fd n s)) = os_data s"
  by (simp_all add: os_defs Let_def split: outcome.split option.split ofd.split bool.split prod.split)

lemma open_file_frame [simp, os_frame]:
  "os_endian (snd (open_file path flags s)) = os_endian s"
  "os_sched (snd (open_file path flags s)) = os_sched s"
  "os_nofile (snd (open_file path flags s)) = os_nofile s"
  "os_tids (snd (open_file path flags s)) = os_tids s"
  "os_online (snd (open_file path flags s)) = os_online s"
  "os_ioctl (snd (open_file path flags s)) = os_ioctl s"
  "os_heap (snd (open_file path flags s)) = os_heap s"
  "os_brk (snd (open_file path flags s)) = os_brk s"
  "os_maps (snd (open_file path flags s)) = os_maps s"
  "os_vm (snd (open_file path flags s)) = os_vm s"
  "os_threads (snd (open_file path flags s)) = os_threads s"
  "os_hist (snd (open_file path flags s)) = os_hist s"
  by (simp_all add: os_defs Let_def split: outcome.split option.split ofd.split bool.split prod.split)

lemma creat_frame [simp, os_frame]:
  "os_endian (snd (creat path s)) = os_endian s" "os_sched (snd (creat path s)) = os_sched s"
  "os_nofile (snd (creat path s)) = os_nofile s" "os_tids (snd (creat path s)) = os_tids s"
  "os_online (snd (creat path s)) = os_online s" "os_ioctl (snd (creat path s)) = os_ioctl s"
  "os_heap (snd (creat path s)) = os_heap s" "os_brk (snd (creat path s)) = os_brk s"
  "os_maps (snd (creat path s)) = os_maps s" "os_vm (snd (creat path s)) = os_vm s"
  "os_threads (snd (creat path s)) = os_threads s" "os_hist (snd (creat path s)) = os_hist s"
  by (simp_all add: creat_def)

lemma unlink_frame [simp, os_frame]:
  "os_endian (snd (unlink path s)) = os_endian s" "os_sched (snd (unlink path s)) = os_sched s"
  "os_nofile (snd (unlink path s)) = os_nofile s" "os_tids (snd (unlink path s)) = os_tids s"
  "os_online (snd (unlink path s)) = os_online s" "os_ioctl (snd (unlink path s)) = os_ioctl s"
  "os_heap (snd (unlink path s)) = os_heap s" "os_brk (snd (unlink path s)) = os_brk s"
  "os_maps (snd (unlink path s)) = os_maps s" "os_vm (snd (unlink path s)) = os_vm s"
  "os_threads (snd (unlink path s)) = os_threads s" "os_hist (snd (unlink path s)) = os_hist s"
  "os_data (snd (unlink path s)) = os_data s" "os_fd (snd (unlink path s)) = os_fd s"
  "os_inodes (snd (unlink path s)) = os_inodes s"
  by (simp_all add: os_defs Let_def split: outcome.split option.split ofd.split bool.split prod.split)

lemma write_fd_frame [simp, os_frame]:
  "os_endian (snd (write_fd n bs s)) = os_endian s"
  "os_sched (snd (write_fd n bs s)) = os_sched s"
  "os_nofile (snd (write_fd n bs s)) = os_nofile s" "os_tids (snd (write_fd n bs s)) = os_tids s"
  "os_online (snd (write_fd n bs s)) = os_online s"
  "os_ioctl (snd (write_fd n bs s)) = os_ioctl s" "os_heap (snd (write_fd n bs s)) = os_heap s"
  "os_brk (snd (write_fd n bs s)) = os_brk s" "os_maps (snd (write_fd n bs s)) = os_maps s"
  "os_vm (snd (write_fd n bs s)) = os_vm s" "os_threads (snd (write_fd n bs s)) = os_threads s"
  "os_hist (snd (write_fd n bs s)) = os_hist s" "os_dir (snd (write_fd n bs s)) = os_dir s"
  "os_inodes (snd (write_fd n bs s)) = os_inodes s"
  by (simp_all add: os_defs Let_def split: outcome.split option.split ofd.split bool.split prod.split)

lemma read_fd_frame [simp, os_frame]:
  "os_endian (snd (read_fd n m s)) = os_endian s" "os_sched (snd (read_fd n m s)) = os_sched s"
  "os_nofile (snd (read_fd n m s)) = os_nofile s" "os_tids (snd (read_fd n m s)) = os_tids s"
  "os_online (snd (read_fd n m s)) = os_online s" "os_ioctl (snd (read_fd n m s)) = os_ioctl s"
  "os_heap (snd (read_fd n m s)) = os_heap s" "os_brk (snd (read_fd n m s)) = os_brk s"
  "os_maps (snd (read_fd n m s)) = os_maps s" "os_vm (snd (read_fd n m s)) = os_vm s"
  "os_threads (snd (read_fd n m s)) = os_threads s" "os_hist (snd (read_fd n m s)) = os_hist s"
  "os_dir (snd (read_fd n m s)) = os_dir s" "os_inodes (snd (read_fd n m s)) = os_inodes s"
  "os_data (snd (read_fd n m s)) = os_data s"
  by (simp_all add: os_defs Let_def split: outcome.split option.split ofd.split bool.split prod.split)

lemma lseek_fd_frame [simp, os_frame]:
  "os_endian (snd (lseek_fd n off w s)) = os_endian s"
  "os_sched (snd (lseek_fd n off w s)) = os_sched s"
  "os_nofile (snd (lseek_fd n off w s)) = os_nofile s"
  "os_tids (snd (lseek_fd n off w s)) = os_tids s"
  "os_online (snd (lseek_fd n off w s)) = os_online s"
  "os_ioctl (snd (lseek_fd n off w s)) = os_ioctl s"
  "os_heap (snd (lseek_fd n off w s)) = os_heap s" "os_brk (snd (lseek_fd n off w s)) = os_brk s"
  "os_maps (snd (lseek_fd n off w s)) = os_maps s" "os_vm (snd (lseek_fd n off w s)) = os_vm s"
  "os_threads (snd (lseek_fd n off w s)) = os_threads s"
  "os_hist (snd (lseek_fd n off w s)) = os_hist s" "os_dir (snd (lseek_fd n off w s)) = os_dir s"
  "os_inodes (snd (lseek_fd n off w s)) = os_inodes s"
  "os_data (snd (lseek_fd n off w s)) = os_data s"
  by (simp_all add: os_defs Let_def split: outcome.split option.split ofd.split bool.split prod.split)

lemma malloc_frame [simp, os_frame]:
  "os_endian (snd (malloc s)) = os_endian s" "os_sched (snd (malloc s)) = os_sched s"
  "os_nofile (snd (malloc s)) = os_nofile s" "os_tids (snd (malloc s)) = os_tids s"
  "os_online (snd (malloc s)) = os_online s" "os_ioctl (snd (malloc s)) = os_ioctl s"
  "os_maps (snd (malloc s)) = os_maps s" "os_vm (snd (malloc s)) = os_vm s"
  "os_threads (snd (malloc s)) = os_threads s" "os_hist (snd (malloc s)) = os_hist s"
  "os_dir (snd (malloc s)) = os_dir s" "os_inodes (snd (malloc s)) = os_inodes s"
  "os_data (snd (malloc s)) = os_data s" "os_fd (snd (malloc s)) = os_fd s"
  by (simp_all add: os_defs Let_def split: outcome.split option.split ofd.split bool.split prod.split)

lemma socket_frame [simp, os_frame]:
  "os_endian (snd (socket s)) = os_endian s" "os_sched (snd (socket s)) = os_sched s"
  "os_nofile (snd (socket s)) = os_nofile s" "os_tids (snd (socket s)) = os_tids s"
  "os_online (snd (socket s)) = os_online s" "os_ioctl (snd (socket s)) = os_ioctl s"
  "os_heap (snd (socket s)) = os_heap s" "os_brk (snd (socket s)) = os_brk s"
  "os_maps (snd (socket s)) = os_maps s" "os_vm (snd (socket s)) = os_vm s"
  "os_threads (snd (socket s)) = os_threads s" "os_hist (snd (socket s)) = os_hist s"
  "os_dir (snd (socket s)) = os_dir s" "os_inodes (snd (socket s)) = os_inodes s"
  "os_data (snd (socket s)) = os_data s"
  by (simp_all add: os_defs split: outcome.split option.split)

lemma on_sock_frame [simp, os_frame]:
  "os_endian (snd (on_sock n f s)) = os_endian s" "os_sched (snd (on_sock n f s)) = os_sched s"
  "os_nofile (snd (on_sock n f s)) = os_nofile s" "os_tids (snd (on_sock n f s)) = os_tids s"
  "os_online (snd (on_sock n f s)) = os_online s" "os_ioctl (snd (on_sock n f s)) = os_ioctl s"
  "os_heap (snd (on_sock n f s)) = os_heap s" "os_brk (snd (on_sock n f s)) = os_brk s"
  "os_maps (snd (on_sock n f s)) = os_maps s" "os_vm (snd (on_sock n f s)) = os_vm s"
  "os_threads (snd (on_sock n f s)) = os_threads s" "os_hist (snd (on_sock n f s)) = os_hist s"
  "os_dir (snd (on_sock n f s)) = os_dir s" "os_inodes (snd (on_sock n f s)) = os_inodes s"
  "os_data (snd (on_sock n f s)) = os_data s"
  by (simp_all add: os_defs Let_def split: outcome.split option.split ofd.split bool.split prod.split)

lemma mmap_frame [simp, os_frame]:
  "os_endian (snd (mmap len n s)) = os_endian s" "os_sched (snd (mmap len n s)) = os_sched s"
  "os_nofile (snd (mmap len n s)) = os_nofile s" "os_tids (snd (mmap len n s)) = os_tids s"
  "os_online (snd (mmap len n s)) = os_online s" "os_ioctl (snd (mmap len n s)) = os_ioctl s"
  "os_heap (snd (mmap len n s)) = os_heap s" "os_brk (snd (mmap len n s)) = os_brk s"
  "os_threads (snd (mmap len n s)) = os_threads s" "os_hist (snd (mmap len n s)) = os_hist s"
  "os_dir (snd (mmap len n s)) = os_dir s" "os_inodes (snd (mmap len n s)) = os_inodes s"
  "os_data (snd (mmap len n s)) = os_data s" "os_fd (snd (mmap len n s)) = os_fd s"
  by (simp_all add: os_defs Let_def split: outcome.split option.split ofd.split bool.split prod.split)

lemma munmap_frame [simp, os_frame]:
  "os_endian (snd (munmap addr len s)) = os_endian s"
  "os_sched (snd (munmap addr len s)) = os_sched s"
  "os_nofile (snd (munmap addr len s)) = os_nofile s"
  "os_tids (snd (munmap addr len s)) = os_tids s"
  "os_online (snd (munmap addr len s)) = os_online s"
  "os_ioctl (snd (munmap addr len s)) = os_ioctl s"
  "os_heap (snd (munmap addr len s)) = os_heap s" "os_brk (snd (munmap addr len s)) = os_brk s"
  "os_threads (snd (munmap addr len s)) = os_threads s"
  "os_hist (snd (munmap addr len s)) = os_hist s" "os_dir (snd (munmap addr len s)) = os_dir s"
  "os_inodes (snd (munmap addr len s)) = os_inodes s"
  "os_data (snd (munmap addr len s)) = os_data s" "os_fd (snd (munmap addr len s)) = os_fd s"
  "os_vm (snd (munmap addr len s)) = os_vm s"
  by (simp_all add: os_defs Let_def split: outcome.split option.split ofd.split bool.split prod.split)

lemma ioctl_dev_frame [simp, os_frame]:
  "os_endian (snd (ioctl_dev n q r s)) = os_endian s"
  "os_sched (snd (ioctl_dev n q r s)) = os_sched s"
  "os_nofile (snd (ioctl_dev n q r s)) = os_nofile s"
  "os_tids (snd (ioctl_dev n q r s)) = os_tids s"
  "os_online (snd (ioctl_dev n q r s)) = os_online s"
  "os_ioctl (snd (ioctl_dev n q r s)) = os_ioctl s"
  "os_heap (snd (ioctl_dev n q r s)) = os_heap s" "os_brk (snd (ioctl_dev n q r s)) = os_brk s"
  "os_maps (snd (ioctl_dev n q r s)) = os_maps s" "os_vm (snd (ioctl_dev n q r s)) = os_vm s"
  "os_threads (snd (ioctl_dev n q r s)) = os_threads s"
  "os_dir (snd (ioctl_dev n q r s)) = os_dir s"
  "os_inodes (snd (ioctl_dev n q r s)) = os_inodes s"
  "os_data (snd (ioctl_dev n q r s)) = os_data s" "os_fd (snd (ioctl_dev n q r s)) = os_fd s"
  by (simp_all add: os_defs Let_def split: outcome.split option.split ofd.split bool.split prod.split)

lemma upd_thr_frame [simp, os_frame]:
  "os_endian (upd_thr i g s) = os_endian s" "os_sched (upd_thr i g s) = os_sched s"
  "os_nofile (upd_thr i g s) = os_nofile s" "os_tids (upd_thr i g s) = os_tids s"
  "os_online (upd_thr i g s) = os_online s" "os_ioctl (upd_thr i g s) = os_ioctl s"
  "os_heap (upd_thr i g s) = os_heap s" "os_brk (upd_thr i g s) = os_brk s"
  "os_maps (upd_thr i g s) = os_maps s" "os_vm (upd_thr i g s) = os_vm s"
  "os_hist (upd_thr i g s) = os_hist s" "os_dir (upd_thr i g s) = os_dir s"
  "os_inodes (upd_thr i g s) = os_inodes s" "os_data (upd_thr i g s) = os_data s"
  "os_fd (upd_thr i g s) = os_fd s"
  by (simp_all add: os_defs Let_def split: outcome.split option.split ofd.split bool.split prod.split)

lemma pthread_create_frame [simp, os_frame]:
  "os_endian (snd (pthread_create fn arg s)) = os_endian s"
  "os_sched (snd (pthread_create fn arg s)) = os_sched s"
  "os_nofile (snd (pthread_create fn arg s)) = os_nofile s"
  "os_tids (snd (pthread_create fn arg s)) = os_tids s"
  "os_online (snd (pthread_create fn arg s)) = os_online s"
  "os_ioctl (snd (pthread_create fn arg s)) = os_ioctl s"
  "os_heap (snd (pthread_create fn arg s)) = os_heap s"
  "os_brk (snd (pthread_create fn arg s)) = os_brk s"
  "os_maps (snd (pthread_create fn arg s)) = os_maps s"
  "os_vm (snd (pthread_create fn arg s)) = os_vm s"
  "os_hist (snd (pthread_create fn arg s)) = os_hist s"
  "os_dir (snd (pthread_create fn arg s)) = os_dir s"
  "os_inodes (snd (pthread_create fn arg s)) = os_inodes s"
  "os_data (snd (pthread_create fn arg s)) = os_data s"
  "os_fd (snd (pthread_create fn arg s)) = os_fd s"
  by (simp_all add: os_defs Let_def split: outcome.split option.split ofd.split bool.split prod.split)

lemma on_thr_frame [simp, os_frame]:
  "os_endian (snd (on_thr i g s)) = os_endian s" "os_sched (snd (on_thr i g s)) = os_sched s"
  "os_nofile (snd (on_thr i g s)) = os_nofile s" "os_tids (snd (on_thr i g s)) = os_tids s"
  "os_online (snd (on_thr i g s)) = os_online s" "os_ioctl (snd (on_thr i g s)) = os_ioctl s"
  "os_heap (snd (on_thr i g s)) = os_heap s" "os_brk (snd (on_thr i g s)) = os_brk s"
  "os_maps (snd (on_thr i g s)) = os_maps s" "os_vm (snd (on_thr i g s)) = os_vm s"
  "os_hist (snd (on_thr i g s)) = os_hist s" "os_dir (snd (on_thr i g s)) = os_dir s"
  "os_inodes (snd (on_thr i g s)) = os_inodes s" "os_data (snd (on_thr i g s)) = os_data s"
  "os_fd (snd (on_thr i g s)) = os_fd s"
  by (simp_all add: os_defs Let_def split: outcome.split option.split ofd.split bool.split prod.split)

section \<open>Facts on single calls\<close>

text \<open>A run in which the environment never interferes.\<close>

definition faultless :: "os \<Rightarrow> bool" where
  "faultless s \<longleftrightarrow> (\<forall>n. os_sched s n = Succeed)"

lemma faultlessD: "faultless s \<Longrightarrow> os_sched s n = Succeed"
  by (simp add: faultless_def)

lemma faultless_cong: "os_sched s' = os_sched s \<Longrightarrow> faultless s' = faultless s"
  by (simp add: faultless_def)

lemma os_tick_tick [simp]: "os_tick (tick s) = Suc (os_tick s)"
  by (simp add: tick_def)

lemma fd_of_tick [simp]: "fd_of (tick s) n = fd_of s n"
  by (simp add: fd_of_def)

lemma fd_of_errno [simp]: "fd_of (errno e s) n = fd_of s n"
  by (simp add: fd_of_def)

lemma fd_of_data [simp]: "fd_of (s\<lparr>os_data := d\<rparr>) n = fd_of s n"
  by (simp add: fd_of_def)

lemma fd_of_set_fd [simp]: "0 \<le> n \<Longrightarrow> fd_of (set_fd n d s) n = d"
  by (simp add: fd_of_def set_fd_def)

lemma fd_of_set_fd_other: "0 \<le> n \<Longrightarrow> m \<noteq> n \<Longrightarrow> fd_of (set_fd n d s) m = fd_of s m"
  by (auto simp: fd_of_def set_fd_def nat_eq_iff)

lemma os_fd_set_fd [simp]: "os_fd (set_fd n d s) = (os_fd s)(nat n := d)"
  by (simp add: set_fd_def)

lemma fd_of_Some_nonneg: "fd_of s n = Some d \<Longrightarrow> 0 \<le> n"
  by (auto simp: fd_of_def split: if_splits)

text \<open>An opened descriptor was free before, and opening touches no other descriptor.\<close>

lemma open_file_result:
  assumes "open_file path flags s = (n, s')"
  shows "n = -1 \<and> os_fd s' = os_fd s \<and> os_dir s' = os_dir s \<and> os_data s' = os_data s \<or>
    0 \<le> n \<and> os_fd s (nat n) = None \<and> (\<exists>ino rd wr ap. os_fd s' = (os_fd s)(nat n \<mapsto> Reg ino 0 rd wr ap))"
  using assms
  by (auto simp: open_file_def syscall_def Let_def new_file_def truncate_file_def
      split: outcome.splits option.splits if_splits dest!: find_SomeD) blast+

lemma os_fd_close_fd [simp]:
  "0 \<le> n \<Longrightarrow> os_fd (snd (close_fd n s)) = (os_fd s)(nat n := None)"
  by (auto simp: close_fd_def fd_of_def split: outcome.split option.split)

lemma close_fd_Fail_errno:
  assumes "close_fd n s = (-1, s')"
  shows "os_errno s' \<noteq> 0"
  using assms by (auto simp: close_fd_def errno_def split: option.splits outcome.splits)

lemma write_fd_Succeed:
  assumes "os_sched s (os_tick s) = Succeed" and "fd_of s n = Some (Reg ino pos rd True False)"
  shows "write_fd n bs s = (int (length bs),
     set_fd n (Some (Reg ino (pos + length bs) rd True False))
       ((tick s)\<lparr>os_data := (os_data s)(ino := write_at pos bs (os_data s ino))\<rparr>))"
  using assms by (simp add: write_fd_def syscall_def)

lemma read_fd_Succeed:
  assumes "os_sched s (os_tick s) = Succeed" and "fd_of s n = Some (Reg ino pos True wr ap)"
  shows "read_fd n m s =
     ((int (length (take m (drop pos (os_data s ino)))), take m (drop pos (os_data s ino))),
      set_fd n (Some (Reg ino (pos + length (take m (drop pos (os_data s ino)))) True wr ap)) (tick s))"
  using assms by (simp add: read_fd_def syscall_def Let_def)

lemma write_at_end: "p = length old \<Longrightarrow> write_at p new old = old @ new"
  by (simp add: write_at_def)

lemma length_write_at: "p \<le> length old \<Longrightarrow> length (write_at p new old) = max (length old) (p + length new)"
  by (simp add: write_at_def)

text \<open>Heap blocks: a new block is not allocated yet when all blocks lie below the break.\<close>

definition heap_wf :: "os \<Rightarrow> bool" where
  "heap_wf s \<longleftrightarrow> (\<forall>b \<in> os_heap s. b < os_brk s)"

lemma malloc_SomeD:
  assumes "malloc s = (Some b, s')" and "heap_wf s"
  shows "b \<notin> os_heap s \<and> os_heap s' = insert b (os_heap s) \<and> heap_wf s'"
  using assms
  by (auto simp: malloc_def heap_wf_def tick_def less_Suc_eq split: outcome.splits)

lemma malloc_NoneD: "malloc s = (None, s') \<Longrightarrow> os_heap s' = os_heap s \<and> os_brk s' = os_brk s"
  by (auto simp: malloc_def split: outcome.splits)

text \<open>A new thread gets an identifier no live thread has.\<close>

lemma pick_fresh_notin: "pick_fresh live h \<notin> set live"
proof (cases "find (\<lambda>n. n \<notin> set live) [h..<Suc (h + length live)]")
  case None
  then have sub: "{h..<Suc (h + length live)} \<subseteq> set live"
    by (auto simp: find_None_iff simp del: upt_Suc)
  have "Suc (length live) = card {h..<Suc (h + length live)}" by simp
  also from sub have "\<dots> \<le> card (set live)" by (rule card_mono [OF finite_set])
  also have "\<dots> \<le> length live" by (rule card_length)
  finally show ?thesis by simp
next
  case (Some n)
  then show ?thesis using find_SomeD [OF Some] by (simp add: pick_fresh_def del: upt_Suc)
qed

lemma find_thr_Some: "find_thr i s = Some t \<Longrightarrow> t \<in> set (os_threads s) \<and> t_id t = i"
  by (auto simp: find_thr_def dest!: find_SomeD)

lemma find_thr_None: "find_thr i s = None \<longleftrightarrow> i \<notin> set (thread_ids s)"
  by (auto simp: find_thr_def thread_ids_def find_None_iff)

lemma thread_ids_upd_thr [simp]:
  "(\<And>t. t_id (f t) = t_id t) \<Longrightarrow> thread_ids (upd_thr i f s) = thread_ids s"
  by (simp add: thread_ids_def upd_thr_def)

section \<open>Results of the file calls\<close>

lemma creat_result:
  assumes "creat path s = (n, s')"
  shows "n = -1 \<and> os_fd s' = os_fd s \<and> os_dir s' = os_dir s \<and> os_data s' = os_data s \<or>
    0 \<le> n \<and> os_fd s (nat n) = None \<and>
    (\<exists>ino. os_fd s' = (os_fd s)(nat n \<mapsto> Reg ino 0 False True False) \<and>
       os_dir s' = (os_dir s)(path \<mapsto> ino) \<and> os_data s' = (os_data s)(ino := []) \<and>
       (os_dir s path = Some ino \<or> ino = os_inodes s))"
  using assms
  by (auto simp: creat_def open_file_def syscall_def Let_def new_file_def truncate_file_def open_flag_defs
      split: outcome.splits option.splits if_splits dest!: find_SomeD) (metis map_upd_triv)+

lemma write_fd_full:
  assumes "write_fd n bs s = (int (length bs), s')" and "fd_of s n = Some (Reg ino pos rd True False)"
  shows "fd_of s' n = Some (Reg ino (pos + length bs) rd True False)
    \<and> os_data s' = (os_data s)(ino := write_at pos bs (os_data s ino))
    \<and> os_fd s' = (os_fd s)(nat n \<mapsto> Reg ino (pos + length bs) rd True False)"
  using assms fd_of_Some_nonneg [OF assms(2)]
  by (auto simp: write_fd_def syscall_def Let_def split: outcome.splits)

lemma read_fd_length: "read_fd n m s = ((r, bs), s') \<Longrightarrow> r \<noteq> -1 \<Longrightarrow> r = int (length bs)"
  by (auto simp: read_fd_def syscall_def Let_def split: outcome.splits option.splits ofd.splits bool.splits)

lemma read_fd_result:
  assumes "read_fd n m s = ((r, bs), s')" and "0 \<le> r" and "0 \<le> n"
  shows "\<exists>ino pos wr ap. fd_of s n = Some (Reg ino pos True wr ap) \<and>
     bs = take (length bs) (drop pos (os_data s ino)) \<and> length bs \<le> m \<and>
     os_fd s' = (os_fd s)(nat n \<mapsto> Reg ino (pos + length bs) True wr ap)"
  using assms
  by (auto simp: read_fd_def syscall_def Let_def take_take min_def
      split: outcome.splits option.splits ofd.splits bool.splits)

lemma read_fd_fail_fd:
  assumes "read_fd n m s = ((r, bs), s')" and "0 \<le> n" 
  shows "(\<exists>d. os_fd s' = (os_fd s)(nat n := d)) \<and> (r < 0 \<longrightarrow> os_fd s' = os_fd s)"
  using assms
  by (auto simp: read_fd_def syscall_def Let_def
      split: outcome.splits option.splits ofd.splits bool.splits) (metis fun_upd_triv)+

lemma lseek_fd_result:
  assumes "lseek_fd n off w s = (r, s')" and "0 \<le> n"
  shows "r = -1 \<and> os_fd s' = os_fd s \<or>
    (\<exists>ino pos rd wr ap. fd_of s n = Some (Reg ino pos rd wr ap) \<and>
      r = int (case w of SEEK_SET \<Rightarrow> off | SEEK_CUR \<Rightarrow> pos + off | SEEK_END \<Rightarrow> length (os_data s ino) + off) \<and>
      os_fd s' = (os_fd s)(nat n \<mapsto> Reg ino (nat r) rd wr ap))"
  using assms
  by (auto simp: lseek_fd_def syscall_def Let_def nat_int_add split: outcome.splits option.splits ofd.splits whence.splits)

lemma open_file_ok:
  assumes "open_file path flags s = (n, s')" and "0 \<le> n"
  shows "os_fd s (nat n) = None \<and> (\<exists>ino. os_dir s' path = Some ino \<and>
     os_fd s' = (os_fd s)(nat n \<mapsto> Reg ino 0 (flags AND 3 = 0 \<or> flags AND 3 = 2)
        (flags AND 3 = 1 \<or> flags AND 3 = 2) (flags AND O_APPEND = O_APPEND)))"
  using assms
  by (auto simp: open_file_def syscall_def Let_def new_file_def truncate_file_def
      split: outcome.splits option.splits if_splits dest!: find_SomeD)

lemma open_file_rdonly_data:
  "open_file path O_RDONLY s = (n, s') \<Longrightarrow> os_data s' = os_data s \<and> os_dir s' = os_dir s"
  by (auto simp: open_file_def syscall_def Let_def open_flag_defs split: outcome.splits option.splits)

lemma write_fd_fd: "0 \<le> n \<Longrightarrow> \<exists>d. os_fd (snd (write_fd n bs s)) = (os_fd s)(nat n := d)"
  by (auto simp: write_fd_def syscall_def Let_def intro: fun_upd_triv [symmetric]
      split: outcome.splits option.splits ofd.splits bool.splits)

lemma unlink_other: "p \<noteq> path \<Longrightarrow> os_dir (snd (unlink path s)) p = os_dir s p"
  by (auto simp: unlink_def syscall_def split: outcome.splits option.splits)

definition free_fds :: "os \<Rightarrow> nat list" where
  "free_fds s = filter (\<lambda>n. os_fd s n = None) [0..<os_nofile s]"

lemma find_hd_filter: "find P xs = (case filter P xs of [] \<Rightarrow> None | x # _ \<Rightarrow> Some x)"
  by (induction xs) auto

lemma find_free_fd: "find (\<lambda>n. os_fd s n = None) [0..<os_nofile s] = (case free_fds s of [] \<Rightarrow> None | x # _ \<Rightarrow> Some x)"
  by (simp add: free_fds_def find_hd_filter)

lemma free_fds_cong:
  "dom (os_fd s') = dom (os_fd s) \<Longrightarrow> os_nofile s' = os_nofile s \<Longrightarrow> free_fds s' = free_fds s"
  by (auto simp: free_fds_def domIff set_eq_iff simp del: not_None_eq intro!: filter_cong)

lemma free_fds_simps [simp]:
  "free_fds (tick s) = free_fds s" "free_fds (errno e s) = free_fds s"
  "free_fds (s\<lparr>os_data := d\<rparr>) = free_fds s"
  by (simp_all add: free_fds_def)

lemma free_fds_set_fd [simp]:
  "fd_of s n \<noteq> None \<Longrightarrow> free_fds (set_fd n (Some d) s) = free_fds s"
  by (rule free_fds_cong) (auto simp: fd_of_def split: if_splits)

lemma free_fds_take:
  assumes "free_fds s = n # fs" and "os_fd s' = (os_fd s)(n \<mapsto> d)" and "os_nofile s' = os_nofile s"
  shows "free_fds s' = fs"
proof -
  have "free_fds s' = filter (\<lambda>i. i \<noteq> n) (free_fds s)"
    using assms(2,3) by (auto simp: free_fds_def intro!: filter_cong)
  moreover have "distinct (free_fds s)" by (simp add: free_fds_def)
  ultimately show ?thesis using assms(1) by (auto simp: filter_id_conv)
qed

lemma open_file_total:
  assumes "faultless s" and "free_fds s = n # fs" and "os_dir s path = Some ino"
  shows "\<exists>s'. open_file path flags s = (int n, s')"
  using assms
  by (simp add: open_file_def syscall_def faultlessD find_free_fd [of "tick s", simplified] Let_def)

section \<open>Reading\<close>

text \<open>A state that differs by reads from a descriptor only.\<close>

definition only_read :: "int \<Rightarrow> os \<Rightarrow> os \<Rightarrow> bool" where
  "only_read fd s s' \<longleftrightarrow> os_heap s' = os_heap s \<and> os_brk s' = os_brk s \<and> os_sched s' = os_sched s \<and>
     (\<exists>d. os_fd s' = (os_fd s)(nat fd := d))"

lemma only_read_refl [simp]: "only_read fd s s"
  by (auto simp: only_read_def intro: fun_upd_triv [symmetric])

lemma only_read_trans: "only_read fd s s1 \<Longrightarrow> only_read fd s1 s2 \<Longrightarrow> only_read fd s s2"
  by (auto simp: only_read_def)

lemma upd_same: "\<exists>d. f = f(x := d)"
  by (metis fun_upd_triv)

lemma read_fd_cases:
  assumes "read_fd fd n s = ((r, bs), s1)"
  obtains (bad) "r = -1" "bs = []" "only_read fd s s1" "os_fd s1 = os_fd s" "os_data s1 = os_data s"
  | (good) ino pos wr ap m where "fd_of s fd = Some (Reg ino pos True wr ap)" "bs = take m (drop pos (os_data s ino))" "r = int (length bs)"
    "s1 = set_fd fd (Some (Reg ino (pos + length bs) True wr ap)) (tick s)"
proof (cases "\<exists>k. os_sched s (os_tick s) = Fail k")
  case True
  with assms have "r = -1" "bs = []" "\<exists>e. s1 = errno e (tick s)" by (auto simp: read_fd_def syscall_def)
  then show ?thesis by (intro bad) (auto simp: only_read_def upd_same)
next
  case False
  show ?thesis
  proof (cases "\<exists>ino pos wr ap. fd_of s fd = Some (Reg ino pos True wr ap)")
    case True
    then obtain ino pos wr ap where fd: "fd_of s fd = Some (Reg ino pos True wr ap)" by blast
    from assms False fd show ?thesis
      by (intro good [of ino pos wr ap "case os_sched s (os_tick s) of Short m \<Rightarrow> min m n | _ \<Rightarrow> n"])
        (auto simp: read_fd_def syscall_def fd_of_def min_def Let_def split: outcome.splits if_splits)
  next
    case no: False
    have "fd_of (tick s) fd = fd_of s fd" by (simp add: fd_of_def)
    with assms False no have "((r, bs), s1) = ((-1, []), errno EBADF (tick s))"
      by (simp add: read_fd_def syscall_def split: outcome.splits option.splits ofd.splits bool.splits) blast+
    then show ?thesis by (intro bad) (auto simp: only_read_def upd_same)
  qed
qed

end
