(* ===== verification/Pcap.thy ===== *)
theory Pcap
  imports Posix
begin

text \<open>
  The PCAP file layer, \<^verbatim>\<open>src/libdabba/pcap.c\<close> and \<^verbatim>\<open>src/libdabba/include/libdabba/pcap.h\<close>:
  file header, packet records, and the operations that create, open, write, read, rewind, close
  and destroy a capture file. An operation guarded by an \<^verbatim>\<open>assert\<close> on its integer arguments is a
  partial function: \<open>None\<close> is the aborted process. Pointers passed to these functions are
  the byte lists they designate. A fault schedule decides which system calls fail.
\<close>

section \<open>Data\<close>

definition TCPDUMP_MAGIC :: nat where "TCPDUMP_MAGIC = 0xa1b2c3d4"
definition PCAP_VERSION_MAJOR :: nat where "PCAP_VERSION_MAJOR = 2"
definition PCAP_VERSION_MINOR :: nat where "PCAP_VERSION_MINOR = 4"
definition PCAP_DEFAULT_SNAPSHOT_LEN :: int where "PCAP_DEFAULT_SNAPSHOT_LEN = 65535"

lemmas pcap_consts = TCPDUMP_MAGIC_def PCAP_VERSION_MAJOR_def PCAP_VERSION_MINOR_def
  PCAP_DEFAULT_SNAPSHOT_LEN_def

definition LINKTYPE_NULL :: int where "LINKTYPE_NULL = 0"
definition LINKTYPE_EN10MB :: int where "LINKTYPE_EN10MB = 1"

definition ARPHRD_ETHER :: int where "ARPHRD_ETHER = 1"
definition ARPHRD_LOOPBACK :: int where "ARPHRD_LOOPBACK = 772"

record pcap_file_header =
  magic :: u32
  version_major :: u16
  version_minor :: u16
  thiszone :: u32
  sigfigs :: u32
  snaplen :: u32
  linktype :: u32

record pcap_timeval =
  tv_sec :: u32
  tv_usec :: u32

record pcap_sf_pkthdr =
  ts :: pcap_timeval
  caplen :: u32
  len :: u32

text \<open>
  The structures as they lie in memory and on disk, in the byte order of the host: 24 and 16
  bytes, without padding. The signed fields are kept as their 32-bit patterns.
\<close>

definition file_header_bytes :: "endian \<Rightarrow> pcap_file_header \<Rightarrow> byte list" where
  "file_header_bytes e h =
     enc e 4 (unat (magic h)) @ enc e 2 (unat (version_major h)) @ enc e 2 (unat (version_minor h)) @
     enc e 4 (unat (thiszone h)) @ enc e 4 (unat (sigfigs h)) @ enc e 4 (unat (snaplen h)) @
     enc e 4 (unat (linktype h))"

definition file_header_of :: "endian \<Rightarrow> byte list \<Rightarrow> pcap_file_header" where
  "file_header_of e bs =
     \<lparr>magic = of_nat (dec e (take 4 bs)),
      version_major = of_nat (dec e (take 2 (drop 4 bs))),
      version_minor = of_nat (dec e (take 2 (drop 6 bs))),
      thiszone = of_nat (dec e (take 4 (drop 8 bs))),
      sigfigs = of_nat (dec e (take 4 (drop 12 bs))),
      snaplen = of_nat (dec e (take 4 (drop 16 bs))),
      linktype = of_nat (dec e (take 4 (drop 20 bs)))\<rparr>"

definition pkthdr_bytes :: "endian \<Rightarrow> pcap_sf_pkthdr \<Rightarrow> byte list" where
  "pkthdr_bytes e h =
     enc e 4 (unat (tv_sec (ts h))) @ enc e 4 (unat (tv_usec (ts h))) @
     enc e 4 (unat (caplen h)) @ enc e 4 (unat (len h))"

definition pkthdr_of :: "endian \<Rightarrow> byte list \<Rightarrow> pcap_sf_pkthdr" where
  "pkthdr_of e bs =
     \<lparr>ts = \<lparr>tv_sec = of_nat (dec e (take 4 bs)), tv_usec = of_nat (dec e (take 4 (drop 4 bs)))\<rparr>,
      caplen = of_nat (dec e (take 4 (drop 8 bs))),
      len = of_nat (dec e (take 4 (drop 12 bs)))\<rparr>"

definition bswap_32 :: "u32 \<Rightarrow> u32" where
  "bswap_32 w = of_nat (bswap 4 (unat w))"

definition bswap_16 :: "u16 \<Rightarrow> u16" where
  "bswap_16 w = of_nat (bswap 2 (unat w))"

section \<open>Operations\<close>

definition pcap_file_header_write :: "int \<Rightarrow> int \<Rightarrow> int \<Rightarrow> int \<Rightarrow> os \<Rightarrow> (int \<times> os) option" where
  "pcap_file_header_write fd lt zone snap s =
     (if \<not> fd > 0 then None else
      let hdr = \<lparr>magic = of_nat TCPDUMP_MAGIC, version_major = of_nat PCAP_VERSION_MAJOR,
                 version_minor = of_nat PCAP_VERSION_MINOR, thiszone = of_int zone,
                 sigfigs = 0, snaplen = of_int snap, linktype = of_int lt\<rparr>;
          (n, s1) = write_fd fd (file_header_bytes (os_endian s) hdr) s
      in if n \<noteq> 24 then Some (-1, s1) else Some (0, s1))"

text \<open>The result code, and the link type when it is assigned.\<close>

definition ldab_pcap_link_type_get :: "int \<Rightarrow> int \<times> int option" where
  "ldab_pcap_link_type_get arp_type =
     (if arp_type = ARPHRD_ETHER \<or> arp_type = ARPHRD_LOOPBACK then (0, Some LINKTYPE_EN10MB)
      else (EINVAL, None))"

definition pcap_linktype_is_valid :: "u32 \<Rightarrow> bool" where
  "pcap_linktype_is_valid lt \<longleftrightarrow> lt = of_int LINKTYPE_EN10MB"

definition pcap_is_valid :: "int \<Rightarrow> os \<Rightarrow> int \<times> os" where
  "pcap_is_valid fd s =
     (if fd < 0 then (0, errno EINVAL s) else
      let ((n, bs), s1) = read_fd fd 24 s in
      if n \<noteq> 24 then (0, errno EIO s1) else
      let hdr = file_header_of (os_endian s) bs;
          hdr = (if magic hdr \<noteq> of_nat TCPDUMP_MAGIC
                 then hdr\<lparr>magic := bswap_32 (magic hdr), linktype := bswap_32 (linktype hdr),
                          version_major := bswap_16 (version_major hdr),
                          version_minor := bswap_16 (version_minor hdr)\<rparr>
                 else hdr)
      in if magic hdr \<noteq> of_nat TCPDUMP_MAGIC \<or> version_major hdr \<noteq> of_nat PCAP_VERSION_MAJOR
            \<or> version_minor hdr \<noteq> of_nat PCAP_VERSION_MINOR \<or> \<not> pcap_linktype_is_valid (linktype hdr)
         then (0, errno EINVAL s1) else (1, s1))"

definition ldab_pcap_destroy :: "int \<Rightarrow> string \<Rightarrow> os \<Rightarrow> os option" where
  "ldab_pcap_destroy fd pcap_path s =
     (if \<not> fd > 0 then None else
      let (_, s1) = close_fd fd s; (_, s2) = unlink pcap_path s1 in Some s2)"

definition ldab_pcap_create :: "string \<Rightarrow> int \<Rightarrow> os \<Rightarrow> (int \<times> os) option" where
  "ldab_pcap_create pcap_path lt s =
     (let (fd, s1) = creat pcap_path s in
      if fd < 0 then Some (-1, s1) else
      do {
        (rc, s2) \<leftarrow> pcap_file_header_write fd lt 0 PCAP_DEFAULT_SNAPSHOT_LEN s1;
        if rc \<noteq> 0 then do { s3 \<leftarrow> ldab_pcap_destroy fd pcap_path s2; Some (-1, s3) }
        else Some (fd, s2)
      })"

definition ldab_pcap_close :: "int \<Rightarrow> os \<Rightarrow> int \<times> os" where
  "ldab_pcap_close fd s = close_fd fd s"

definition ldab_pcap_open :: "string \<Rightarrow> u32 \<Rightarrow> os \<Rightarrow> int \<times> os" where
  "ldab_pcap_open pcap_path flags s =
     (let append = (flags AND O_APPEND = O_APPEND);
          flags = (if append then flags AND NOT O_APPEND else flags);
          (fd, s1) = open_file pcap_path flags s
      in if fd < 0 then (-1, s1) else
      let (v, s2) = pcap_is_valid fd s1 in
      if v = 0 then (-1, snd (ldab_pcap_close fd s2)) else
      if append then
        let (r, s3) = lseek_fd fd 0 SEEK_END s2 in
        if r < 0 then (-1, snd (ldab_pcap_close fd s3)) else (fd, s3)
      else (fd, s2))"

text \<open>
  \<open>pkt\<close> holds the bytes readable behind the packet pointer; writing more than there is of them
  is an invalid read (\<open>None\<close>).
\<close>

definition ldab_pcap_write ::
  "int \<Rightarrow> byte list \<Rightarrow> u64 \<Rightarrow> u64 \<Rightarrow> u64 \<Rightarrow> u64 \<Rightarrow> os \<Rightarrow> (int \<times> os) option" where
  "ldab_pcap_write fd pkt pkt_len pkt_snaplen sec usec s =
     (if \<not> fd > 0 \<or> pkt_snaplen = 0 then None else
      let sf_hdr = \<lparr>ts = \<lparr>tv_sec = ucast sec, tv_usec = ucast usec\<rparr>,
                    caplen = ucast pkt_snaplen, len = ucast pkt_len\<rparr>;
          (written, s1) = write_fd fd (pkthdr_bytes (os_endian s) sf_hdr) s
      in if written \<noteq> 16 then Some (-1, s1) else
      if length pkt < unat (caplen sf_hdr) then None else
      let (written, s2) = write_fd fd (take (unat (caplen sf_hdr)) pkt) s1 in
      if written \<noteq> int (unat (caplen sf_hdr)) then Some (-1, s2) else Some (written, s2))"

text \<open>The returned byte list is what was stored in the packet buffer.\<close>

definition ldab_pcap_read :: "int \<Rightarrow> u32 \<Rightarrow> os \<Rightarrow> ((int \<times> byte list) \<times> os) option" where
  "ldab_pcap_read fd pkt_len s =
     (if \<not> fd > 0 \<or> pkt_len = 0 then None else
      let ((n, bs), s1) = read_fd fd 16 s in
      if n \<noteq> 16 then Some ((0, []), s1) else
      let sf_hdr = pkthdr_of (os_endian s) bs in
      Some (read_fd fd (unat (min (caplen sf_hdr) pkt_len)) s1))"

definition ldab_pcap_rewind :: "int \<Rightarrow> os \<Rightarrow> int \<times> os" where
  "ldab_pcap_rewind fd s =
     (let (p, s1) = lseek_fd fd 24 SEEK_SET s in (if p = 0 then 1 else 0, s1))"

section \<open>Encodings\<close>

lemma length_file_header_bytes [simp]: "length (file_header_bytes e h) = 24"
  by (simp add: file_header_bytes_def)

lemma length_pkthdr_bytes [simp]: "length (pkthdr_bytes e h) = 16"
  by (simp add: pkthdr_bytes_def)

lemma unat_of_nat_u32: "n < 4294967296 \<Longrightarrow> unat (of_nat n :: u32) = n"
  by (simp add: unat_of_nat)

lemma file_header_roundtrip: "file_header_of e (file_header_bytes e h) = h"
  by (simp add: file_header_of_def file_header_bytes_def)

lemma pkthdr_roundtrip: "pkthdr_of e (pkthdr_bytes e h) = h"
  by (simp add: pkthdr_of_def pkthdr_bytes_def)

definition pcap_hdr :: "int \<Rightarrow> pcap_file_header" where
  "pcap_hdr lt = \<lparr>magic = of_nat TCPDUMP_MAGIC, version_major = of_nat PCAP_VERSION_MAJOR,
     version_minor = of_nat PCAP_VERSION_MINOR, thiszone = 0, sigfigs = 0,
     snaplen = of_int PCAP_DEFAULT_SNAPSHOT_LEN, linktype = of_int lt\<rparr>"

lemma ldab_pcap_create_ok:
  assumes "ldab_pcap_create path lt s = Some (n, s')" and "0 \<le> n"
  shows "0 < n \<and> os_fd s (nat n) = None \<and>
    (\<exists>ino. os_fd s' = (os_fd s)(nat n \<mapsto> Reg ino 24 False True False) \<and>
       os_dir s' = (os_dir s)(path \<mapsto> ino) \<and> (os_dir s path = Some ino \<or> ino = os_inodes s) \<and>
       os_data s' = (os_data s)(ino := file_header_bytes (os_endian s) (pcap_hdr lt)))"
proof -
  obtain fd s1 where c: "creat path s = (fd, s1)" by force
  have e: "os_endian s1 = os_endian s" using creat_frame(1) [of path s] by (simp add: c)
  from assms c have fd: "fd = n" "0 < n"
    by (auto simp: ldab_pcap_create_def pcap_file_header_write_def ldab_pcap_destroy_def Let_def split_beta
        split: if_splits option.splits bind_splits)
  from assms c fd have w: "write_fd n (file_header_bytes (os_endian s) (pcap_hdr lt)) s1 = (24, s')"
    by (auto simp: ldab_pcap_create_def pcap_file_header_write_def ldab_pcap_destroy_def Let_def split_beta
        pcap_hdr_def e split: if_splits option.splits bind_splits intro: prod_eqI)
  from creat_result [OF c] fd obtain ino where i: "os_fd s (nat n) = None"
    "os_fd s1 = (os_fd s)(nat n \<mapsto> Reg ino 0 False True False)"
    "os_dir s1 = (os_dir s)(path \<mapsto> ino)" "os_data s1 = (os_data s)(ino := [])"
    "os_dir s path = Some ino \<or> ino = os_inodes s" by auto
  have d: "os_dir s' = os_dir s1" using write_fd_frame [of n _ s1] w by (metis snd_conv)
  from w i fd have "os_data s' = (os_data s1)(ino := file_header_bytes (os_endian s) (pcap_hdr lt))"
    "os_fd s' = (os_fd s1)(nat n \<mapsto> Reg ino 24 False True False)"
    using write_fd_full [of n "file_header_bytes (os_endian s) (pcap_hdr lt)" s1 s' ino 0 False]
    by (auto simp: fd_of_def write_at_end)
  with i d fd show ?thesis by auto
qed

lemma bswap_magic: "bswap_32 (of_nat TCPDUMP_MAGIC) \<noteq> of_nat TCPDUMP_MAGIC"
  by (simp add: bswap_32_def bswap_def TCPDUMP_MAGIC_def)

lemma file_header_of_bytes: "file_header_of e (file_header_bytes e' h) = (if e = e' then h else
  \<lparr> magic = bswap_32 (magic h), version_major = bswap_16 (version_major h),
    version_minor = bswap_16 (version_minor h), thiszone = bswap_32 (thiszone h),
    sigfigs = bswap_32 (sigfigs h), snaplen = bswap_32 (snaplen h), linktype = bswap_32 (linktype h)\<rparr>)"
  by (auto simp: file_header_of_def file_header_bytes_def dec_other_endian bswap_32_def bswap_16_def
      simp del: le_bytes_numeral)

lemma bswap_32_bswap_32 [simp]: "bswap_32 (bswap_32 w) = w"
proof -
  have "bswap 4 (unat w) < 2 ^ 32" using bswap_bound [of 4 "unat w"] by simp
  then show ?thesis by (simp add: bswap_32_def unat_of_nat bswap_bswap)
qed

lemma bswap_16_bswap_16 [simp]: "bswap_16 (bswap_16 w) = w"
proof -
  have "bswap 2 (unat w) < 2 ^ 16" using bswap_bound [of 2 "unat w"] by simp
  then show ?thesis by (simp add: bswap_16_def unat_of_nat bswap_bswap)
qed

text \<open>What the header check accepts, as a predicate on the first 24 bytes of the file.\<close>

definition header_ok :: "endian \<Rightarrow> byte list \<Rightarrow> bool" where
  "header_ok e bs \<longleftrightarrow> length bs = 24 \<and>
     (let h = file_header_of e bs in
      magic h = of_nat TCPDUMP_MAGIC \<and> version_major h = of_nat PCAP_VERSION_MAJOR \<and>
      version_minor h = of_nat PCAP_VERSION_MINOR \<and> linktype h = of_int LINKTYPE_EN10MB
      \<or> magic h \<noteq> of_nat TCPDUMP_MAGIC \<and>
      bswap_32 (magic h) = of_nat TCPDUMP_MAGIC \<and> bswap_16 (version_major h) = of_nat PCAP_VERSION_MAJOR \<and>
      bswap_16 (version_minor h) = of_nat PCAP_VERSION_MINOR \<and> bswap_32 (linktype h) = of_int LINKTYPE_EN10MB)"

lemma header_ok_file_header_bytes:
  "header_ok e (file_header_bytes e' (pcap_hdr LINKTYPE_EN10MB))"
  by (auto simp: header_ok_def file_header_of_bytes pcap_hdr_def bswap_magic)

lemma pcap_is_valid_iff:
  assumes "read_fd n 24 s = ((r, bs), s1)" and "0 \<le> n"
  shows "pcap_is_valid n s =
    (if r = 24 \<and> header_ok (os_endian s) bs then (1, s1)
     else (0, errno (if r = 24 then EINVAL else EIO) s1))"
  using assms read_fd_length [OF assms(1)]
  by (auto simp: pcap_is_valid_def header_ok_def pcap_linktype_is_valid_def Let_def)

lemma strip_append: "(flags AND NOT O_APPEND) AND O_APPEND \<noteq> O_APPEND"
proof -
  have "(flags AND NOT O_APPEND) AND O_APPEND = 0" by (simp add: and.assoc)
  moreover have "O_APPEND \<noteq> 0" by (simp add: O_APPEND_def)
  ultimately show ?thesis by simp
qed

lemma ldab_pcap_open_fail:
  assumes "ldab_pcap_open path flags s = (n, s')" and "n < 0"
  shows "n = -1 \<and> os_fd s' = os_fd s"
proof -
  obtain fd s1 where o: "open_file path (if flags AND O_APPEND = O_APPEND then flags AND NOT O_APPEND else flags) s = (fd, s1)"
    by force
  show ?thesis
  proof (cases "fd < 0")
    case True
    with assms o open_file_result [OF o] show ?thesis
      by (auto simp: ldab_pcap_open_def)
  next
    case False
    then have f: "0 \<le> fd" by simp
    obtain r bs s2 where r: "read_fd fd 24 s1 = ((r, bs), s2)" by (metis surj_pair)
    obtain q s3 where l: "lseek_fd fd 0 SEEK_END s2 = (q, s3)" by force
    from open_file_ok [OF o f] read_fd_fail_fd [OF r f] lseek_fd_result [OF l f]
    have "(os_fd s2)(nat fd := None) = os_fd s" "(os_fd s3)(nat fd := None) = os_fd s"
      by (auto simp: fun_upd_idem)
    with assms o f r l show ?thesis
      by (auto simp: ldab_pcap_open_def pcap_is_valid_iff [OF r f] ldab_pcap_close_def Let_def split: if_splits)
  qed
qed

lemma ldab_pcap_open_ok:
  assumes "ldab_pcap_open path flags s = (n, s')" and "0 \<le> n"
  shows "os_fd s (nat n) = None \<and> (\<exists>ino. os_dir s' path = Some ino \<and>
     header_ok (os_endian s) (take 24 (os_data s' ino)) \<and>
     os_fd s' = (os_fd s)(nat n \<mapsto>
       Reg ino (if flags AND O_APPEND = O_APPEND then length (os_data s' ino) else 24)
         True (flags AND 3 = 1 \<or> flags AND 3 = 2) False))"
proof -
  let ?fl = "if flags AND O_APPEND = O_APPEND then flags AND NOT O_APPEND else flags"
  obtain fd s1 where o: "open_file path ?fl s = (fd, s1)"
    by force
  with assms have f: "0 \<le> fd" by (auto simp: ldab_pcap_open_def Let_def split: if_splits)
  obtain r bs s2 where r: "read_fd fd 24 s1 = ((r, bs), s2)" by (metis surj_pair)
  obtain q s3 where l: "lseek_fd fd 0 SEEK_END s2 = (q, s3)" by force
  have e: "os_endian s1 = os_endian s" using open_file_frame(1) [of path ?fl s] o by simp
  have s': "s' = (if flags AND O_APPEND = O_APPEND then s3 else s2)" and nfd: "n = fd"
    and ok: "r = 24" "header_ok (os_endian s) bs"
    and q: "flags AND O_APPEND = O_APPEND \<Longrightarrow> 0 \<le> q"
    using assms o f r l
    by (auto simp: ldab_pcap_open_def pcap_is_valid_iff [OF r f] Let_def e split: if_splits)
  have dd: "os_data s3 = os_data s2" "os_data s2 = os_data s1" "os_dir s3 = os_dir s2" "os_dir s2 = os_dir s1"
    using lseek_fd_frame [of fd 0 SEEK_END s2] read_fd_frame [of fd 24 s1] l r by simp_all
  have acc: "?fl AND 3 = flags AND 3" by (auto simp: O_APPEND_def and.assoc)
  have ap: "(?fl AND O_APPEND = O_APPEND) = False" by (simp add: strip_append)
  from open_file_ok [OF o f] obtain ino where i: "os_fd s (nat n) = None" "os_dir s1 path = Some ino"
     "os_fd s1 = (os_fd s)(nat n \<mapsto> Reg ino 0 (flags AND 3 = 0 \<or> flags AND 3 = 2) (flags AND 3 = 1 \<or> flags AND 3 = 2) False)"
    unfolding acc ap by (auto simp: nfd)
  have lb: "length bs = 24" using ok read_fd_length [OF r] by simp
  from read_fd_result [OF r] f ok i nfd lb have
    "bs = take 24 (os_data s1 ino)" "os_fd s2 = (os_fd s)(nat n \<mapsto> Reg ino 24 True (flags AND 3 = 1 \<or> flags AND 3 = 2) False)"
    by (auto simp: fd_of_def)
  moreover from lseek_fd_result [OF l f] q this(2) dd f nfd have
    "flags AND O_APPEND = O_APPEND \<Longrightarrow> os_fd s3 = (os_fd s)(nat n \<mapsto> Reg ino (length (os_data s1 ino)) True (flags AND 3 = 1 \<or> flags AND 3 = 2) False)"
    by (auto simp: fd_of_def)
  ultimately show ?thesis using i ok dd by (auto simp: s')
qed

text \<open>A packet as its capturer hands it over: time stamp, length on the wire, captured bytes.\<close>

record packet =
  p_sec :: u64
  p_usec :: u64
  p_len :: u64
  p_data :: "byte list"

definition sf_hdr_of :: "packet \<Rightarrow> pcap_sf_pkthdr" where
  "sf_hdr_of p = \<lparr>ts = \<lparr>tv_sec = ucast (p_sec p), tv_usec = ucast (p_usec p)\<rparr>,
     caplen = of_nat (length (p_data p)), len = ucast (p_len p)\<rparr>"

text \<open>The abstract view of a capture file: its header, then one record per packet.\<close>

definition record_bytes :: "endian \<Rightarrow> packet \<Rightarrow> byte list" where
  "record_bytes e p = pkthdr_bytes e (sf_hdr_of p) @ p_data p"

definition pcap_image :: "endian \<Rightarrow> packet list \<Rightarrow> byte list" where
  "pcap_image e ps = file_header_bytes e (pcap_hdr LINKTYPE_EN10MB) @ concat (map (record_bytes e) ps)"

definition storable :: "packet \<Rightarrow> bool" where
  "storable p \<longleftrightarrow> 0 < length (p_data p) \<and> length (p_data p) < 2 ^ 32"

text \<open>A packet stored by one call of the writer, a sequence of calls, and the reading loop.\<close>

definition pcap_put :: "int \<Rightarrow> packet \<Rightarrow> os \<Rightarrow> (int \<times> os) option" where
  "pcap_put fd p s =
     ldab_pcap_write fd (p_data p) (p_len p) (of_nat (length (p_data p))) (p_sec p) (p_usec p) s"

fun pcap_put_all :: "int \<Rightarrow> packet list \<Rightarrow> os \<Rightarrow> (int list \<times> os) option" where
  "pcap_put_all fd [] s = Some ([], s)"
| "pcap_put_all fd (p # ps) s =
     do { (n, s1) \<leftarrow> pcap_put fd p s; (ns, s2) \<leftarrow> pcap_put_all fd ps s1; Some (n # ns, s2) }"

fun pcap_get_n :: "int \<Rightarrow> u32 \<Rightarrow> nat \<Rightarrow> os \<Rightarrow> ((int \<times> byte list) list \<times> os) option" where
  "pcap_get_n fd m 0 s = Some ([], s)"
| "pcap_get_n fd m (Suc i) s =
     do { (x, s1) \<leftarrow> ldab_pcap_read fd m s; (xs, s2) \<leftarrow> pcap_get_n fd m i s1; Some (x # xs, s2) }"

lemma length_record_bytes [simp]: "length (record_bytes e p) = 16 + length (p_data p)"
  by (simp add: record_bytes_def)

lemma caplen_storable:
  "storable p \<Longrightarrow> unat (caplen (sf_hdr_of p)) = length (p_data p)"
  by (simp add: storable_def sf_hdr_of_def unat_of_nat)

lemma ucast_snaplen: "ucast (of_nat n :: u64) = (of_nat n :: u32)"
  by (simp add: unsigned_of_nat word_of_nat_eq_iff)

lemma snaplen_nonzero: "storable p \<Longrightarrow> (of_nat (length (p_data p)) :: u64) \<noteq> 0"
  by (simp add: storable_def word_of_nat_eq_0_iff dvd_imp_le nat_dvd_not_less)

lemma ldab_pcap_write_take:
  assumes "m \<le> length pkt" and "m < 2 ^ 32"
  shows "ldab_pcap_write fd pkt l (of_nat m) sec usec s = ldab_pcap_write fd (take m pkt) l (of_nat m) sec usec s"
proof -
  have "unat (ucast (of_nat m :: u64) :: u32) = m" using assms(2) by (simp add: ucast_snaplen unat_of_nat)
  then show ?thesis using assms by (simp add: ldab_pcap_write_def Let_def split_beta min_def)
qed

lemma pcap_put_appends:
  assumes ok: "faultless s" and fd: "0 < fd" and pkt: "storable p"
    and fl: "fd_of s fd = Some (Reg ino (length (os_data s ino)) rd True False)"
  shows "\<exists>s'. pcap_put fd p s = Some (int (length (p_data p)), s') \<and>
    os_data s' = (os_data s)(ino := os_data s ino @ record_bytes (os_endian s) p) \<and>
    fd_of s' fd = Some (Reg ino (length (os_data s' ino)) rd True False) \<and>
    os_sched s' = os_sched s \<and> os_endian s' = os_endian s \<and> os_dir s' = os_dir s \<and>
    free_fds s' = free_fds s"
  using assms
  by (simp add: faultlessD pcap_put_def ldab_pcap_write_def snaplen_nonzero ucast_snaplen sf_hdr_of_def [symmetric]
      caplen_storable Let_def write_fd_Succeed write_at_end record_bytes_def)

lemma pcap_read_record:
  assumes ok: "faultless s" and fd: "0 < fd" and pkt: "storable p" and fits: "length (p_data p) \<le> unat m"
    and fl: "fd_of s fd = Some (Reg ino pos True wr ap)"
    and at: "drop pos (os_data s ino) = record_bytes (os_endian s) p @ rest"
  shows "\<exists>s'. ldab_pcap_read fd m s = Some ((int (length (p_data p)), p_data p), s') \<and>
    fd_of s' fd = Some (Reg ino (pos + 16 + length (p_data p)) True wr ap) \<and>
    os_data s' = os_data s \<and> os_sched s' = os_sched s \<and> os_endian s' = os_endian s"
proof -
  have m: "m \<noteq> 0" using fits pkt by (auto simp: storable_def)
  have mn: "unat (min (caplen (sf_hdr_of p)) m) = length (p_data p)"
    using caplen_storable [OF pkt] fits by (auto simp: min_def word_le_nat_alt)
  have hdr: "take 16 (drop pos (os_data s ino)) = pkthdr_bytes (os_endian s) (sf_hdr_of p)"
    by (simp add: at record_bytes_def)
  have pay: "take (length (p_data p)) (drop (pos + 16) (os_data s ino)) = p_data p"
  proof -
    have "drop (pos + 16) (os_data s ino) = drop 16 (drop pos (os_data s ino))" by (simp add: add.commute)
    then show ?thesis by (simp add: at record_bytes_def)
  qed
  show ?thesis
    using ok fd m fl
    by (simp add: faultlessD ldab_pcap_read_def read_fd_Succeed hdr pkthdr_roundtrip mn pay del: take_drop drop_drop)
qed

lemma pcap_read_eof:
  assumes ok: "faultless s" and fd: "0 < fd" and m: "m \<noteq> 0"
    and fl: "fd_of s fd = Some (Reg ino pos True wr ap)" and at: "length (os_data s ino) \<le> pos"
  shows "\<exists>s'. ldab_pcap_read fd m s = Some ((0, []), s') \<and> fd_of s' fd = fd_of s fd \<and>
    os_data s' = os_data s \<and> os_sched s' = os_sched s \<and> os_endian s' = os_endian s"
  using assms by (simp add: faultlessD ldab_pcap_read_def read_fd_Succeed)

lemma pcap_put_all_appends:
  assumes "faultless s" and "0 < fd" and "\<forall>p \<in> set ps. storable p"
    and "fd_of s fd = Some (Reg ino (length (os_data s ino)) rd True False)"
  shows "\<exists>s'. pcap_put_all fd ps s = Some (map (\<lambda>p. int (length (p_data p))) ps, s') \<and>
    os_data s' = (os_data s)(ino := os_data s ino @ concat (map (record_bytes (os_endian s)) ps)) \<and>
    os_sched s' = os_sched s \<and> os_endian s' = os_endian s \<and> os_dir s' = os_dir s \<and>
    free_fds s' = free_fds s"
  using assms
proof (induction ps arbitrary: s)
  case Nil
  show ?case by (rule exI [of _ s]) simp
next
  case (Cons p ps)
  then obtain s1 where s1: "pcap_put fd p s = Some (int (length (p_data p)), s1)"
    "os_data s1 = (os_data s)(ino := os_data s ino @ record_bytes (os_endian s) p)"
    "fd_of s1 fd = Some (Reg ino (length (os_data s1 ino)) rd True False)"
    "os_sched s1 = os_sched s" "os_endian s1 = os_endian s" "os_dir s1 = os_dir s"
    "free_fds s1 = free_fds s"
    using pcap_put_appends [of s fd p ino rd] by auto
  have "\<exists>s2. pcap_put_all fd ps s1 = Some (map (\<lambda>p. int (length (p_data p))) ps, s2) \<and>
    os_data s2 = (os_data s1)(ino := os_data s1 ino @ concat (map (record_bytes (os_endian s1)) ps)) \<and>
    os_sched s2 = os_sched s1 \<and> os_endian s2 = os_endian s1 \<and> os_dir s2 = os_dir s1 \<and>
    free_fds s2 = free_fds s1"
    by (rule Cons.IH) (use Cons.prems s1 faultless_cong [of s1 s] in auto)
  then show ?case using s1 by auto
qed

lemma pcap_get_all:
  assumes "faultless s" and "0 < fd" and "m \<noteq> 0"
    and "\<forall>p \<in> set ps. storable p \<and> length (p_data p) \<le> unat m"
    and "fd_of s fd = Some (Reg ino pos True wr ap)"
    and "drop pos (os_data s ino) = concat (map (record_bytes (os_endian s)) ps)"
  shows "\<exists>s'. pcap_get_n fd m (Suc (length ps)) s
    = Some (map (\<lambda>p. (int (length (p_data p)), p_data p)) ps @ [(0, [])], s')"
  using assms
proof (induction ps arbitrary: s pos)
  case Nil
  then show ?case using pcap_read_eof [of s fd m ino pos wr ap] by auto
next
  case (Cons p ps)
  from Cons.prems obtain s1 where s1:
    "ldab_pcap_read fd m s = Some ((int (length (p_data p)), p_data p), s1)"
    "fd_of s1 fd = Some (Reg ino (pos + 16 + length (p_data p)) True wr ap)"
    "os_data s1 = os_data s" "os_sched s1 = os_sched s" "os_endian s1 = os_endian s"
    using pcap_read_record [of s fd p m ino pos wr ap "concat (map (record_bytes (os_endian s)) ps)"] by auto
  have "drop (pos + 16 + length (p_data p)) (os_data s ino) = drop (16 + length (p_data p)) (drop pos (os_data s ino))"
    by (simp add: ac_simps)
  also have "\<dots> = concat (map (record_bytes (os_endian s)) ps)"
    using Cons.prems(6) by simp
  finally obtain s' where "pcap_get_n fd m (Suc (length ps)) s1
    = Some (map (\<lambda>p. (int (length (p_data p)), p_data p)) ps @ [(0, [])], s')"
    using Cons.IH [of s1 "pos + 16 + length (p_data p)"] s1 Cons.prems faultless_cong [of s1 s] by auto
  then show ?case
    by (simp add: s1 pcap_get_n.simps(2) [of fd m "Suc (length ps)"] del: pcap_get_n.simps(2))
qed

lemma ldab_pcap_create_frame:
  assumes "ldab_pcap_create path lt s = Some (n, s')"
  shows "os_sched s' = os_sched s" "os_endian s' = os_endian s" "os_heap s' = os_heap s"
    "os_brk s' = os_brk s" "os_maps s' = os_maps s" "os_vm s' = os_vm s" "os_threads s' = os_threads s"
    "os_hist s' = os_hist s" "os_nofile s' = os_nofile s" "os_online s' = os_online s"
    "os_tids s' = os_tids s" "os_ioctl s' = os_ioctl s"
  using assms
  by (auto simp: ldab_pcap_create_def pcap_file_header_write_def ldab_pcap_destroy_def Let_def split_beta
      split: if_splits bind_splits)

lemma pcap_is_valid_frame [simp]:
  "os_sched (snd (pcap_is_valid n s)) = os_sched s" "os_endian (snd (pcap_is_valid n s)) = os_endian s"
  "os_heap (snd (pcap_is_valid n s)) = os_heap s" "os_brk (snd (pcap_is_valid n s)) = os_brk s"
  "os_maps (snd (pcap_is_valid n s)) = os_maps s" "os_vm (snd (pcap_is_valid n s)) = os_vm s"
  "os_threads (snd (pcap_is_valid n s)) = os_threads s" "os_hist (snd (pcap_is_valid n s)) = os_hist s"
  "os_nofile (snd (pcap_is_valid n s)) = os_nofile s" "os_online (snd (pcap_is_valid n s)) = os_online s"
  "os_tids (snd (pcap_is_valid n s)) = os_tids s" "os_ioctl (snd (pcap_is_valid n s)) = os_ioctl s"
  "os_data (snd (pcap_is_valid n s)) = os_data s" "os_dir (snd (pcap_is_valid n s)) = os_dir s"
  by (simp_all add: pcap_is_valid_def Let_def split_beta)

lemma ldab_pcap_open_frame [simp]:
  "os_sched (snd (ldab_pcap_open path flags s)) = os_sched s"
  "os_endian (snd (ldab_pcap_open path flags s)) = os_endian s"
  "os_heap (snd (ldab_pcap_open path flags s)) = os_heap s"
  "os_brk (snd (ldab_pcap_open path flags s)) = os_brk s"
  "os_maps (snd (ldab_pcap_open path flags s)) = os_maps s"
  "os_vm (snd (ldab_pcap_open path flags s)) = os_vm s"
  "os_threads (snd (ldab_pcap_open path flags s)) = os_threads s"
  "os_hist (snd (ldab_pcap_open path flags s)) = os_hist s"
  "os_nofile (snd (ldab_pcap_open path flags s)) = os_nofile s"
  "os_online (snd (ldab_pcap_open path flags s)) = os_online s"
  "os_tids (snd (ldab_pcap_open path flags s)) = os_tids s"
  "os_ioctl (snd (ldab_pcap_open path flags s)) = os_ioctl s"
  by (simp_all add: ldab_pcap_open_def ldab_pcap_close_def Let_def split_beta)

lemma ldab_pcap_open_rdonly_data:
  "os_data (snd (ldab_pcap_open path O_RDONLY s)) = os_data s"
  "os_dir (snd (ldab_pcap_open path O_RDONLY s)) = os_dir s"
  using open_file_rdonly_data [of path s "fst (open_file path O_RDONLY s)" "snd (open_file path O_RDONLY s)"]
  by (simp_all add: ldab_pcap_open_def ldab_pcap_close_def Let_def split_beta open_flag_defs)

lemma ldab_pcap_create_fail:
  assumes cr: "ldab_pcap_create path lt s = Some (n, s')" and n: "n < 0"
  shows "n = -1 \<and> os_fd s' = os_fd s \<and> (\<forall>p. p \<noteq> path \<longrightarrow> os_dir s' p = os_dir s p)"
proof -
  obtain fd s1 where c: "creat path s = (fd, s1)" by force
  show ?thesis
  proof (cases "fd < 0")
    case True
    with cr c creat_result [OF c] show ?thesis by (auto simp: ldab_pcap_create_def)
  next
    case False
    then have f: "0 \<le> fd" by simp
    let ?w = "\<lambda>s. snd (write_fd fd (file_header_bytes (os_endian s) (pcap_hdr lt)) s)"
    from cr c f n have s': "n = -1" "s' = snd (unlink path (snd (close_fd fd (?w s1))))"
      by (auto simp: ldab_pcap_create_def pcap_file_header_write_def ldab_pcap_destroy_def Let_def split_beta pcap_hdr_def
        split: if_splits bind_splits)
    have w: "\<exists>d. os_fd (?w s1) = (os_fd s1)(nat fd := d)" using write_fd_fd [of fd] f by blast
    from creat_result [OF c] f w have "(os_fd (?w s1))(nat fd := None) = os_fd s" by (auto simp: fun_upd_idem)
    moreover have "p \<noteq> path \<Longrightarrow> os_dir s' p = os_dir s p" for p
      using creat_result [OF c] f unlink_other [of p path] by (auto simp: s')
    ultimately show ?thesis using f by (simp add: s')
  qed
qed

lemma ldab_pcap_create_total:
  assumes ok: "faultless s" and fr: "free_fds s = n # fs" and n: "0 < n"
  shows "\<exists>s'. ldab_pcap_create path lt s = Some (int n, s') \<and> free_fds s' = fs"
proof -
  obtain fd s1 where c: "creat path s = (fd, s1)" by force
  have fd: "fd = int n"
    using c ok fr by (auto simp: creat_def open_file_def syscall_def faultlessD find_free_fd [of "tick s", simplified]
        Let_def open_flag_defs split: option.splits)
  have fs: "free_fds s1 = fs" 
    using creat_result [OF c] fd free_fds_take [OF fr] creat_frame(3) [of path s] c by auto
  obtain ino where f: "fd_of s1 fd = Some (Reg ino 0 False True False)"
    using creat_result [OF c] fd by (auto simp: fd_of_def)
  have ok1: "faultless s1" using ok creat_frame(2) [of path s] c by (simp add: faultless_def)
  show ?thesis
    using c fd f ok1 n fs
    by (simp add: ldab_pcap_create_def pcap_file_header_write_def Let_def
        write_fd_Succeed [OF faultlessD [OF ok1] f [unfolded fd]])
qed

lemma ldab_pcap_open_rdonly_total:
  assumes ok: "faultless s" and fr: "free_fds s = n # fs" and d: "os_dir s path = Some ino"
    and h: "header_ok (os_endian s) (take 24 (os_data s ino))"
  shows "\<exists>s'. ldab_pcap_open path O_RDONLY s = (int n, s')"
proof -
  obtain s1 where o: "open_file path O_RDONLY s = (int n, s1)" using open_file_total [OF ok fr d] by auto
  note fr1 = open_file_frame [of path O_RDONLY s, unfolded o snd_conv] open_file_rdonly_data [OF o]
  from open_file_ok [OF o] fr1 d have f: "fd_of s1 (int n) = Some (Reg ino 0 True False False)"
    by (auto simp: fd_of_def open_flag_defs)
  have ok1: "faultless s1" using ok fr1 by (simp add: faultless_def)
  have len: "length (take 24 (os_data s ino)) = 24" using h unfolding header_ok_def by blast
  obtain s3 where r: "read_fd (int n) 24 s1 = ((24, take 24 (os_data s ino)), s3)"
    using fr1 len by (auto simp: read_fd_Succeed [OF faultlessD [OF ok1] f])
  then have "pcap_is_valid (int n) s1 = (1, s3)"
    using pcap_is_valid_iff [OF r] h fr1 by simp
  with o show ?thesis by (simp add: ldab_pcap_open_def Let_def open_flag_defs)
qed

text \<open>Opening for appending: the file is checked, and neither it nor its name changes.\<close>

lemma ldab_pcap_open_append_total:
  assumes ok: "faultless s" and fr: "free_fds s = n # fs" and d: "os_dir s path = Some ino"
    and h: "header_ok (os_endian s) (take 24 (os_data s ino))"
  shows "\<exists>s'. ldab_pcap_open path (O_RDWR OR O_APPEND) s = (int n, s') \<and> os_data s' = os_data s \<and> os_dir s' = os_dir s"
proof -
  let ?fl = "O_RDWR OR O_APPEND"
  have fl: "?fl AND O_APPEND = O_APPEND" "?fl AND NOT O_APPEND = O_RDWR" by (simp_all add: open_flag_defs)
  from open_file_total [OF ok fr d] obtain s1 where o: "open_file path O_RDWR s = (int n, s1)" by blast
  have d1: "os_data s1 = os_data s" "os_dir s1 = os_dir s"
    using o by (auto simp: open_file_def syscall_def Let_def open_flag_defs split: outcome.splits option.splits)
  note f1 = open_file_frame [of path O_RDWR s, unfolded o snd_conv]
  from open_file_ok [OF o] d1 d have fd1: "fd_of s1 (int n) = Some (Reg ino 0 True True False)" by (auto simp: fd_of_def open_flag_defs)
  have len: "24 \<le> length (os_data s ino)" using h by (auto simp: header_ok_def)
  have sc: "os_sched s1 i = Succeed" for i using f1 ok by (simp add: faultlessD)
  from read_fd_Succeed [OF sc fd1, of 24] len d1 obtain s2 where
    rd: "read_fd (int n) 24 s1 = ((24, take 24 (os_data s ino)), s2)" "s2 = set_fd (int n) (Some (Reg ino 24 True True False)) (tick s1)"
    by (simp add: min_def)
  have v: "pcap_is_valid (int n) s1 = (1, s2)" using pcap_is_valid_iff [OF rd(1)] h f1 by simp
  obtain s3 where l: "lseek_fd (int n) 0 SEEK_END s2 = (int (length (os_data s ino)), s3)" "os_data s3 = os_data s" "os_dir s3 = os_dir s"
    using rd(2) sc d1 by (simp add: lseek_fd_def syscall_def fd_of_def Let_def)
  with o v show ?thesis unfolding ldab_pcap_open_def fl by simp
qed

lemma pcap_image_header:
  "header_ok e (take 24 (pcap_image e' ps))"
  using header_ok_file_header_bytes [of e e'] by (simp add: pcap_image_def)

lemma ldab_pcap_rewind_faultless:
  assumes "faultless s" and "fd_of s fd = Some (Reg ino pos rd wr ap)"
  shows "snd (ldab_pcap_rewind fd s) = set_fd fd (Some (Reg ino 24 rd wr ap)) (tick s)"
  using assms by (simp add: ldab_pcap_rewind_def lseek_fd_def syscall_def faultlessD)

lemma pcap_image_drop:
  "drop (24 + length (concat (map (record_bytes e) (take j ps)))) (pcap_image e ps) = concat (map (record_bytes e) (drop j ps))"
proof -
  have "concat (map (record_bytes e) ps)
    = concat (map (record_bytes e) (take j ps)) @ concat (map (record_bytes e) (drop j ps))"
    by (metis append_take_drop_id concat_append map_append)
  then show ?thesis by (simp add: pcap_image_def)
qed

section \<open>Properties\<close>

text \<open>
  C5: a capture file gives back what was put into it. In a run without system call failures,
  with two free descriptors (the lower one not 0), creating a file, writing any sequence of
  storable packets, opening the file again and reading it with a large enough buffer succeeds
  at every step; the reads return exactly the packet bytes in order, then 0 at the end.
\<close>

theorem pcap_roundtrip:
  assumes ok: "faultless s" and free: "free_fds s = n # n' # fs" and n: "0 < n"
    and m: "m \<noteq> 0" and ps: "\<forall>p \<in> set ps. storable p \<and> length (p_data p) \<le> unat m"
  shows "\<exists>s1 s2 s3 s4. ldab_pcap_create path LINKTYPE_EN10MB s = Some (int n, s1) \<and>
    pcap_put_all (int n) ps s1 = Some (map (\<lambda>p. int (length (p_data p))) ps, s2) \<and>
    ldab_pcap_open path O_RDONLY s2 = (int n', s3) \<and>
    pcap_get_n (int n') m (Suc (length ps)) s3
      = Some (map (\<lambda>p. (int (length (p_data p)), p_data p)) ps @ [(0, [])], s4)"
proof -
  obtain s1 where cr: "ldab_pcap_create path LINKTYPE_EN10MB s = Some (int n, s1)" "free_fds s1 = n' # fs"
    using ldab_pcap_create_total [OF ok free n] by auto
  from ldab_pcap_create_ok [OF cr(1)] obtain ino where ino:
    "fd_of s1 (int n) = Some (Reg ino 24 False True False)" "os_dir s1 path = Some ino"
    "os_data s1 ino = file_header_bytes (os_endian s) (pcap_hdr LINKTYPE_EN10MB)"
    by (auto simp: fd_of_def)
  note fr = ldab_pcap_create_frame [OF cr(1)]
  have "faultless s1" using ok fr by (simp add: faultless_def)
  with ino ps n obtain s2 where s2:
    "pcap_put_all (int n) ps s1 = Some (map (\<lambda>p. int (length (p_data p))) ps, s2)"
    "os_data s2 = (os_data s1)(ino := os_data s1 ino @ concat (map (record_bytes (os_endian s1)) ps))"
    "os_sched s2 = os_sched s1" "os_endian s2 = os_endian s1" "os_dir s2 = os_dir s1" "free_fds s2 = free_fds s1"
    using pcap_put_all_appends [of s1 "int n" ps ino False] by auto
  then have img: "os_data s2 ino = pcap_image (os_endian s2) ps" and ok2: "faultless s2"
    using ino fr ok by (simp_all add: pcap_image_def faultless_def)
  have h: "header_ok (os_endian s2) (take 24 (os_data s2 ino))"
    by (simp add: img pcap_image_header)
  obtain s3 where op: "ldab_pcap_open path O_RDONLY s2 = (int n', s3)"
    using ldab_pcap_open_rdonly_total [OF ok2 _ _ h, of n' fs path] s2(5,6) ino(2) cr(2) by auto
  note fr3 = ldab_pcap_open_rdonly_data [of path s2, unfolded op snd_conv]
    ldab_pcap_open_frame [of path O_RDONLY s2, unfolded op snd_conv]
  from ldab_pcap_open_ok [OF op] fr3 s2 ino have r: "fd_of s3 (int n') = Some (Reg ino 24 True False False)"
    by (auto simp: fd_of_def open_flag_defs)
  have "sorted (free_fds s)" by (simp add: free_fds_def sorted_wrt_filter)
  then have n': "0 < n'" using free n by simp
  have "drop 24 (os_data s3 ino) = concat (map (record_bytes (os_endian s3)) ps)" and "faultless s3"
    using fr3 img ok2 by (simp_all add: pcap_image_def faultless_def)
  then obtain s4 where "pcap_get_n (int n') m (Suc (length ps)) s3
      = Some (map (\<lambda>p. (int (length (p_data p)), p_data p)) ps @ [(0, [])], s4)"
    using pcap_get_all [OF _ _ m ps r] n' by auto
  with cr s2 op show ?thesis by blast
qed

text \<open>Two packets, for the concrete runs below.\<close>

definition two_packets :: "packet list" where
  "two_packets = [\<lparr>p_sec = 1, p_usec = 2, p_len = 3, p_data = [1, 2, 3]\<rparr>,
                  \<lparr>p_sec = 1, p_usec = 5, p_len = 9, p_data = [7]\<rparr>]"

lemma free_fds_boot: "free_fds (boot sc) = [3, 4, 5, 6, 7]"
  by (simp add: free_fds_def boot_def upt_rec)

lemma faultless_boot: "faultless (boot (\<lambda>_. Succeed))"
  by (simp add: faultless_def boot_def)

theorem pcap_roundtrip_witness:
  "\<exists>s1 s2 s3 s4. ldab_pcap_create ''a'' LINKTYPE_EN10MB (boot (\<lambda>_. Succeed)) = Some (3, s1) \<and>
    pcap_put_all 3 two_packets s1 = Some ([3, 1], s2) \<and>
    ldab_pcap_open ''a'' O_RDONLY s2 = (4, s3) \<and>
    pcap_get_n 4 2048 3 s3 = Some ([(3, [1, 2, 3]), (1, [7]), (0, [])], s4)"
proof -
  have "\<forall>p \<in> set two_packets. storable p \<and> length (p_data p) \<le> unat (2048 :: u32)"
    by (simp add: two_packets_def storable_def)
  from pcap_roundtrip [OF faultless_boot free_fds_boot _ _ this, of "''a''"] show ?thesis
    by (simp add: two_packets_def numeral_3_eq_3)
qed

text \<open>
  C13: opening a capture file either fails with \<open>-1\<close> and leaves the descriptor table as it was,
  or returns a descriptor that was free, on a file whose first 24 bytes are a valid header in
  either byte order, positioned after the header, or at the end of the file when \<open>O_APPEND\<close>
  was asked; the descriptor itself is never in append mode.
\<close>

theorem ldab_pcap_open_spec:
  assumes "ldab_pcap_open path flags s = (n, s')"
  shows "n = -1 \<and> os_fd s' = os_fd s \<or>
    0 \<le> n \<and> os_fd s (nat n) = None \<and>
    (\<exists>ino. os_dir s' path = Some ino \<and> header_ok (os_endian s) (take 24 (os_data s' ino)) \<and>
       os_fd s' = (os_fd s)(nat n \<mapsto>
         Reg ino (if flags AND O_APPEND = O_APPEND then length (os_data s' ino) else 24)
           True (flags AND 3 = 1 \<or> flags AND 3 = 2) False))"
proof (cases "n < 0")
  case True
  with assms show ?thesis using ldab_pcap_open_fail by blast
next
  case False
  with ldab_pcap_open_ok [OF assms] show ?thesis by simp
qed

theorem ldab_pcap_open_spec_witness:
  "fst (ldab_pcap_open ''a'' O_RDONLY (boot (\<lambda>_. Succeed))) = -1 \<and>
   os_fd (snd (ldab_pcap_open ''a'' O_RDONLY (boot (\<lambda>_. Succeed)))) = os_fd (boot (\<lambda>_. Succeed))"
proof -
  let ?s = "boot (\<lambda>_. Succeed)"
  have f: "fst (ldab_pcap_open ''a'' O_RDONLY ?s) = -1"
    by (simp add: ldab_pcap_open_def Let_def open_file_def syscall_def boot_def tick_def errno_def
        open_flag_defs upt_rec)
  then obtain s' where o: "ldab_pcap_open ''a'' O_RDONLY ?s = (-1, s')" by (metis prod.collapse)
  from ldab_pcap_open_spec [OF o] show ?thesis by (simp add: o)
qed

text \<open>
  C15: a capture file created on a host of one byte order is accepted on a host of any byte
  order: the header check recognises the swapped magic number and swaps the other fields.
\<close>

theorem ldab_pcap_open_cross_endian:
  assumes ok: "faultless s"
    and cr: "ldab_pcap_create path LINKTYPE_EN10MB s = Some (fd, s1)" and fd: "0 \<le> fd"
    and room: "fst (open_file path O_RDONLY s1) \<ge> 0"
  shows "fst (ldab_pcap_open path O_RDONLY (s1\<lparr>os_endian := e\<rparr>)) \<ge> 0"
proof -
  let ?s = "s1\<lparr>os_endian := e\<rparr>"
  from ldab_pcap_create_ok [OF cr fd] obtain ino where ino:
    "os_dir s1 path = Some ino"
    "os_data s1 ino = file_header_bytes (os_endian s) (pcap_hdr LINKTYPE_EN10MB)"
    by auto
  have sc: "os_sched s1 = os_sched s" using ldab_pcap_create_frame [OF cr] by simp
  obtain n s2 where o: "open_file path O_RDONLY ?s = (n, s2)" by force
  have n: "0 \<le> n" using room o ok sc
    by (auto simp: open_file_def syscall_def Let_def faultlessD tick_def errno_def open_flag_defs split: option.splits if_splits)
  have fr: "os_sched s2 = os_sched s" "os_data s2 = os_data s1" "os_dir s2 = os_dir s1" "os_endian s2 = e"
    using open_file_frame [of path O_RDONLY ?s] open_file_rdonly_data [OF o] o sc by simp_all
  from open_file_ok [OF o n] fr ino n have f: "fd_of s2 n = Some (Reg ino 0 True False False)"
    by (auto simp: fd_of_def open_flag_defs)
  have "faultless s2" using ok fr by (simp add: faultless_def)
  then obtain s3 where r: "read_fd n 24 s2 = ((24, os_data s2 ino), s3)"
    using fr ino by (auto simp: read_fd_Succeed [OF faultlessD f])
  have "pcap_is_valid n s2 = (1, s3)"
    using pcap_is_valid_iff [OF r n] header_ok_file_header_bytes fr ino by simp
  with o n show ?thesis by (simp add: ldab_pcap_open_def Let_def open_flag_defs)
qed


theorem ldab_pcap_open_cross_endian_witness:
  "\<exists>s1. ldab_pcap_create ''a'' LINKTYPE_EN10MB (boot (\<lambda>_. Succeed)) = Some (3, s1) \<and>
     fst (ldab_pcap_open ''a'' O_RDONLY (s1\<lparr>os_endian := Big\<rparr>)) \<ge> 0"
proof -
  let ?s = "boot (\<lambda>_. Succeed)"
  obtain s1 where cr: "ldab_pcap_create ''a'' LINKTYPE_EN10MB ?s = Some (3, s1)" and free: "free_fds s1 = [4, 5, 6, 7]"
    using ldab_pcap_create_total [OF faultless_boot free_fds_boot, of "''a''" LINKTYPE_EN10MB] by auto
  have ok: "faultless s1" using faultless_boot ldab_pcap_create_frame [OF cr] by (simp add: faultless_def)
  from ldab_pcap_create_ok [OF cr] obtain ino where "os_dir s1 ''a'' = Some ino" by auto
  from open_file_total [OF ok free this, of O_RDONLY] have "fst (open_file ''a'' O_RDONLY s1) \<ge> 0" by auto
  from ldab_pcap_open_cross_endian [OF faultless_boot cr _ this] cr show ?thesis by auto
qed

text \<open>
  C14: creating a capture file is all or nothing as far as descriptors go. If the call returns,
  it returns \<open>-1\<close> with the descriptor table unchanged and no other path touched, or a positive
  descriptor that was free, open for writing on the named file, whose contents are exactly the
  24 byte header and whose offset is at their end.
\<close>

theorem ldab_pcap_create_spec:
  assumes "ldab_pcap_create path lt s = Some (n, s')"
  shows "n = -1 \<and> os_fd s' = os_fd s \<and> (\<forall>p. p \<noteq> path \<longrightarrow> os_dir s' p = os_dir s p) \<or>
    0 < n \<and> os_fd s (nat n) = None \<and>
    (\<exists>ino. os_fd s' = (os_fd s)(nat n \<mapsto> Reg ino 24 False True False) \<and>
       os_dir s' = (os_dir s)(path \<mapsto> ino) \<and>
       os_data s' = (os_data s)(ino := file_header_bytes (os_endian s) (pcap_hdr lt)))"
proof (cases "n < 0")
  case True
  with ldab_pcap_create_fail [OF assms] show ?thesis by simp
next
  case False
  with ldab_pcap_create_ok [OF assms] show ?thesis by auto
qed

theorem ldab_pcap_create_spec_witness:
  "\<exists>s'. ldab_pcap_create ''a'' LINKTYPE_EN10MB (boot (\<lambda>_. Succeed)) = Some (3, s') \<and>
     (\<exists>ino. os_dir s' = [''a'' \<mapsto> ino] \<and> os_data s' ino = file_header_bytes Little (pcap_hdr LINKTYPE_EN10MB))"
proof -
  let ?s = "boot (\<lambda>_. Succeed)"
  obtain s' where cr: "ldab_pcap_create ''a'' LINKTYPE_EN10MB ?s = Some (3, s')"
    using ldab_pcap_create_total [OF faultless_boot free_fds_boot, of "''a''" LINKTYPE_EN10MB] by auto
  from ldab_pcap_create_spec [OF cr] show ?thesis by (auto simp: cr)
qed

text \<open>
  A packet longer than the caller's buffer is cut, and the file offset is left inside the
  packet, after the bytes that were copied: the rest of the payload is what the next call takes
  for a packet header.
\<close>

theorem ldab_pcap_read_truncates:
  assumes ok: "faultless s" and fd: "0 < fd" and pkt: "storable p" and m: "m \<noteq> 0"
    and long: "unat m < length (p_data p)"
    and fl: "fd_of s fd = Some (Reg ino pos True wr ap)"
    and at: "drop pos (os_data s ino) = record_bytes (os_endian s) p @ rest"
  shows "\<exists>s'. ldab_pcap_read fd m s = Some ((int (unat m), take (unat m) (p_data p)), s') \<and>
    fd_of s' fd = Some (Reg ino (pos + 16 + unat m) True wr ap) \<and> os_data s' = os_data s \<and>
    drop (pos + 16 + unat m) (os_data s' ino) = drop (unat m) (p_data p) @ rest"
proof -
  have mn: "unat (min (caplen (sf_hdr_of p)) m) = unat m"
    using caplen_storable [OF pkt] long by (auto simp: min_def word_le_nat_alt)
  have hdr: "take 16 (drop pos (os_data s ino)) = pkthdr_bytes (os_endian s) (sf_hdr_of p)"
    by (simp add: at record_bytes_def)
  have d: "drop (pos + 16) (os_data s ino) = p_data p @ rest"
    by (simp add: at record_bytes_def add.commute [of pos] flip: drop_drop)
  then have d2: "drop (pos + 16 + unat m) (os_data s ino) = drop (unat m) (p_data p) @ rest"
    using long by (simp add: add.commute [of _ "unat m"] flip: drop_drop)
  show ?thesis
    using ok fd m fl long
    by (simp add: faultlessD ldab_pcap_read_def read_fd_Succeed hdr pkthdr_roundtrip mn d d2 del: take_drop drop_drop)
qed

theorem ldab_pcap_read_truncates_witness:
  "let p = \<lparr>p_sec = 0, p_usec = 0, p_len = 4, p_data = [1, 2, 3, 4]\<rparr>;
       s = (boot (\<lambda>_. Succeed))\<lparr>os_data := (\<lambda>_. record_bytes Little p), os_fd := [3 \<mapsto> Reg 0 0 True False False]\<rparr>
   in \<exists>s'. ldab_pcap_read 3 2 s = Some ((2, [1, 2]), s') \<and> drop 18 (os_data s' 0) = [3, 4]"
proof -
  let ?p = "\<lparr>p_sec = 0, p_usec = 0, p_len = 4, p_data = [1, 2, 3, 4]\<rparr>"
  let ?s = "(boot (\<lambda>_. Succeed))\<lparr>os_data := (\<lambda>_. record_bytes Little ?p), os_fd := [3 \<mapsto> Reg 0 0 True False False]\<rparr>"
  have "\<exists>s'. ldab_pcap_read 3 2 ?s = Some ((int (unat (2 :: u32)), take (unat (2 :: u32)) (p_data ?p)), s') \<and>
    fd_of s' 3 = Some (Reg 0 (0 + 16 + unat (2 :: u32)) True False False) \<and> os_data s' = os_data ?s \<and>
    drop (0 + 16 + unat (2 :: u32)) (os_data s' 0) = drop (unat (2 :: u32)) (p_data ?p) @ []"
    by (rule ldab_pcap_read_truncates)
      (simp_all add: faultless_def boot_def storable_def fd_of_def)
  then show ?thesis by (simp add: Let_def) blast
qed

text \<open>
  Rewinding a capture file reports success whatever happens: the result is 0 even when the
  seek fails, because the returned offset is compared with 0 and a successful seek gives 24.
  When the seek succeeds the offset is that of the first packet record.
\<close>

theorem ldab_pcap_rewind_spec:
  "fst (ldab_pcap_rewind fd s) = 0 \<and>
   (fst (lseek_fd fd 24 SEEK_SET s) = -1 \<and> os_fd (snd (ldab_pcap_rewind fd s)) = os_fd s \<or>
    (\<exists>ino pos rd wr ap. fd_of s fd = Some (Reg ino pos rd wr ap) \<and>
       fd_of (snd (ldab_pcap_rewind fd s)) fd = Some (Reg ino 24 rd wr ap)))"
  by (auto simp: ldab_pcap_rewind_def lseek_fd_def syscall_def Let_def split_beta fd_of_Some_nonneg
      split: outcome.splits option.splits ofd.splits)

end
