(* ===== verification/Interface.thy ===== *)
theory Interface
  imports Posix
begin

text \<open>
  The network interface library, \<^verbatim>\<open>src/libdabba/interface.c\<close>: every call opens a datagram
  socket, sends one request structure to the kernel and closes the socket. What the kernel
  answers is the parameter \<open>os_ioctl\<close> of the system state, which may depend on all earlier
  requests. An \<^verbatim>\<open>int\<close> that ethtool carries is kept as its 32-bit pattern. A function that
  stores a result behind a pointer returns it beside the result code.
\<close>

section \<open>Data\<close>

definition ANY_INTERFACE :: string where "ANY_INTERFACE = ''any''"
definition IFNAMSIZ :: nat where "IFNAMSIZ = 16"

definition ETHTOOL_GSET :: nat where "ETHTOOL_GSET = 1"
definition ETHTOOL_SSET :: nat where "ETHTOOL_SSET = 2"
definition ETHTOOL_GDRVINFO :: nat where "ETHTOOL_GDRVINFO = 3"
definition ETHTOOL_GLINK :: nat where "ETHTOOL_GLINK = 10"
definition ETHTOOL_GCOALESCE :: nat where "ETHTOOL_GCOALESCE = 14"
definition ETHTOOL_SCOALESCE :: nat where "ETHTOOL_SCOALESCE = 15"
definition ETHTOOL_GPAUSEPARAM :: nat where "ETHTOOL_GPAUSEPARAM = 18"
definition ETHTOOL_SPAUSEPARAM :: nat where "ETHTOOL_SPAUSEPARAM = 19"
definition ETHTOOL_GRXCSUM :: nat where "ETHTOOL_GRXCSUM = 20"
definition ETHTOOL_SRXCSUM :: nat where "ETHTOOL_SRXCSUM = 21"
definition ETHTOOL_GTXCSUM :: nat where "ETHTOOL_GTXCSUM = 22"
definition ETHTOOL_STXCSUM :: nat where "ETHTOOL_STXCSUM = 23"
definition ETHTOOL_GSG :: nat where "ETHTOOL_GSG = 24"
definition ETHTOOL_SSG :: nat where "ETHTOOL_SSG = 25"
definition ETHTOOL_GTSO :: nat where "ETHTOOL_GTSO = 30"
definition ETHTOOL_STSO :: nat where "ETHTOOL_STSO = 31"
definition ETHTOOL_GUFO :: nat where "ETHTOOL_GUFO = 33"
definition ETHTOOL_SUFO :: nat where "ETHTOOL_SUFO = 34"
definition ETHTOOL_GGSO :: nat where "ETHTOOL_GGSO = 35"
definition ETHTOOL_SGSO :: nat where "ETHTOOL_SGSO = 36"
definition ETHTOOL_GFLAGS :: nat where "ETHTOOL_GFLAGS = 37"
definition ETHTOOL_SFLAGS :: nat where "ETHTOOL_SFLAGS = 38"
definition ETHTOOL_GGRO :: nat where "ETHTOOL_GGRO = 43"
definition ETHTOOL_SGRO :: nat where "ETHTOOL_SGRO = 44"

definition ETH_FLAG_LRO :: u32 where "ETH_FLAG_LRO = 0x8000"
definition ETH_FLAG_RXHASH :: u32 where "ETH_FLAG_RXHASH = 0x10000000"

definition empty_ifreq :: ifreq where
  "empty_ifreq = \<lparr>ifr_name = [], ifr_ifindex = 0, ifr_flags = 0, ifr_data = No_Data\<rparr>"

definition empty_drvinfo :: ethtool_drvinfo where
  "empty_drvinfo = \<lparr>di_cmd = 0, di_driver = [], di_version = [], di_fw_version = [], di_bus_info = []\<rparr>"

definition empty_cmd :: ethtool_cmd where
  "empty_cmd = \<lparr>ec_cmd = 0, supported = 0, advertising = 0, speed = 0, duplex = 0, port = 0,
     autoneg = 0, maxtxpkt = 0, maxrxpkt = 0, speed_hi = 0, lp_advertising = 0\<rparr>"

definition empty_pause :: ethtool_pauseparam where
  "empty_pause = \<lparr>pp_cmd = 0, pp_autoneg = 0, rx_pause = 0, tx_pause = 0\<rparr>"

definition empty_coalesce :: ethtool_coalesce where
  "empty_coalesce = \<lparr>co_cmd = 0, rx_coalesce_usecs = 0, rx_max_coalesced_frames = 0,
     rx_coalesce_usecs_irq = 0, rx_max_coalesced_frames_irq = 0, tx_coalesce_usecs = 0,
     tx_max_coalesced_frames = 0, tx_coalesce_usecs_irq = 0, tx_max_coalesced_frames_irq = 0,
     stats_block_coalesce_usecs = 0, use_adaptive_rx_coalesce = 0, use_adaptive_tx_coalesce = 0,
     pkt_rate_low = 0, rx_coalesce_usecs_low = 0, rx_max_coalesced_frames_low = 0,
     tx_coalesce_usecs_low = 0, tx_max_coalesced_frames_low = 0, pkt_rate_high = 0,
     rx_coalesce_usecs_high = 0, rx_max_coalesced_frames_high = 0, tx_coalesce_usecs_high = 0,
     tx_max_coalesced_frames_high = 0, rate_sample_interval = 0\<rparr>"

text \<open>
  The structure behind \<open>ifr_data\<close> after a request; the kernel writes through a pointer of the
  type the command implies, so any other shape means it was left alone.
\<close>

definition value_of :: "u32 \<Rightarrow> ifr_data \<Rightarrow> u32" where
  "value_of v d = (case d of Value _ w \<Rightarrow> w | _ \<Rightarrow> v)"

definition drvinfo_of :: "ethtool_drvinfo \<Rightarrow> ifr_data \<Rightarrow> ethtool_drvinfo" where
  "drvinfo_of v d = (case d of Drvinfo w \<Rightarrow> w | _ \<Rightarrow> v)"

definition cmd_of :: "ethtool_cmd \<Rightarrow> ifr_data \<Rightarrow> ethtool_cmd" where
  "cmd_of v d = (case d of Cmd w \<Rightarrow> w | _ \<Rightarrow> v)"

definition pause_of :: "ethtool_pauseparam \<Rightarrow> ifr_data \<Rightarrow> ethtool_pauseparam" where
  "pause_of v d = (case d of Pause w \<Rightarrow> w | _ \<Rightarrow> v)"

definition coalesce_of :: "ethtool_coalesce \<Rightarrow> ifr_data \<Rightarrow> ethtool_coalesce" where
  "coalesce_of v d = (case d of Coalesce w \<Rightarrow> w | _ \<Rightarrow> v)"

text \<open>\<open>strncpy\<close> into a zeroed name buffer of \<open>IFNAMSIZ\<close> bytes, all but the last.\<close>

definition set_name :: "string \<Rightarrow> ifreq" where
  "set_name dev = empty_ifreq\<lparr>ifr_name := take (IFNAMSIZ - 1) dev\<rparr>"

section \<open>Requests\<close>

definition dev_kernel_request :: "ifreq \<Rightarrow> dev_request \<Rightarrow> os \<Rightarrow> (int \<times> ifreq) \<times> os" where
  "dev_kernel_request ifr request s =
     (let (sock, s1) = socket s in
      if sock < 0 then ((os_errno s1, ifr), s1) else
      let ((rc, ifr), s2) = ioctl_dev sock request ifr s1;
          (_, s3) = close_fd sock s2
      in ((if rc \<noteq> 0 then os_errno s3 else rc, ifr), s3))"

definition dev_ethtool_request :: "string \<Rightarrow> nat \<Rightarrow> u32 \<Rightarrow> os \<Rightarrow> (int \<times> u32) \<times> os" where
  "dev_ethtool_request dev cmd v s =
     (let ifr = (set_name dev)\<lparr>ifr_data := Value cmd v\<rparr>;
          ((rc, ifr), s1) = dev_kernel_request ifr SIOCETHTOOL s
      in ((rc, if rc = 0 then value_of v (ifr_data ifr) else v), s1))"

section \<open>Names, indexes and status flags\<close>

text \<open>The index is \<open>None\<close> when nothing was stored.\<close>

definition ldab_devname_to_ifindex :: "string \<Rightarrow> os \<Rightarrow> (int \<times> int option) \<times> os" where
  "ldab_devname_to_ifindex dev s =
     (if dev = ANY_INTERFACE then ((0, Some 0), s) else
      let ((rc, ifr), s1) = dev_kernel_request (set_name dev) SIOCGIFINDEX s
      in ((rc, if rc = 0 then Some (ifr_ifindex ifr) else None), s1))"

text \<open>
  The name is the text of the buffer up to its end. The code copies at most \<open>dev_len - 1\<close> characters and leaves the last byte of the buffer as it
  was; the callers pass buffers of zeroes, so the text ends there.
\<close>

definition ldab_ifindex_to_devname :: "int \<Rightarrow> nat \<Rightarrow> os \<Rightarrow> ((int \<times> string option) \<times> os) option" where
  "ldab_ifindex_to_devname index dev_len s =
     (if \<not> index \<ge> 0 \<or> \<not> dev_len \<ge> IFNAMSIZ then None else
      if index = 0 then Some ((0, Some (take (dev_len - 1) ANY_INTERFACE)), s) else
      let ((rc, ifr), s1) = dev_kernel_request (empty_ifreq\<lparr>ifr_ifindex := index\<rparr>) SIOCGIFNAME s
      in Some ((rc, if rc = 0 then Some (take (dev_len - 1) (ifr_name ifr)) else None), s1))"

definition ldab_dev_flags_get :: "string \<Rightarrow> os \<Rightarrow> (int \<times> u16 option) \<times> os" where
  "ldab_dev_flags_get dev s =
     (let ((rc, ifr), s1) = dev_kernel_request (set_name dev) SIOCGIFFLAGS s
      in ((rc, if rc = 0 then Some (ifr_flags ifr) else None), s1))"

definition ldab_dev_flags_set :: "string \<Rightarrow> u16 \<Rightarrow> os \<Rightarrow> int \<times> os" where
  "ldab_dev_flags_set dev flags s =
     (let ((rc, _), s1) = dev_kernel_request ((set_name dev)\<lparr>ifr_flags := flags\<rparr>) SIOCSIFFLAGS s
      in (rc, s1))"

section \<open>Ethtool structures\<close>

definition ldab_dev_driver_get :: "string \<Rightarrow> os \<Rightarrow> (int \<times> ethtool_drvinfo) \<times> os" where
  "ldab_dev_driver_get dev s =
     (let driver = empty_drvinfo\<lparr>di_cmd := ETHTOOL_GDRVINFO\<rparr>;
          ((rc, ifr), s1) = dev_kernel_request ((set_name dev)\<lparr>ifr_data := Drvinfo driver\<rparr>) SIOCETHTOOL s
      in ((rc, drvinfo_of driver (ifr_data ifr)), s1))"

definition ldab_dev_settings_get :: "string \<Rightarrow> os \<Rightarrow> (int \<times> ethtool_cmd) \<times> os" where
  "ldab_dev_settings_get dev s =
     (let settings = empty_cmd\<lparr>ec_cmd := ETHTOOL_GSET\<rparr>;
          ((rc, ifr), s1) = dev_kernel_request ((set_name dev)\<lparr>ifr_data := Cmd settings\<rparr>) SIOCETHTOOL s
      in ((rc, cmd_of settings (ifr_data ifr)), s1))"

definition ldab_dev_settings_set :: "string \<Rightarrow> ethtool_cmd \<Rightarrow> os \<Rightarrow> (int \<times> ethtool_cmd) \<times> os" where
  "ldab_dev_settings_set dev settings s =
     (let settings = settings\<lparr>ec_cmd := ETHTOOL_SSET\<rparr>;
          ((rc, ifr), s1) = dev_kernel_request ((set_name dev)\<lparr>ifr_data := Cmd settings\<rparr>) SIOCETHTOOL s
      in ((rc, cmd_of settings (ifr_data ifr)), s1))"

definition ldab_dev_pause_get :: "string \<Rightarrow> os \<Rightarrow> (int \<times> ethtool_pauseparam) \<times> os" where
  "ldab_dev_pause_get dev s =
     (let pause = empty_pause\<lparr>pp_cmd := ETHTOOL_GPAUSEPARAM\<rparr>;
          ((rc, ifr), s1) = dev_kernel_request ((set_name dev)\<lparr>ifr_data := Pause pause\<rparr>) SIOCETHTOOL s
      in ((rc, pause_of pause (ifr_data ifr)), s1))"

definition ldab_dev_pause_set :: "string \<Rightarrow> ethtool_pauseparam \<Rightarrow> os \<Rightarrow> (int \<times> ethtool_pauseparam) \<times> os" where
  "ldab_dev_pause_set dev pause s =
     (let pause = pause\<lparr>pp_cmd := ETHTOOL_SPAUSEPARAM\<rparr>;
          ((rc, ifr), s1) = dev_kernel_request ((set_name dev)\<lparr>ifr_data := Pause pause\<rparr>) SIOCETHTOOL s
      in ((rc, pause_of pause (ifr_data ifr)), s1))"

definition ldab_dev_coalesce_get :: "string \<Rightarrow> os \<Rightarrow> (int \<times> ethtool_coalesce) \<times> os" where
  "ldab_dev_coalesce_get dev s =
     (let coalesce = empty_coalesce\<lparr>co_cmd := ETHTOOL_GCOALESCE\<rparr>;
          ((rc, ifr), s1) = dev_kernel_request ((set_name dev)\<lparr>ifr_data := Coalesce coalesce\<rparr>) SIOCETHTOOL s
      in ((rc, coalesce_of coalesce (ifr_data ifr)), s1))"

definition ldab_dev_coalesce_set :: "string \<Rightarrow> ethtool_coalesce \<Rightarrow> os \<Rightarrow> (int \<times> ethtool_coalesce) \<times> os" where
  "ldab_dev_coalesce_set dev coalesce s =
     (let coalesce = coalesce\<lparr>co_cmd := ETHTOOL_SCOALESCE\<rparr>;
          ((rc, ifr), s1) = dev_kernel_request ((set_name dev)\<lparr>ifr_data := Coalesce coalesce\<rparr>) SIOCETHTOOL s
      in ((rc, coalesce_of coalesce (ifr_data ifr)), s1))"

section \<open>Offloading\<close>

text \<open>A getter is called with the value the result variable holds before the call.\<close>

definition ldab_dev_rx_csum_offload_get :: "string \<Rightarrow> u32 \<Rightarrow> os \<Rightarrow> (int \<times> u32) \<times> os" where
  "ldab_dev_rx_csum_offload_get dev v = dev_ethtool_request dev ETHTOOL_GRXCSUM v"

definition ldab_dev_tx_csum_offload_get :: "string \<Rightarrow> u32 \<Rightarrow> os \<Rightarrow> (int \<times> u32) \<times> os" where
  "ldab_dev_tx_csum_offload_get dev v = dev_ethtool_request dev ETHTOOL_GTXCSUM v"

definition ldab_dev_scatter_gather_get :: "string \<Rightarrow> u32 \<Rightarrow> os \<Rightarrow> (int \<times> u32) \<times> os" where
  "ldab_dev_scatter_gather_get dev v = dev_ethtool_request dev ETHTOOL_GSG v"

definition ldab_dev_tcp_seg_offload_get :: "string \<Rightarrow> u32 \<Rightarrow> os \<Rightarrow> (int \<times> u32) \<times> os" where
  "ldab_dev_tcp_seg_offload_get dev v = dev_ethtool_request dev ETHTOOL_GTSO v"

definition ldab_dev_udp_frag_offload_get :: "string \<Rightarrow> u32 \<Rightarrow> os \<Rightarrow> (int \<times> u32) \<times> os" where
  "ldab_dev_udp_frag_offload_get dev v = dev_ethtool_request dev ETHTOOL_GUFO v"

definition ldab_dev_generic_seg_offload_get :: "string \<Rightarrow> u32 \<Rightarrow> os \<Rightarrow> (int \<times> u32) \<times> os" where
  "ldab_dev_generic_seg_offload_get dev v = dev_ethtool_request dev ETHTOOL_GGSO v"

definition ldab_dev_generic_rcv_offload_get :: "string \<Rightarrow> u32 \<Rightarrow> os \<Rightarrow> (int \<times> u32) \<times> os" where
  "ldab_dev_generic_rcv_offload_get dev v = dev_ethtool_request dev ETHTOOL_GGRO v"

definition ldab_dev_rx_csum_offload_set :: "string \<Rightarrow> u32 \<Rightarrow> os \<Rightarrow> int \<times> os" where
  "ldab_dev_rx_csum_offload_set dev v s = (let ((rc, _), s1) = dev_ethtool_request dev ETHTOOL_SRXCSUM v s in (rc, s1))"

definition ldab_dev_tx_csum_offload_set :: "string \<Rightarrow> u32 \<Rightarrow> os \<Rightarrow> int \<times> os" where
  "ldab_dev_tx_csum_offload_set dev v s = (let ((rc, _), s1) = dev_ethtool_request dev ETHTOOL_STXCSUM v s in (rc, s1))"

definition ldab_dev_scatter_gather_set :: "string \<Rightarrow> u32 \<Rightarrow> os \<Rightarrow> int \<times> os" where
  "ldab_dev_scatter_gather_set dev v s = (let ((rc, _), s1) = dev_ethtool_request dev ETHTOOL_SSG v s in (rc, s1))"

definition ldab_dev_tcp_seg_offload_set :: "string \<Rightarrow> u32 \<Rightarrow> os \<Rightarrow> int \<times> os" where
  "ldab_dev_tcp_seg_offload_set dev v s = (let ((rc, _), s1) = dev_ethtool_request dev ETHTOOL_STSO v s in (rc, s1))"

definition ldab_dev_udp_frag_offload_set :: "string \<Rightarrow> u32 \<Rightarrow> os \<Rightarrow> int \<times> os" where
  "ldab_dev_udp_frag_offload_set dev v s = (let ((rc, _), s1) = dev_ethtool_request dev ETHTOOL_SUFO v s in (rc, s1))"

definition ldab_dev_generic_seg_offload_set :: "string \<Rightarrow> u32 \<Rightarrow> os \<Rightarrow> int \<times> os" where
  "ldab_dev_generic_seg_offload_set dev v s = (let ((rc, _), s1) = dev_ethtool_request dev ETHTOOL_SGSO v s in (rc, s1))"

definition ldab_dev_generic_rcv_offload_set :: "string \<Rightarrow> u32 \<Rightarrow> os \<Rightarrow> int \<times> os" where
  "ldab_dev_generic_rcv_offload_set dev v s = (let ((rc, _), s1) = dev_ethtool_request dev ETHTOOL_SGRO v s in (rc, s1))"

definition ldab_dev_large_rcv_offload_get :: "string \<Rightarrow> os \<Rightarrow> (int \<times> u32) \<times> os" where
  "ldab_dev_large_rcv_offload_get dev s =
     (let ((rc, flags), s1) = dev_ethtool_request dev ETHTOOL_GFLAGS 0 s
      in ((rc, flags AND ETH_FLAG_LRO), s1))"

definition ldab_dev_rx_hash_offload_get :: "string \<Rightarrow> os \<Rightarrow> (int \<times> u32) \<times> os" where
  "ldab_dev_rx_hash_offload_get dev s =
     (let ((rc, flags), s1) = dev_ethtool_request dev ETHTOOL_GFLAGS 0 s
      in ((rc, flags AND ETH_FLAG_RXHASH), s1))"

definition ldab_dev_large_rcv_offload_set :: "string \<Rightarrow> u32 \<Rightarrow> os \<Rightarrow> int \<times> os" where
  "ldab_dev_large_rcv_offload_set dev lro s =
     (let ((rc, flags), s1) = dev_ethtool_request dev ETHTOOL_GFLAGS 0 s in
      if rc \<noteq> 0 then (rc, s1) else
      let flags = (if lro \<noteq> 0 then flags OR ETH_FLAG_LRO else flags AND NOT ETH_FLAG_LRO);
          ((rc, _), s2) = dev_ethtool_request dev ETHTOOL_SFLAGS flags s1
      in (rc, s2))"

definition ldab_dev_rx_hash_offload_set :: "string \<Rightarrow> u32 \<Rightarrow> os \<Rightarrow> int \<times> os" where
  "ldab_dev_rx_hash_offload_set dev rxhash s =
     (let ((rc, flags), s1) = dev_ethtool_request dev ETHTOOL_GFLAGS 0 s in
      if rc \<noteq> 0 then (rc, s1) else
      let flags = (if rxhash \<noteq> 0 then flags OR ETH_FLAG_RXHASH else flags AND NOT ETH_FLAG_RXHASH);
          ((rc, _), s2) = dev_ethtool_request dev ETHTOOL_SFLAGS flags s1
      in (rc, s2))"

definition ldab_dev_link_get :: "string \<Rightarrow> u32 \<Rightarrow> os \<Rightarrow> (int \<times> u32) \<times> os" where
  "ldab_dev_link_get dev v = dev_ethtool_request dev ETHTOOL_GLINK v"

section \<open>Facts on requests\<close>

lemma socket_result:
  assumes "socket s = (n, s')"
  shows "n = -1 \<and> os_fd s' = os_fd s \<and> os_errno s' \<noteq> 0 \<or>
    0 \<le> n \<and> os_fd s (nat n) = None \<and> os_fd s' = (os_fd s)(nat n \<mapsto> Sock fresh_sock)"
  using assms
  by (auto simp: socket_def syscall_def install_fd_def errno_def split: outcome.splits option.splits dest!: find_SomeD)

lemma close_fd_errno: "os_errno s \<noteq> 0 \<Longrightarrow> os_errno (snd (close_fd n s)) \<noteq> 0"
  by (auto simp: close_fd_def errno_def split: option.splits outcome.splits)

lemma ioctl_dev_result:
  assumes "ioctl_dev n q r s = ((rc, r'), s')" and "fd_of s n \<noteq> None"
  shows "os_hist s' = os_hist s @ [(q, r)] \<and>
    (rc = 0 \<and> snd (os_ioctl s (os_hist s) q r) = r' \<and> (\<forall>m. fst (os_ioctl s (os_hist s) q r) \<noteq> Fail m) \<or>
     rc = -1 \<and> r' = r \<and> os_errno s' \<noteq> 0 \<and> (\<exists>m. fst (os_ioctl s (os_hist s) q r) = Fail m))"
  using assms by (auto simp: ioctl_dev_def errno_def split: outcome.splits prod.splits)

text \<open>Did the kernel accept the request, and with which answer?\<close>

definition granted :: "os \<Rightarrow> dev_request \<Rightarrow> ifreq \<Rightarrow> ifreq \<Rightarrow> bool" where
  "granted s q r r' \<longleftrightarrow> snd (os_ioctl s (os_hist s) q r) = r' \<and>
     (case fst (os_ioctl s (os_hist s) q r) of Fail _ \<Rightarrow> False | _ \<Rightarrow> True)"

lemma dev_kernel_request_result:
  assumes "dev_kernel_request r q s = ((rc, r'), s')"
  shows "os_fd s' = os_fd s \<and>
    (rc = 0 \<and> granted s q r r' \<and> os_hist s' = os_hist s @ [(q, r)] \<or>
     rc \<noteq> 0 \<and> r' = r \<and> (os_hist s' = os_hist s \<or> os_hist s' = os_hist s @ [(q, r)]))"
proof -
  obtain n s1 where sk: "socket s = (n, s1)" by force
  note fr = socket_frame [of s, unfolded sk snd_conv]
  show ?thesis
  proof (cases "n < 0")
    case True
    with assms sk socket_result [OF sk] fr show ?thesis by (auto simp: dev_kernel_request_def)
  next
    case False
    then have n: "0 \<le> n" by simp
    with socket_result [OF sk] have s1: "os_fd s (nat n) = None" "os_fd s1 = (os_fd s)(nat n \<mapsto> Sock fresh_sock)"
      by auto
    obtain rc' r'' s2 where io: "ioctl_dev n q r s1 = ((rc', r''), s2)" by (metis surj_pair)
    note fr2 = ioctl_dev_frame [of n q r s1, unfolded io snd_conv]
    have s': "s' = snd (close_fd n s2)" "rc = (if rc' \<noteq> 0 then os_errno s' else rc')" "r' = r''"
      using assms sk n io by (auto simp: dev_kernel_request_def Let_def split_beta)
    have "os_fd s' = os_fd s" using n s1 fr2 by (simp add: s' fun_upd_idem)
    moreover have "os_hist s' = os_hist s @ [(q, r)]" "rc' = 0 \<and> granted s q r r'' \<or> rc' = -1 \<and> r'' = r \<and> os_errno s2 \<noteq> 0"
      using ioctl_dev_result [OF io] n s1 fr by (auto simp: fd_of_def granted_def s' split: outcome.split)
    ultimately show ?thesis using s' close_fd_errno [of s2 n] by auto
  qed
qed

lemma dev_kernel_request_frame [simp, os_frame]:
  "os_endian (snd (dev_kernel_request r q s)) = os_endian s"
  "os_sched (snd (dev_kernel_request r q s)) = os_sched s"
  "os_nofile (snd (dev_kernel_request r q s)) = os_nofile s"
  "os_tids (snd (dev_kernel_request r q s)) = os_tids s"
  "os_online (snd (dev_kernel_request r q s)) = os_online s"
  "os_ioctl (snd (dev_kernel_request r q s)) = os_ioctl s"
  "os_heap (snd (dev_kernel_request r q s)) = os_heap s"
  "os_brk (snd (dev_kernel_request r q s)) = os_brk s"
  "os_maps (snd (dev_kernel_request r q s)) = os_maps s"
  "os_vm (snd (dev_kernel_request r q s)) = os_vm s"
  "os_threads (snd (dev_kernel_request r q s)) = os_threads s"
  "os_dir (snd (dev_kernel_request r q s)) = os_dir s"
  "os_inodes (snd (dev_kernel_request r q s)) = os_inodes s"
  "os_data (snd (dev_kernel_request r q s)) = os_data s"
  by (simp_all add: dev_kernel_request_def Let_def split_beta)

lemma dev_kernel_request_fd [simp, os_frame]: "os_fd (snd (dev_kernel_request r q s)) = os_fd s"
  using dev_kernel_request_result [of r q s] by (metis prod.collapse)

lemma dev_ethtool_request_frame [simp, os_frame]:
  "os_endian (snd (dev_ethtool_request dev cmd v s)) = os_endian s"
  "os_sched (snd (dev_ethtool_request dev cmd v s)) = os_sched s"
  "os_nofile (snd (dev_ethtool_request dev cmd v s)) = os_nofile s"
  "os_tids (snd (dev_ethtool_request dev cmd v s)) = os_tids s"
  "os_online (snd (dev_ethtool_request dev cmd v s)) = os_online s"
  "os_ioctl (snd (dev_ethtool_request dev cmd v s)) = os_ioctl s"
  "os_heap (snd (dev_ethtool_request dev cmd v s)) = os_heap s"
  "os_brk (snd (dev_ethtool_request dev cmd v s)) = os_brk s"
  "os_maps (snd (dev_ethtool_request dev cmd v s)) = os_maps s"
  "os_vm (snd (dev_ethtool_request dev cmd v s)) = os_vm s"
  "os_threads (snd (dev_ethtool_request dev cmd v s)) = os_threads s"
  "os_dir (snd (dev_ethtool_request dev cmd v s)) = os_dir s"
  "os_inodes (snd (dev_ethtool_request dev cmd v s)) = os_inodes s"
  "os_data (snd (dev_ethtool_request dev cmd v s)) = os_data s"
  "os_fd (snd (dev_ethtool_request dev cmd v s)) = os_fd s"
  by (simp_all add: dev_ethtool_request_def Let_def split_beta)

lemma dev_ethtool_request_result:
  assumes "dev_ethtool_request dev cmd v s = ((rc, w), s')"
  shows "rc = 0 \<and> (\<exists>r'. granted s SIOCETHTOOL ((set_name dev)\<lparr>ifr_data := Value cmd v\<rparr>) r' \<and> w = value_of v (ifr_data r')) \<and>
      os_hist s' = os_hist s @ [(SIOCETHTOOL, (set_name dev)\<lparr>ifr_data := Value cmd v\<rparr>)] \<or>
    rc \<noteq> 0 \<and> w = v \<and> (os_hist s' = os_hist s \<or>
      os_hist s' = os_hist s @ [(SIOCETHTOOL, (set_name dev)\<lparr>ifr_data := Value cmd v\<rparr>)])"
proof -
  let ?r = "(set_name dev)\<lparr>ifr_data := Value cmd v\<rparr>"
  obtain rc' r' s1 where k: "dev_kernel_request ?r SIOCETHTOOL s = ((rc', r'), s1)" by (metis surj_pair)
  with assms dev_kernel_request_result [OF k] show ?thesis by (auto simp: dev_ethtool_request_def)
qed

lemma ldab_devname_to_ifindex_frame [simp, os_frame]:
  "os_endian (snd (ldab_devname_to_ifindex dev s)) = os_endian s"
  "os_sched (snd (ldab_devname_to_ifindex dev s)) = os_sched s"
  "os_nofile (snd (ldab_devname_to_ifindex dev s)) = os_nofile s"
  "os_tids (snd (ldab_devname_to_ifindex dev s)) = os_tids s"
  "os_online (snd (ldab_devname_to_ifindex dev s)) = os_online s"
  "os_ioctl (snd (ldab_devname_to_ifindex dev s)) = os_ioctl s"
  "os_heap (snd (ldab_devname_to_ifindex dev s)) = os_heap s"
  "os_brk (snd (ldab_devname_to_ifindex dev s)) = os_brk s"
  "os_maps (snd (ldab_devname_to_ifindex dev s)) = os_maps s"
  "os_vm (snd (ldab_devname_to_ifindex dev s)) = os_vm s"
  "os_threads (snd (ldab_devname_to_ifindex dev s)) = os_threads s"
  "os_dir (snd (ldab_devname_to_ifindex dev s)) = os_dir s"
  "os_inodes (snd (ldab_devname_to_ifindex dev s)) = os_inodes s"
  "os_data (snd (ldab_devname_to_ifindex dev s)) = os_data s"
  "os_fd (snd (ldab_devname_to_ifindex dev s)) = os_fd s"
  by (simp_all add: ldab_devname_to_ifindex_def Let_def split_beta)

lemma dev_kernel_request_ok:
  assumes ok: "faultless s" and fr: "free_fds s \<noteq> []" and g: "granted s q r r'"
  shows "\<exists>s'. dev_kernel_request r q s = ((0, r'), s') \<and> os_hist s' = os_hist s @ [(q, r)] \<and>
    os_fd s' = os_fd s \<and> os_ioctl s' = os_ioctl s \<and> os_sched s' = os_sched s \<and> os_nofile s' = os_nofile s"
proof -
  obtain n fs where n: "free_fds s = n # fs" using fr by (cases "free_fds s") auto
  obtain rc r'' s' where k: "dev_kernel_request r q s = ((rc, r''), s')" by (metis surj_pair)
  have "rc = 0"
    using k ok g n
    by (auto simp: dev_kernel_request_def socket_def syscall_def install_fd_def faultlessD
        find_free_fd [of "tick s", simplified] ioctl_dev_def granted_def Let_def split_beta
        split: outcome.splits prod.splits if_splits)
  with dev_kernel_request_result [OF k] k g dev_kernel_request_frame [of r q s, unfolded k snd_conv]
  show ?thesis by (auto simp: granted_def)
qed

section \<open>Properties\<close>

text \<open>
  C18: an interface request leaves no trace in the process: the descriptor table is the one
  before the call. A result of 0 means that the kernel got exactly this request and accepted it,
  and the structure holds its answer; any other result is a nonzero error number and the
  structure is untouched.
\<close>

theorem dev_kernel_request_spec:
  assumes "dev_kernel_request ifr request s = ((rc, ifr'), s')"
  shows "os_fd s' = os_fd s \<and>
    (rc = 0 \<and> os_hist s' = os_hist s @ [(request, ifr)] \<and>
       snd (os_ioctl s (os_hist s) request ifr) = ifr' \<and>
       (\<forall>n. fst (os_ioctl s (os_hist s) request ifr) \<noteq> Fail n) \<or>
     rc \<noteq> 0 \<and> ifr' = ifr \<and>
       (os_hist s' = os_hist s \<or> os_hist s' = os_hist s @ [(request, ifr)]))"
  using dev_kernel_request_result [OF assms] by (auto simp: granted_def split: outcome.splits)

theorem dev_kernel_request_spec_witness:
  "let (r, s') = dev_kernel_request (set_name ''eth0'') SIOCGIFFLAGS (boot (\<lambda>_. Succeed))
   in fst r = 19 \<and> os_fd s' = os_fd (boot (\<lambda>_. Succeed))"
proof -
  let ?s = "boot (\<lambda>_. Succeed)"
  obtain rc r s' where k: "dev_kernel_request (set_name ''eth0'') SIOCGIFFLAGS ?s = ((rc, r), s')" by (metis surj_pair)
  then have "rc = 19"
    by (simp add: dev_kernel_request_def socket_def syscall_def install_fd_def ioctl_dev_def close_fd_def
        fd_of_def upt_rec set_fd_def tick_def errno_def split_beta split: if_splits)
  with dev_kernel_request_spec [OF k] k show ?thesis by simp
qed

text \<open>The two requests of a switch: read the flag word, then store one.\<close>

definition flag_set_requests :: "string \<Rightarrow> u32 \<Rightarrow> u32 \<Rightarrow> (dev_request \<times> ifreq) list" where
  "flag_set_requests dev v w =
     [(SIOCETHTOOL, (set_name dev)\<lparr>ifr_data := Value ETHTOOL_GFLAGS v\<rparr>),
      (SIOCETHTOOL, (set_name dev)\<lparr>ifr_data := Value ETHTOOL_SFLAGS w\<rparr>)]"

text \<open>
  switching large receive offload or receive hashing rewrites one bit. When the call succeeds
  the kernel got two requests, the second stores the flag word the first returned with only
  the bit of that feature changed, set when the argument is nonzero and cleared when it is 0.
\<close>

theorem flag_offload_set_one_bit:
  assumes "ldab_dev_large_rcv_offload_set dev on s = (0, s') \<and> flag = ETH_FLAG_LRO \<or>
           ldab_dev_rx_hash_offload_set dev on s = (0, s') \<and> flag = ETH_FLAG_RXHASH"
  shows "\<exists>old new. fst (dev_ethtool_request dev ETHTOOL_GFLAGS 0 s) = (0, old) \<and>
    os_hist s' = os_hist s @ flag_set_requests dev 0 new \<and>
    new AND NOT flag = old AND NOT flag \<and> new AND flag = (if on = 0 then 0 else flag)"
proof -
  obtain rc old s1 where g: "dev_ethtool_request dev ETHTOOL_GFLAGS 0 s = ((rc, old), s1)" by (metis surj_pair)
  define new where "new = (if on \<noteq> 0 then old OR flag else old AND NOT flag)"
  obtain rc' w s2 where st: "dev_ethtool_request dev ETHTOOL_SFLAGS new s1 = ((rc', w), s2)" by (metis surj_pair)
  have rc: "rc = 0" "rc' = 0" "s' = s2"
    using assms g st
    by (auto simp: ldab_dev_large_rcv_offload_set_def ldab_dev_rx_hash_offload_set_def Let_def new_def split: if_splits)
  have "os_hist s' = os_hist s @ flag_set_requests dev 0 new"
    using dev_ethtool_request_result [OF g] dev_ethtool_request_result [OF st] rc
    by (auto simp: flag_set_requests_def)
  moreover have "new AND NOT flag = old AND NOT flag" "new AND flag = (if on = 0 then 0 else flag)"
    by (auto simp: new_def bit_eq_iff bit_simps)
  ultimately show ?thesis using g rc by auto
qed

text \<open>A device that keeps a flag word, for concrete runs: it starts with the value \<open>w\<close>.\<close>

definition last_flags :: "u32 \<Rightarrow> (dev_request \<times> ifreq) list \<Rightarrow> u32" where
  "last_flags w h = fold (\<lambda>(q, r) acc.
     case ifr_data r of Value c v \<Rightarrow> if c = ETHTOOL_SFLAGS then v else acc | _ \<Rightarrow> acc) h w"

definition flag_device :: "u32 \<Rightarrow> os" where
  "flag_device w = (boot (\<lambda>_. Succeed))\<lparr>os_ioctl := (\<lambda>h q r.
     (Succeed, case ifr_data r of
        Value c v \<Rightarrow> if c = ETHTOOL_GFLAGS then r\<lparr>ifr_data := Value c (last_flags w h)\<rparr> else r
      | _ \<Rightarrow> r))\<rparr>"

theorem flag_offload_set_one_bit_witness:
  "\<exists>s'. ldab_dev_large_rcv_offload_set ''eth0'' 1 (flag_device 5) = (0, s') \<and>
     os_hist s' = flag_set_requests ''eth0'' 0 0x8005"
proof -
  let ?s = "flag_device 5"
  let ?g = "(set_name ''eth0'')\<lparr>ifr_data := Value ETHTOOL_GFLAGS 0\<rparr>"
  have ok: "faultless ?s" "free_fds ?s \<noteq> []"
    by (simp_all add: flag_device_def faultless_def free_fds_def upt_rec)
  have "granted ?s SIOCETHTOOL ?g (?g\<lparr>ifr_data := Value ETHTOOL_GFLAGS 5\<rparr>)"
    by (simp add: granted_def flag_device_def last_flags_def)
  from dev_kernel_request_ok [OF ok this] obtain s1 where s1:
    "dev_ethtool_request ''eth0'' ETHTOOL_GFLAGS 0 ?s = ((0, 5), s1)"
    "os_fd s1 = os_fd ?s" "os_ioctl s1 = os_ioctl ?s" "os_sched s1 = os_sched ?s" "os_nofile s1 = os_nofile ?s"
    by (auto simp: dev_ethtool_request_def value_of_def)
  let ?p = "(set_name ''eth0'')\<lparr>ifr_data := Value ETHTOOL_SFLAGS 0x8005\<rparr>"
  have ok1: "faultless s1" "free_fds s1 \<noteq> []" using ok s1 by (simp_all add: faultless_def free_fds_def)
  have "granted s1 SIOCETHTOOL ?p ?p"
    using s1 by (simp add: granted_def flag_device_def ETHTOOL_GFLAGS_def ETHTOOL_SFLAGS_def)
  from dev_kernel_request_ok [OF ok1 this] obtain s' where
    "ldab_dev_large_rcv_offload_set ''eth0'' 1 ?s = (0, s')"
    using s1 by (auto simp: ldab_dev_large_rcv_offload_set_def dev_ethtool_request_def ETH_FLAG_LRO_def)
  moreover from flag_offload_set_one_bit [OF disjI1, OF conjI, OF this refl] s1
  obtain new where new: "os_hist s' = os_hist ?s @ flag_set_requests ''eth0'' 0 new"
    "new AND NOT ETH_FLAG_LRO = 5 AND NOT ETH_FLAG_LRO" "new AND ETH_FLAG_LRO = ETH_FLAG_LRO"
    by auto
  have "new = (new AND NOT ETH_FLAG_LRO) OR (new AND ETH_FLAG_LRO)" by (rule word_mask_split)
  with new(2,3) have "new = 0x8005" by (simp add: ETH_FLAG_LRO_def)
  ultimately show ?thesis using new by (simp add: flag_device_def)
qed

text \<open>The kernel names device \<open>idx\<close> with \<open>name\<close>, in both directions.\<close>

definition names_device :: "os \<Rightarrow> string \<Rightarrow> int \<Rightarrow> bool" where
  "names_device s name idx \<longleftrightarrow> (\<forall>h.
     os_ioctl s h SIOCGIFINDEX (set_name name) = (Succeed, (set_name name)\<lparr>ifr_ifindex := idx\<rparr>) \<and>
     os_ioctl s h SIOCGIFNAME (empty_ifreq\<lparr>ifr_ifindex := idx\<rparr>)
       = (Succeed, empty_ifreq\<lparr>ifr_ifindex := idx, ifr_name := name\<rparr>))"

text \<open>
  C19: an interface name survives the trip through its index. If the kernel names device \<open>idx\<close>
  with \<open>name\<close> in both directions, then looking up the index of the name and the name of that
  index gives the name back; the pseudo interface \<open>any\<close> maps to index 0 and back without
  asking the kernel.
\<close>

theorem devname_ifindex_roundtrip:
  assumes ok: "faultless s" and fr: "free_fds s \<noteq> []"
    and dev: "name = ANY_INTERFACE \<or> names_device s name idx \<and> 0 < idx \<and> length name < IFNAMSIZ"
  shows "\<exists>i s1 s2. ldab_devname_to_ifindex name s = ((0, Some i), s1) \<and>
    i = (if name = ANY_INTERFACE then 0 else idx) \<and>
    ldab_ifindex_to_devname i IFNAMSIZ s1 = Some ((0, Some name), s2)"
proof (cases "name = ANY_INTERFACE")
  case True
  then show ?thesis
    by (simp add: ldab_devname_to_ifindex_def ldab_ifindex_to_devname_def ANY_INTERFACE_def IFNAMSIZ_def)
next
  case False
  with dev have d: "names_device s name idx" "0 < idx" "length name < IFNAMSIZ" by auto
  let ?n = "set_name name" and ?i = "empty_ifreq\<lparr>ifr_ifindex := idx\<rparr>"
  from d have "granted s SIOCGIFINDEX ?n (?n\<lparr>ifr_ifindex := idx\<rparr>)"
    by (simp add: granted_def names_device_def)
  from dev_kernel_request_ok [OF ok fr this] obtain s1 where s1:
    "dev_kernel_request ?n SIOCGIFINDEX s = ((0, ?n\<lparr>ifr_ifindex := idx\<rparr>), s1)"
    "os_fd s1 = os_fd s" "os_ioctl s1 = os_ioctl s" "os_sched s1 = os_sched s" "os_nofile s1 = os_nofile s"
    by auto
  have ok1: "faultless s1" "free_fds s1 \<noteq> []" using ok fr s1 by (simp_all add: faultless_def free_fds_def)
  from d s1 have "granted s1 SIOCGIFNAME ?i (?i\<lparr>ifr_name := name\<rparr>)"
    by (simp add: granted_def names_device_def)
  from dev_kernel_request_ok [OF ok1 this] s1 d False show ?thesis
    by (auto simp: ldab_devname_to_ifindex_def ldab_ifindex_to_devname_def IFNAMSIZ_def)
qed

theorem devname_ifindex_roundtrip_witness:
  "let s = (boot (\<lambda>_. Succeed))\<lparr>os_ioctl := (\<lambda>h q r. (Succeed,
       case q of SIOCGIFINDEX \<Rightarrow> r\<lparr>ifr_ifindex := 2\<rparr> | SIOCGIFNAME \<Rightarrow> r\<lparr>ifr_name := ''eth0''\<rparr> | _ \<Rightarrow> r))\<rparr>
   in \<exists>s1 s2. ldab_devname_to_ifindex ''eth0'' s = ((0, Some 2), s1) \<and>
        ldab_ifindex_to_devname 2 16 s1 = Some ((0, Some ''eth0''), s2)"
proof -
  let ?s = "(boot (\<lambda>_. Succeed))\<lparr>os_ioctl := (\<lambda>h q r. (Succeed,
       case q of SIOCGIFINDEX \<Rightarrow> r\<lparr>ifr_ifindex := 2\<rparr> | SIOCGIFNAME \<Rightarrow> r\<lparr>ifr_name := ''eth0''\<rparr> | _ \<Rightarrow> r))\<rparr>"
  have "faultless ?s" "free_fds ?s \<noteq> []"
    "''eth0'' = ANY_INTERFACE \<or> names_device ?s ''eth0'' 2 \<and> 0 < (2 :: int) \<and> length ''eth0'' < IFNAMSIZ"
    by (simp_all add: faultless_def free_fds_def upt_rec names_device_def IFNAMSIZ_def empty_ifreq_def)
  from devname_ifindex_roundtrip [OF this] show ?thesis
    by (simp add: Let_def ANY_INTERFACE_def IFNAMSIZ_def)
qed

end
