(* ===== verification/Sock_Filter.thy ===== *)
theory Sock_Filter
  imports Posix
begin

text \<open>
  Socket filters: the validity check, attachment and detachment of
  \<^verbatim>\<open>src/libdabba/sock-filter.c\<close>, and the conversions between kernel filters and remote procedure
  call messages of \<^verbatim>\<open>src/dabbad/sock-filter.c\<close>. A filter program is an array on the heap; the
  message has one heap block per instruction and one for the array of pointers. Freeing a block
  that is not allocated, or reading past the end of an array, is the result \<open>None\<close>.
\<close>

section \<open>Instruction encoding\<close>

definition BPF_CLASS :: "u16 \<Rightarrow> u16" where "BPF_CLASS c = c AND 0x07"
definition BPF_MODE :: "u16 \<Rightarrow> u16" where "BPF_MODE c = c AND 0xe0"
definition BPF_OP :: "u16 \<Rightarrow> u16" where "BPF_OP c = c AND 0xf0"
definition BPF_RVAL :: "u16 \<Rightarrow> u16" where "BPF_RVAL c = c AND 0x18"

definition BPF_LD :: u16 where "BPF_LD = 0"
definition BPF_LDX :: u16 where "BPF_LDX = 1"
definition BPF_ST :: u16 where "BPF_ST = 2"
definition BPF_STX :: u16 where "BPF_STX = 3"
definition BPF_ALU :: u16 where "BPF_ALU = 4"
definition BPF_JMP :: u16 where "BPF_JMP = 5"
definition BPF_RET :: u16 where "BPF_RET = 6"
definition BPF_MISC :: u16 where "BPF_MISC = 7"

definition BPF_IMM :: u16 where "BPF_IMM = 0x00"
definition BPF_ABS :: u16 where "BPF_ABS = 0x20"
definition BPF_IND :: u16 where "BPF_IND = 0x40"
definition BPF_MEM :: u16 where "BPF_MEM = 0x60"
definition BPF_LEN :: u16 where "BPF_LEN = 0x80"
definition BPF_MSH :: u16 where "BPF_MSH = 0xa0"

definition BPF_ADD :: u16 where "BPF_ADD = 0x00"
definition BPF_SUB :: u16 where "BPF_SUB = 0x10"
definition BPF_MUL :: u16 where "BPF_MUL = 0x20"
definition BPF_DIV :: u16 where "BPF_DIV = 0x30"
definition BPF_OR :: u16 where "BPF_OR = 0x40"
definition BPF_AND :: u16 where "BPF_AND = 0x50"
definition BPF_LSH :: u16 where "BPF_LSH = 0x60"
definition BPF_RSH :: u16 where "BPF_RSH = 0x70"
definition BPF_NEG :: u16 where "BPF_NEG = 0x80"

definition BPF_JA :: u16 where "BPF_JA = 0x00"
definition BPF_JEQ :: u16 where "BPF_JEQ = 0x10"
definition BPF_JGT :: u16 where "BPF_JGT = 0x20"
definition BPF_JGE :: u16 where "BPF_JGE = 0x30"
definition BPF_JSET :: u16 where "BPF_JSET = 0x40"

definition BPF_K :: u16 where "BPF_K = 0"
definition BPF_MEMWORDS :: u32 where "BPF_MEMWORDS = 16"

lemmas bpf_fields = BPF_CLASS_def BPF_MODE_def BPF_OP_def BPF_RVAL_def

lemmas bpf_consts = BPF_LD_def BPF_LDX_def BPF_ST_def BPF_STX_def BPF_ALU_def BPF_JMP_def
  BPF_RET_def BPF_MISC_def BPF_IMM_def BPF_ABS_def BPF_IND_def BPF_MEM_def BPF_LEN_def BPF_MSH_def
  BPF_ADD_def BPF_SUB_def BPF_MUL_def BPF_DIV_def BPF_OR_def BPF_AND_def BPF_LSH_def BPF_RSH_def
  BPF_NEG_def BPF_JA_def BPF_JEQ_def BPF_JGT_def BPF_JGE_def BPF_JSET_def BPF_K_def BPF_MEMWORDS_def

text \<open>
  \<^verbatim>\<open>struct sock_fprog\<close>: the instruction count and the array, with the heap block that holds it
  (\<open>None\<close> is NULL).
\<close>

record sock_fprog =
  fp_len :: u16
  fp_filter :: "sock_filter list"
  fp_blk :: "nat option"

section \<open>The validity check\<close>

text \<open>The body of the loop for the instruction at index \<open>i\<close>; all sums are taken in 32 bits.\<close>

definition sock_filter_insn_ok :: "u16 \<Rightarrow> u32 \<Rightarrow> sock_filter \<Rightarrow> bool" where
  "sock_filter_insn_ok n i p =
     (let c = BPF_CLASS (code p) in
      if c = BPF_LD \<or> c = BPF_LDX then
        (let m = BPF_MODE (code p) in
         if m = BPF_IMM \<or> m = BPF_ABS \<or> m = BPF_IND \<or> m = BPF_MSH then True
         else if m = BPF_MEM then \<not> k p \<ge> BPF_MEMWORDS
         else m = BPF_LEN)
      else if c = BPF_ST \<or> c = BPF_STX then \<not> k p \<ge> BPF_MEMWORDS
      else if c = BPF_ALU then
        (let op = BPF_OP (code p) in
         if op \<in> {BPF_ADD, BPF_SUB, BPF_MUL, BPF_OR, BPF_AND, BPF_LSH, BPF_RSH, BPF_NEG} then True
         else if op = BPF_DIV then \<not> (BPF_RVAL (code p) = BPF_K \<and> k p = 0)
         else False)
      else if c = BPF_JMP then
        (let from = i + 1; op = BPF_OP (code p) in
         if op = BPF_JA then \<not> from + k p \<ge> ucast n
         else if op \<in> {BPF_JEQ, BPF_JGT, BPF_JGE, BPF_JSET}
           then \<not> (from + ucast (jt p) \<ge> ucast n \<or> from + ucast (jf p) \<ge> ucast n)
         else False)
      else c = BPF_RET \<or> c = BPF_MISC)"

text \<open>The loop: \<open>m\<close> instructions are left, starting at \<open>i\<close>.\<close>

fun sock_filter_scan :: "sock_filter list \<Rightarrow> u16 \<Rightarrow> nat \<Rightarrow> nat \<Rightarrow> bool option" where
  "sock_filter_scan fs n i 0 = Some True"
| "sock_filter_scan fs n i (Suc m) =
     (if i < length fs
      then if sock_filter_insn_ok n (of_nat i) (fs ! i) then sock_filter_scan fs n (Suc i) m else Some False
      else None)"

lemma sock_filter_scan_numeral [simp]:
  "sock_filter_scan fs n i (numeral v) =
     (if i < length fs
      then if sock_filter_insn_ok n (of_nat i) (fs ! i) then sock_filter_scan fs n (Suc i) (pred_numeral v)
           else Some False
      else None)"
  by (simp only: numeral_eq_Suc [of v] sock_filter_scan.simps)

definition ldab_sock_filter_is_valid :: "sock_fprog option \<Rightarrow> int option" where
  "ldab_sock_filter_is_valid bpf =
     (case bpf of
        None \<Rightarrow> Some 0
      | Some b \<Rightarrow>
          if fp_len b < 1 then Some 0 else
          do {
            ok \<leftarrow> sock_filter_scan (fp_filter b) (fp_len b) 0 (unat (fp_len b));
            if \<not> ok then Some 0 else
            Some (if BPF_CLASS (code (fp_filter b ! (unat (fp_len b) - 1))) = BPF_RET then 1 else 0)
          })"

definition ldab_sock_filter_attach :: "int \<Rightarrow> sock_fprog \<Rightarrow> os \<Rightarrow> int \<times> os" where
  "ldab_sock_filter_attach sock sfp s =
     setsockopt_filter sock (Some (take (unat (fp_len sfp)) (fp_filter sfp))) s"

definition ldab_sock_filter_detach :: "int \<Rightarrow> os \<Rightarrow> int \<times> os" where
  "ldab_sock_filter_detach sock s = setsockopt_filter sock None s"

section \<open>Messages\<close>

text \<open>
  \<^verbatim>\<open>Dabba__SockFilter\<close> and \<^verbatim>\<open>Dabba__SockFprog\<close>, generated from the messages \<^verbatim>\<open>sock_filter\<close> and
  \<^verbatim>\<open>sock_fprog\<close> of \<^verbatim>\<open>dabba.proto\<close>: each element with its heap block, and the pointer array.
\<close>

record pbuf_sock_filter =
  pb_code :: u32
  pb_jt :: u32
  pb_jf :: u32
  pb_k :: u32

record pbuf_sock_fprog =
  pb_filter :: "(nat \<times> pbuf_sock_filter) list"
  pb_arr :: "nat option"

definition dabba__sock_fprog__init :: pbuf_sock_fprog where
  "dabba__sock_fprog__init = \<lparr>pb_filter = [], pb_arr = None\<rparr>"

definition sock_filter_of_pbuf :: "pbuf_sock_filter \<Rightarrow> sock_filter" where
  "sock_filter_of_pbuf f =
     \<lparr>code = ucast (pb_code f), jt = ucast (pb_jt f), jf = ucast (pb_jf f), k = pb_k f\<rparr>"

definition pbuf_of_sock_filter :: "sock_filter \<Rightarrow> pbuf_sock_filter" where
  "pbuf_of_sock_filter f =
     \<lparr>pb_code = ucast (code f), pb_jt = ucast (jt f), pb_jf = ucast (jf f), pb_k = k f\<rparr>"

text \<open>After the release the \<open>filter\<close> pointer still designates the released block.\<close>

definition dabbad_sfp_destroy :: "sock_fprog \<Rightarrow> os \<Rightarrow> (sock_fprog \<times> os) option" where
  "dabbad_sfp_destroy sfp s = do { s1 \<leftarrow> free (fp_blk sfp) s; Some (sfp\<lparr>fp_len := 0\<rparr>, s1) }"

fun free_all :: "nat list \<Rightarrow> os \<Rightarrow> os option" where
  "free_all [] s = Some s"
| "free_all (b # bs) s = do { s1 \<leftarrow> free (Some b) s; free_all bs s1 }"

definition dabbad_pbuf_sfp_destroy :: "pbuf_sock_fprog \<Rightarrow> os \<Rightarrow> (pbuf_sock_fprog \<times> os) option" where
  "dabbad_pbuf_sfp_destroy p s =
     (if pb_filter p \<noteq> [] \<and> pb_arr p = None then None else
      do {
        s1 \<leftarrow> free_all (map fst (pb_filter p)) s;
        s2 \<leftarrow> free (pb_arr p) s1;
        Some (dabba__sock_fprog__init, s2)
      })"

definition dabbad_pbuf_sfp_2_sfp ::
  "pbuf_sock_fprog \<Rightarrow> sock_fprog \<Rightarrow> os \<Rightarrow> ((int \<times> sock_fprog) \<times> os) option" where
  "dabbad_pbuf_sfp_2_sfp pbuf_sf sfp s =
     (let (b, s1) = malloc s; sfp = sfp\<lparr>fp_blk := b\<rparr> in
      if b = None then Some ((ENOMEM, sfp), s1) else
      let sfp = sfp\<lparr>fp_filter := map (sock_filter_of_pbuf \<circ> snd) (pb_filter pbuf_sf),
                    fp_len := of_nat (length (pb_filter pbuf_sf))\<rparr>
      in do {
        v \<leftarrow> ldab_sock_filter_is_valid (Some sfp);
        if v = 0 then do { (sfp, s2) \<leftarrow> dabbad_sfp_destroy sfp s1; Some ((EINVAL, sfp), s2) }
        else Some ((0, sfp), s1)
      })"

text \<open>The filling loop: the instructions still to copy, and the message built so far.\<close>

fun pbuf_sfp_fill :: "sock_filter list \<Rightarrow> pbuf_sock_fprog \<Rightarrow> os \<Rightarrow> ((int \<times> pbuf_sock_fprog) \<times> os) option" where
  "pbuf_sfp_fill [] p s = Some ((0, p), s)"
| "pbuf_sfp_fill (f # fs) p s =
     (let (sf, s1) = malloc s in
      case sf of
        None \<Rightarrow> do { (p, s2) \<leftarrow> dabbad_pbuf_sfp_destroy p s1; Some ((ENOMEM, p), s2) }
      | Some b \<Rightarrow> pbuf_sfp_fill fs (p\<lparr>pb_filter := pb_filter p @ [(b, pbuf_of_sock_filter f)]\<rparr>) s1)"

definition dabbad_sfp_2_pbuf_sfp ::
  "sock_fprog \<Rightarrow> pbuf_sock_fprog \<Rightarrow> os \<Rightarrow> ((int \<times> pbuf_sock_fprog) \<times> os) option" where
  "dabbad_sfp_2_pbuf_sfp sfp p s =
     (let (arr, s1) = malloc s; p = p\<lparr>pb_arr := arr\<rparr> in
      if arr = None then Some ((ENOMEM, p), s1) else
      if length (fp_filter sfp) < unat (fp_len sfp) then None else
      pbuf_sfp_fill (take (unat (fp_len sfp)) (fp_filter sfp)) (p\<lparr>pb_filter := []\<rparr>) s1)"

section \<open>Control flow of a filter program\<close>

text \<open>
  The program counter of the filter machine moves to the next instruction, except at jumps, and
  stops at returns. Which branch a conditional jump takes depends on the packet, so both are
  steps. Offsets count from the following instruction.
\<close>

inductive bpf_next :: "sock_filter list \<Rightarrow> u32 \<Rightarrow> u32 \<Rightarrow> bool" for fs where
  seq: "unat pc < length fs \<Longrightarrow> BPF_CLASS (code (fs ! unat pc)) \<noteq> BPF_JMP \<Longrightarrow>
        BPF_CLASS (code (fs ! unat pc)) \<noteq> BPF_RET \<Longrightarrow> bpf_next fs pc (pc + 1)"
| ja: "unat pc < length fs \<Longrightarrow> BPF_CLASS (code (fs ! unat pc)) = BPF_JMP \<Longrightarrow>
       BPF_OP (code (fs ! unat pc)) = BPF_JA \<Longrightarrow> bpf_next fs pc (pc + 1 + k (fs ! unat pc))"
| jt: "unat pc < length fs \<Longrightarrow> BPF_CLASS (code (fs ! unat pc)) = BPF_JMP \<Longrightarrow>
       BPF_OP (code (fs ! unat pc)) \<noteq> BPF_JA \<Longrightarrow> bpf_next fs pc (pc + 1 + ucast (jt (fs ! unat pc)))"
| jf: "unat pc < length fs \<Longrightarrow> BPF_CLASS (code (fs ! unat pc)) = BPF_JMP \<Longrightarrow>
       BPF_OP (code (fs ! unat pc)) \<noteq> BPF_JA \<Longrightarrow> bpf_next fs pc (pc + 1 + ucast (jf (fs ! unat pc)))"

inductive_cases bpf_nextE: "bpf_next fs pc pc'"

text \<open>The scratch memory slot an instruction uses, if any.\<close>

definition bpf_slot :: "sock_filter \<Rightarrow> u32 option" where
  "bpf_slot p =
     (if BPF_CLASS (code p) = BPF_ST \<or> BPF_CLASS (code p) = BPF_STX \<or>
         (BPF_CLASS (code p) = BPF_LD \<or> BPF_CLASS (code p) = BPF_LDX) \<and> BPF_MODE (code p) = BPF_MEM
      then Some (k p) else None)"

text \<open>The instructions a program really has, by its count.\<close>

definition program :: "sock_fprog \<Rightarrow> sock_filter list" where
  "program b = take (unat (fp_len b)) (fp_filter b)"

lemma sock_filter_scan_True:
  "sock_filter_scan fs n i m = Some True \<longleftrightarrow>
     (m = 0 \<or> i + m \<le> length fs) \<and> (\<forall>j. i \<le> j \<and> j < i + m \<longrightarrow> sock_filter_insn_ok n (of_nat j) (fs ! j))"
proof (induction m arbitrary: i)
  case 0
  show ?case by auto
next
  case (Suc m)
  have "(\<forall>j. i \<le> j \<and> j < i + Suc m \<longrightarrow> P j) \<longleftrightarrow> P i \<and> (\<forall>j. Suc i \<le> j \<and> j < Suc i + m \<longrightarrow> P j)" for P
    by (metis Suc_le_eq add_Suc_right add_Suc_shift le_eq_less_or_eq less_add_Suc1)
  from this [of "\<lambda>j. sock_filter_insn_ok n (of_nat j) (fs ! j)"] Suc show ?case by auto
qed

lemma sock_filter_scan_defined:
  "i + m \<le> length fs \<Longrightarrow> \<exists>r. sock_filter_scan fs n i m = Some r"
  by (induction m arbitrary: i) auto

text \<open>What a positive verdict says, instruction by instruction.\<close>

lemma sock_filter_validD:
  assumes "ldab_sock_filter_is_valid (Some b) = Some v" and "v \<noteq> 0"
  shows "0 < length (program b)" and "length (program b) = unat (fp_len b)" and "v = 1"
    and "BPF_CLASS (code (last (program b))) = BPF_RET"
    and "\<And>i. i < length (program b) \<Longrightarrow> sock_filter_insn_ok (fp_len b) (of_nat i) (program b ! i)"
proof -
  let ?n = "unat (fp_len b)"
  from assms have n: "0 < ?n" by (auto simp: ldab_sock_filter_is_valid_def unat_gt_0 split: if_splits)
  from assms have sc: "sock_filter_scan (fp_filter b) (fp_len b) 0 ?n = Some True"
    and v: "v = 1" and r: "BPF_CLASS (code (fp_filter b ! (?n - 1))) = BPF_RET"
    by (auto simp: ldab_sock_filter_is_valid_def split: if_splits bind_splits)
  from sc [unfolded sock_filter_scan_True] n have len: "?n \<le> length (fp_filter b)"
    and ok: "\<And>i. i < ?n \<Longrightarrow> sock_filter_insn_ok (fp_len b) (of_nat i) (fp_filter b ! i)" by auto
  show "0 < length (program b)" "length (program b) = ?n" "v = 1" using n len v by (simp_all add: program_def)
  show "BPF_CLASS (code (last (program b))) = BPF_RET"
    using n len r by (subst last_conv_nth) (auto simp: program_def)
  show "\<And>i. i < length (program b) \<Longrightarrow> sock_filter_insn_ok (fp_len b) (of_nat i) (program b ! i)"
    using ok by (simp add: program_def)
qed

lemma bpf_classes_distinct:
  "BPF_JMP \<noteq> BPF_LD" "BPF_JMP \<noteq> BPF_LDX" "BPF_JMP \<noteq> BPF_ST" "BPF_JMP \<noteq> BPF_STX" "BPF_JMP \<noteq> BPF_ALU"
  "BPF_JMP \<noteq> BPF_RET" "BPF_LD \<noteq> BPF_ST" "BPF_LDX \<noteq> BPF_ST" "BPF_LD \<noteq> BPF_STX" "BPF_LDX \<noteq> BPF_STX"
  "BPF_MEM \<noteq> BPF_IMM" "BPF_MEM \<noteq> BPF_ABS" "BPF_MEM \<noteq> BPF_IND" "BPF_MEM \<noteq> BPF_MSH"
  by (simp_all add: bpf_consts)

lemma insn_ok_slot: "sock_filter_insn_ok n i p \<Longrightarrow> bpf_slot p = Some m \<Longrightarrow> m < 16"
  using bpf_classes_distinct
  by (auto simp: sock_filter_insn_ok_def bpf_slot_def Let_def BPF_MEMWORDS_def not_le split: if_splits)

lemma unat_less_ucast:
  fixes n :: u16 and w :: u32
  assumes "w < ucast n"
  shows "unat w < unat n"
proof -
  from assms have "unat w < take_bit 32 (unat n)" by (simp add: word_less_nat_alt unsigned_ucast_eq)
  also have "\<dots> \<le> unat n" by (rule take_bit_nat_less_eq_self)
  finally show ?thesis .
qed

text \<open>One step of an accepted program stays inside it.\<close>

lemma bpf_next_inside:
  assumes v: "ldab_sock_filter_is_valid (Some b) = Some v" "v \<noteq> 0" and st: "bpf_next (program b) pc pc'"
  shows "unat pc' < length (program b)"
  using st
proof cases
  case seq
  have "unat pc \<noteq> length (program b) - 1"
  proof
    assume "unat pc = length (program b) - 1"
    then have "program b ! unat pc = last (program b)" using seq by (metis last_conv_nth length_0_conv not_less0)
    with seq sock_filter_validD(4) [OF v] show False by simp
  qed
  with seq have "Suc (unat pc) < length (program b)" by simp
  moreover have "unat pc' \<le> Suc (unat pc)" using seq by (simp add: unat_word_ariths)
  ultimately show ?thesis by simp
qed (use sock_filter_validD(2) [OF v] sock_filter_validD(5) [OF v, of "unat pc"] bpf_classes_distinct in
    \<open>auto simp: sock_filter_insn_ok_def Let_def not_le intro: unat_less_ucast split: if_splits\<close>)

text \<open>Jumps that do not wrap around the 32-bit counter go forward.\<close>

definition no_wrap :: "sock_filter list \<Rightarrow> bool" where
  "no_wrap fs \<longleftrightarrow> (\<forall>i < length fs. BPF_CLASS (code (fs ! i)) = BPF_JMP \<longrightarrow> BPF_OP (code (fs ! i)) = BPF_JA \<longrightarrow>
     i + 1 + unat (k (fs ! i)) < 2 ^ 32)"

lemma unat_add_forward: "unat pc + 1 + unat d < 2 ^ 32 \<Longrightarrow> unat pc < unat (pc + 1 + d)" for pc d :: u32
  by (simp add: unat_word_ariths)

lemma unat_ucast_u8_lt: "unat (ucast (w :: u8) :: u32) < 256"
proof -
  have "unat (ucast w :: u32) = take_bit 32 (unat w)" by (simp add: unsigned_ucast_eq)
  also have "\<dots> \<le> unat w" by (rule take_bit_nat_less_eq_self)
  also have "\<dots> < 256" using unsigned_less [of w] by simp
  finally show ?thesis .
qed

lemma bpf_next_forward:
  assumes st: "bpf_next fs pc pc'" and nw: "no_wrap fs" and len: "length fs < 65536"
  shows "unat pc < unat pc'"
  using st
proof cases
  case seq
  then show ?thesis using len by (simp add: unat_word_ariths)
next
  case ja
  then show ?thesis using nw by (auto simp: no_wrap_def intro!: unat_add_forward)
next
  case jt
  then show ?thesis using len unat_ucast_u8_lt [of "jt (fs ! unat pc)"] by (auto intro!: unat_add_forward)
next
  case jf
  then show ?thesis using len unat_ucast_u8_lt [of "jf (fs ! unat pc)"] by (auto intro!: unat_add_forward)
qed

lemma bpf_next_total:
  assumes "unat pc < length fs" and "BPF_CLASS (code (fs ! unat pc)) \<noteq> BPF_RET"
  shows "\<exists>pc'. bpf_next fs pc pc'"
  using assms by (cases "BPF_CLASS (code (fs ! unat pc)) = BPF_JMP"; cases "BPF_OP (code (fs ! unat pc)) = BPF_JA")
    (blast intro: bpf_next.intros)+

lemma bpf_next_ret: "bpf_next fs pc pc' \<Longrightarrow> BPF_CLASS (code (fs ! unat pc)) \<noteq> BPF_RET"
  using bpf_classes_distinct(6) by (auto elim!: bpf_nextE)

lemma bpf_run_inside:
  assumes v: "ldab_sock_filter_is_valid (Some b) = Some v" "v \<noteq> 0" and run: "(bpf_next (program b))\<^sup>*\<^sup>* 0 pc"
  shows "unat pc < length (program b)"
  using run
proof (induction rule: rtranclp_induct)
  case base
  show ?case using sock_filter_validD(1) [OF v] by simp
next
  case (step pc pc')
  then show ?case by (auto intro: bpf_next_inside [OF v])
qed

section \<open>Heap use of the conversions\<close>

lemma free_all_ok:
  "distinct bs \<Longrightarrow> set bs \<subseteq> os_heap s \<Longrightarrow> free_all bs s = Some (s\<lparr>os_heap := os_heap s - set bs\<rparr>)"
proof (induction bs arbitrary: s)
  case Nil
  show ?case by simp
next
  case (Cons b bs)
  have "os_heap s - {b} - set bs = os_heap s - set (b # bs)" by auto
  with Cons.IH [of "s\<lparr>os_heap := os_heap s - {b}\<rparr>"] Cons.prems show ?case by (auto simp: free_def)
qed

text \<open>The heap blocks a message holds.\<close>

definition pbuf_blocks :: "pbuf_sock_fprog \<Rightarrow> nat list" where
  "pbuf_blocks p = map fst (pb_filter p) @ (case pb_arr p of None \<Rightarrow> [] | Some a \<Rightarrow> [a])"

definition pbuf_owned :: "pbuf_sock_fprog \<Rightarrow> os \<Rightarrow> bool" where
  "pbuf_owned p s \<longleftrightarrow> pb_arr p \<noteq> None \<and> distinct (pbuf_blocks p) \<and> set (pbuf_blocks p) \<subseteq> os_heap s"

lemma dabbad_pbuf_sfp_destroy_ok:
  assumes "pbuf_owned p s"
  shows "dabbad_pbuf_sfp_destroy p s
    = Some (dabba__sock_fprog__init, s\<lparr>os_heap := os_heap s - set (pbuf_blocks p)\<rparr>)"
proof -
  from assms obtain a where a: "pb_arr p = Some a" "a \<in> os_heap s" "a \<notin> set (map fst (pb_filter p))"
    "distinct (map fst (pb_filter p))" "set (map fst (pb_filter p)) \<subseteq> os_heap s"
    by (auto simp: pbuf_owned_def pbuf_blocks_def)
  then have "os_heap s - set (map fst (pb_filter p)) - {a} = os_heap s - set (pbuf_blocks p)"
    by (auto simp: pbuf_blocks_def)
  with a show ?thesis by (simp add: dabbad_pbuf_sfp_destroy_def free_all_ok free_def)
qed

lemma sock_filter_pbuf_inverse [simp]: "sock_filter_of_pbuf (pbuf_of_sock_filter f) = f"
  by (cases f) (simp add: sock_filter_of_pbuf_def pbuf_of_sock_filter_def ucast_up_down)

lemma pbuf_sfp_fill_result:
  assumes "heap_wf s" and "pbuf_owned p s"
  shows "\<exists>rc p' s'. pbuf_sfp_fill fs p s = Some ((rc, p'), s') \<and> heap_wf s' \<and>
    (rc = 0 \<and> pbuf_owned p' s' \<and> map snd (pb_filter p') = map snd (pb_filter p) @ map pbuf_of_sock_filter fs \<and>
       os_heap s' - set (pbuf_blocks p') = os_heap s - set (pbuf_blocks p)
     \<or> rc = ENOMEM \<and> p' = dabba__sock_fprog__init \<and> os_heap s' = os_heap s - set (pbuf_blocks p))"
  using assms
proof (induction fs arbitrary: p s)
  case Nil
  then show ?case by simp
next
  case (Cons f fs)
  show ?case
  proof (cases "malloc s")
    case (Pair m s1)
    show ?thesis
    proof (cases m)
      case None
      with Pair malloc_NoneD [of s s1] Cons.prems have "os_heap s1 = os_heap s" "pbuf_owned p s1" "heap_wf s1"
        by (auto simp: pbuf_owned_def heap_wf_def)
      with Pair None show ?thesis by (simp add: dabbad_pbuf_sfp_destroy_ok heap_wf_def)
    next
      case (Some b)
      let ?p = "p\<lparr>pb_filter := pb_filter p @ [(b, pbuf_of_sock_filter f)]\<rparr>"
      have m: "b \<notin> os_heap s" "os_heap s1 = insert b (os_heap s)" "heap_wf s1"
        using malloc_SomeD [of s b s1] Pair Some Cons.prems by auto
      then have "pbuf_owned ?p s1" and blk: "set (pbuf_blocks ?p) = insert b (set (pbuf_blocks p))"
        using Cons.prems by (auto simp: pbuf_owned_def pbuf_blocks_def)
      moreover have "os_heap s1 - set (pbuf_blocks ?p) = os_heap s - set (pbuf_blocks p)"
        using m blk by auto
      ultimately show ?thesis using Cons.IH [of s1 ?p] m Pair Some by simp
    qed
  qed
qed

lemma dabbad_sfp_2_pbuf_sfp_result:
  assumes wf: "heap_wf s" and len: "length (program sfp) = unat (fp_len sfp)"
  shows "\<exists>rc p' s'. dabbad_sfp_2_pbuf_sfp sfp p s = Some ((rc, p'), s') \<and> heap_wf s' \<and>
    (rc = 0 \<and> pbuf_owned p' s' \<and> map snd (pb_filter p') = map pbuf_of_sock_filter (program sfp) \<and>
       os_heap s' - set (pbuf_blocks p') = os_heap s \<or>
     rc = ENOMEM \<and> os_heap s' = os_heap s)"
proof (cases "malloc s")
  case (Pair m s1)
  show ?thesis
  proof (cases m)
    case None
    with Pair malloc_NoneD [of s s1] wf show ?thesis
      by (simp add: dabbad_sfp_2_pbuf_sfp_def heap_wf_def)
  next
    case (Some b)
    let ?p = "p\<lparr>pb_arr := Some b, pb_filter := []\<rparr>"
    have m: "b \<notin> os_heap s" "os_heap s1 = insert b (os_heap s)" "heap_wf s1"
      using malloc_SomeD [of s b s1] Pair Some wf by auto
    then have "pbuf_owned ?p s1" "os_heap s1 - set (pbuf_blocks ?p) = os_heap s"
      by (auto simp: pbuf_owned_def pbuf_blocks_def)
    with pbuf_sfp_fill_result [OF m(3), of ?p "program sfp"] Pair Some len show ?thesis
      by (auto simp: dabbad_sfp_2_pbuf_sfp_def program_def)
  qed
qed

lemma is_valid_defined:
  "unat (fp_len b) \<le> length (fp_filter b) \<Longrightarrow> \<exists>v. ldab_sock_filter_is_valid (Some b) = Some v"
  using sock_filter_scan_defined [of 0 "unat (fp_len b)" "fp_filter b" "fp_len b"]
  by (auto simp: ldab_sock_filter_is_valid_def)

lemma unat_of_nat_u16_le: "unat (of_nat n :: u16) \<le> n"
  by (simp add: unat_of_nat)

text \<open>The program a message stands for: fields and count cut to their kernel widths.\<close>

definition sfp_of_message :: "pbuf_sock_fprog \<Rightarrow> nat \<Rightarrow> sock_fprog" where
  "sfp_of_message p b = \<lparr>fp_len = of_nat (length (pb_filter p)),
     fp_filter = map (sock_filter_of_pbuf \<circ> snd) (pb_filter p), fp_blk = Some b\<rparr>"

lemma is_valid_blk: "ldab_sock_filter_is_valid (Some (f\<lparr>fp_blk := x\<rparr>)) = ldab_sock_filter_is_valid (Some f)"
  by (simp add: ldab_sock_filter_is_valid_def)

lemma dabbad_pbuf_sfp_2_sfp_result:
  assumes wf: "heap_wf s"
  shows "\<exists>rc sfp' s'. dabbad_pbuf_sfp_2_sfp p sfp s = Some ((rc, sfp'), s') \<and> heap_wf s' \<and>
    (rc = 0 \<and> (\<exists>b. sfp' = sfp_of_message p b \<and> b \<notin> os_heap s \<and> os_heap s' = insert b (os_heap s)) \<and>
       ldab_sock_filter_is_valid (Some sfp') = Some 1 \<or>
     rc = EINVAL \<and> os_heap s' = os_heap s \<and>
       (\<forall>b. ldab_sock_filter_is_valid (Some (sfp_of_message p b)) = Some 0) \<or>
     rc = ENOMEM \<and> os_heap s' = os_heap s \<and> fst (malloc s) = None)"
proof (cases "malloc s")
  case (Pair m s1)
  show ?thesis
  proof (cases m)
    case None
    with Pair malloc_NoneD [of s s1] wf show ?thesis
      by (simp add: dabbad_pbuf_sfp_2_sfp_def heap_wf_def)
  next
    case (Some b)
    have m: "b \<notin> os_heap s" "os_heap s1 = insert b (os_heap s)" "heap_wf s1"
      using malloc_SomeD [of s b s1] Pair Some wf by auto
    let ?f = "sfp_of_message p b"
    obtain v where v: "ldab_sock_filter_is_valid (Some ?f) = Some v"
      using is_valid_defined [of ?f] unat_of_nat_u16_le by (auto simp: sfp_of_message_def)
    have vb: "ldab_sock_filter_is_valid (Some (sfp_of_message p b')) = Some v" for b'
      using v is_valid_blk [of "Some b'" ?f] by (simp add: sfp_of_message_def)
    have r: "dabbad_pbuf_sfp_2_sfp p sfp s = (if v = 0 then
        do { (f, s2) \<leftarrow> dabbad_sfp_destroy ?f s1; Some ((EINVAL, f), s2) } else Some ((0, ?f), s1))"
      using v by (cases sfp) (simp add: dabbad_pbuf_sfp_2_sfp_def Pair Some sfp_of_message_def)
    show ?thesis
    proof (cases "v = 0")
      case True
      have "insert b (os_heap s) - {b} = os_heap s" using m by auto
      moreover have "dabbad_sfp_destroy ?f s1 = Some (?f\<lparr>fp_len := 0\<rparr>, s1\<lparr>os_heap := os_heap s1 - {b}\<rparr>)"
        using m by (simp add: dabbad_sfp_destroy_def free_def sfp_of_message_def)
      ultimately show ?thesis using r True m vb by (simp add: heap_wf_def)
    next
      case False
      with r m v sock_filter_validD(3) [OF v] show ?thesis by auto
    qed
  qed
qed

section \<open>Properties\<close>

text \<open>
  C3: an accepted filter never leaves its program or its scratch memory. From the first
  instruction, whatever the packet, every instruction the machine reaches lies inside the program,
  addresses one of the 16 scratch words if it addresses any, and is a return or has a successor.
\<close>

theorem sock_filter_valid_safe:
  assumes "ldab_sock_filter_is_valid (Some b) = Some v" and "v \<noteq> 0"
    and "(bpf_next (program b))\<^sup>*\<^sup>* 0 pc"
  shows "unat pc < unat (fp_len b) \<and>
    (\<forall>m. bpf_slot (program b ! unat pc) = Some m \<longrightarrow> m < 16) \<and>
    (BPF_CLASS (code (program b ! unat pc)) = BPF_RET \<longleftrightarrow> \<not> (\<exists>pc'. bpf_next (program b) pc pc'))"
proof -
  note inside = bpf_run_inside [OF assms]
  have "sock_filter_insn_ok (fp_len b) pc (program b ! unat pc)"
    using sock_filter_validD(5) [OF assms(1,2) inside] by simp
  then have "\<forall>m. bpf_slot (program b ! unat pc) = Some m \<longrightarrow> m < 16" by (blast intro: insn_ok_slot)
  moreover have "BPF_CLASS (code (program b ! unat pc)) = BPF_RET \<longleftrightarrow> \<not> (\<exists>pc'. bpf_next (program b) pc pc')"
    using bpf_next_total [OF inside] bpf_next_ret by blast
  ultimately show ?thesis using inside sock_filter_validD(2) [OF assms(1,2)] by simp
qed

text \<open>An accepted program of three instructions: load, conditional jump, two returns.\<close>

definition sample_filter :: sock_fprog where
  "sample_filter = \<lparr>fp_len = 4, fp_filter =
     [\<lparr>code = 0x28, jt = 0, jf = 0, k = 12\<rparr>, \<lparr>code = 0x15, jt = 0, jf = 1, k = 2048\<rparr>,
      \<lparr>code = 6, jt = 0, jf = 0, k = 65535\<rparr>, \<lparr>code = 6, jt = 0, jf = 0, k = 0\<rparr>], fp_blk = None\<rparr>"

lemma sample_filter_program: "program sample_filter =
   [\<lparr>code = 0x28, jt = 0, jf = 0, k = 12\<rparr>, \<lparr>code = 0x15, jt = 0, jf = 1, k = 2048\<rparr>,
    \<lparr>code = 6, jt = 0, jf = 0, k = 65535\<rparr>, \<lparr>code = 6, jt = 0, jf = 0, k = 0\<rparr>]"
  by (simp add: program_def sample_filter_def)

lemma sample_filter_valid: "ldab_sock_filter_is_valid (Some sample_filter) = Some 1"
  by (simp add: ldab_sock_filter_is_valid_def sample_filter_def sock_filter_insn_ok_def bpf_fields bpf_consts)

theorem sock_filter_valid_safe_witness:
  "ldab_sock_filter_is_valid (Some sample_filter) = Some 1 \<and>
   (bpf_next (program sample_filter))\<^sup>*\<^sup>* 0 1 \<and> unat (1 :: u32) < unat (fp_len sample_filter)"
proof -
  have "bpf_next (program sample_filter) 0 (0 + 1)"
    by (rule bpf_next.seq) (simp_all add: sample_filter_program bpf_fields bpf_consts)
  then have run: "(bpf_next (program sample_filter))\<^sup>*\<^sup>* 0 1" by simp
  from sock_filter_valid_safe [OF sample_filter_valid _ run] run sample_filter_valid show ?thesis by simp
qed

text \<open>
  C6: an accepted filter whose unconditional jumps do not wrap around terminates: a run of \<open>n\<close>
  steps is at instruction \<open>n\<close> or later, so it has fewer steps than the program has
  instructions, and it can always be continued until it is at a return.
\<close>

theorem sock_filter_valid_terminates:
  assumes v: "ldab_sock_filter_is_valid (Some b) = Some v" "v \<noteq> 0" and nw: "no_wrap (program b)"
    and run: "(bpf_next (program b) ^^ n) 0 pc"
  shows "n \<le> unat pc \<and> n < unat (fp_len b)"
proof -
  have len: "length (program b) < 65536" using sock_filter_validD(2) [OF v] by simp
  have "(bpf_next (program b) ^^ n) 0 pc \<Longrightarrow> n \<le> unat pc"
  proof (induction n arbitrary: pc)
    case 0
    show ?case by simp
  next
    case (Suc n)
    then obtain q where "(bpf_next (program b) ^^ n) 0 q" "bpf_next (program b) q pc" by auto
    with Suc.IH [of q] bpf_next_forward [OF _ nw len, of q pc] show ?case by simp
  qed
  moreover have "unat pc < unat (fp_len b)"
    using bpf_run_inside [OF v relpowp_imp_rtranclp [OF run]] sock_filter_validD(2) [OF v] by simp
  ultimately show ?thesis using run by simp
qed

theorem sock_filter_valid_terminates_witness:
  "no_wrap (program sample_filter) \<and> (bpf_next (program sample_filter) ^^ 2) 0 3 \<and>
   2 < unat (fp_len sample_filter)"
proof -
  have nw: "no_wrap (program sample_filter)"
    by (auto simp: no_wrap_def sample_filter_program less_Suc_eq nth_Cons' bpf_fields bpf_consts)
  have "bpf_next (program sample_filter) 0 (0 + 1)"
    by (rule bpf_next.seq) (simp_all add: sample_filter_program bpf_fields bpf_consts)
  moreover have "bpf_next (program sample_filter) 1 (1 + 1 + ucast (jf (program sample_filter ! unat (1 :: u32))))"
    by (rule bpf_next.jf) (simp_all add: sample_filter_program bpf_fields bpf_consts)
  ultimately have run: "(bpf_next (program sample_filter) ^^ 2) 0 3"
    by (auto simp: numeral_2_eq_2 sample_filter_program simp del: relpowp.simps
        intro!: relpowp_Suc_I relpowp_0_I)
  from sock_filter_valid_terminates [OF sample_filter_valid _ nw run] nw run show ?thesis by simp
qed

text \<open>
  The sum in the check of unconditional jumps wraps around, so a jump to itself (offset
  \<open>0xffffffff\<close>) is accepted, and the machine never gets past it.
\<close>

theorem sock_filter_accepts_self_loop:
  "\<exists>b. ldab_sock_filter_is_valid (Some b) = Some 1 \<and> bpf_next (program b) 0 0 \<and>
       {pc. (bpf_next (program b))\<^sup>*\<^sup>* 0 pc} = {0}"
proof -
  let ?b = "\<lparr>fp_len = 2, fp_filter = [\<lparr>code = 5, jt = 0, jf = 0, k = 0xffffffff\<rparr>,
     \<lparr>code = 6, jt = 0, jf = 0, k = 0\<rparr>], fp_blk = None\<rparr>"
  have v: "ldab_sock_filter_is_valid (Some ?b) = Some 1"
    by (simp add: ldab_sock_filter_is_valid_def sock_filter_insn_ok_def bpf_fields bpf_consts)
  have jump: "bpf_next (program ?b) 0 pc' \<longleftrightarrow> pc' = 0" for pc'
    by (auto simp: bpf_next.simps program_def bpf_fields bpf_consts)
  have "pc = 0" if "(bpf_next (program ?b))\<^sup>*\<^sup>* 0 pc" for pc
    using that by (induction rule: rtranclp_induct) (auto simp: jump)
  then have "{pc. (bpf_next (program ?b))\<^sup>*\<^sup>* 0 pc} = {0}" by auto
  with v jump show ?thesis by blast
qed

text \<open>
  C17: the check never rejects a division by the constant 0. The operand selector it compares
  with \<open>BPF_K\<close> shares a bit with the operation code of the division, so it is never \<open>BPF_K\<close>:
  whatever the other bits of the code and whatever \<open>k\<close>, a division instruction passes.
\<close>

theorem sock_filter_accepts_division_by_zero:
  assumes "BPF_CLASS c = BPF_ALU" and "BPF_OP c = BPF_DIV"
  shows "sock_filter_insn_ok n i \<lparr>code = c, jt = j1, jf = j2, k = 0\<rparr>"
proof -
  have "BPF_RVAL c AND 0x10 = BPF_OP c AND 0x10" by (simp add: bpf_fields and.assoc)
  then have "BPF_RVAL c \<noteq> BPF_K" using assms by (auto simp: bpf_consts)
  with assms show ?thesis by (simp add: sock_filter_insn_ok_def bpf_consts)
qed

theorem sock_filter_accepts_division_by_zero_witness:
  "BPF_CLASS 0x34 = BPF_ALU \<and> BPF_OP 0x34 = BPF_DIV \<and>
   sock_filter_insn_ok 2 0 \<lparr>code = 0x34, jt = 0, jf = 0, k = 0\<rparr>"
proof -
  have "BPF_CLASS 0x34 = BPF_ALU" "BPF_OP 0x34 = BPF_DIV" by (simp_all add: bpf_fields bpf_consts)
  with sock_filter_accepts_division_by_zero [OF this] show ?thesis by blast
qed

text \<open>
  C16: converting a message to a kernel filter never corrupts the heap and always returns. It
  succeeds exactly when the converted program passes the validity check and memory was available,
  and then holds one new block; on \<open>EINVAL\<close> and \<open>ENOMEM\<close> nothing stays allocated.
\<close>

theorem dabbad_pbuf_sfp_2_sfp_spec:
  assumes "heap_wf s"
  shows "\<exists>rc sfp' s'. dabbad_pbuf_sfp_2_sfp p sfp s = Some ((rc, sfp'), s') \<and>
    (rc = 0 \<and> (\<exists>b. sfp' = sfp_of_message p b \<and> b \<notin> os_heap s \<and> os_heap s' = insert b (os_heap s)) \<and>
       ldab_sock_filter_is_valid (Some sfp') = Some 1 \<or>
     rc = EINVAL \<and> os_heap s' = os_heap s \<and>
       (\<forall>b. ldab_sock_filter_is_valid (Some (sfp_of_message p b)) = Some 0) \<or>
     rc = ENOMEM \<and> os_heap s' = os_heap s \<and> fst (malloc s) = None)"
  using dabbad_pbuf_sfp_2_sfp_result [OF assms, of p sfp] by blast

theorem dabbad_pbuf_sfp_2_sfp_spec_witness:
  "heap_wf (boot (\<lambda>_. Succeed)) \<and>
   (\<exists>rc sfp' s'. dabbad_pbuf_sfp_2_sfp dabba__sock_fprog__init sample_filter (boot (\<lambda>_. Succeed))
      = Some ((rc, sfp'), s') \<and> rc = EINVAL \<and> os_heap s' = {})"
proof -
  have wf: "heap_wf (boot (\<lambda>_. Succeed))" by (simp add: heap_wf_def)
  have m: "fst (malloc (boot (\<lambda>_. Succeed))) \<noteq> None" by (simp add: malloc_def)
  have iv: "ldab_sock_filter_is_valid (Some (sfp_of_message dabba__sock_fprog__init b)) \<noteq> Some 1" for b
    by (simp add: ldab_sock_filter_is_valid_def sfp_of_message_def dabba__sock_fprog__init_def)
  from dabbad_pbuf_sfp_2_sfp_spec [OF wf, of dabba__sock_fprog__init sample_filter] m iv wf show ?thesis by auto
qed

text \<open>
  C7: a valid filter survives the trip through a message. Converting it to a message and the
  message back to a filter yields the same program whenever both conversions find memory; releasing
  the message afterwards gives back every block the first conversion took, and a conversion
  that runs out of memory keeps none.
\<close>

theorem sfp_message_roundtrip:
  assumes wf: "heap_wf s" and v: "ldab_sock_filter_is_valid (Some sfp) = Some 1"
  shows "\<exists>rc p s1. dabbad_sfp_2_pbuf_sfp sfp p0 s = Some ((rc, p), s1) \<and>
    (rc = ENOMEM \<and> os_heap s1 = os_heap s \<or>
     rc = 0 \<and>
     (\<exists>s2. dabbad_pbuf_sfp_destroy p s1 = Some (dabba__sock_fprog__init, s2) \<and> os_heap s2 = os_heap s) \<and>
     (\<exists>rc' sfp' s3. dabbad_pbuf_sfp_2_sfp p sfp0 s1 = Some ((rc', sfp'), s3) \<and>
        (rc' = ENOMEM \<or> rc' = 0 \<and> program sfp' = program sfp \<and> fp_len sfp' = fp_len sfp)))"
proof -
  note vd = sock_filter_validD [OF v, simplified]
  from dabbad_sfp_2_pbuf_sfp_result [OF wf vd(2), of p0] obtain rc p s1 where r:
    "dabbad_sfp_2_pbuf_sfp sfp p0 s = Some ((rc, p), s1)" and wf1: "heap_wf s1"
    and c: "rc = 0 \<and> pbuf_owned p s1 \<and> map snd (pb_filter p) = map pbuf_of_sock_filter (program sfp) \<and>
       os_heap s1 - set (pbuf_blocks p) = os_heap s \<or> rc = ENOMEM \<and> os_heap s1 = os_heap s"
    by auto
  show ?thesis
  proof (cases "rc = ENOMEM \<and> os_heap s1 = os_heap s")
    case True
    with r show ?thesis by blast
  next
    case False
    with c have own: "rc = 0" "pbuf_owned p s1" "os_heap s1 - set (pbuf_blocks p) = os_heap s"
      and m: "map snd (pb_filter p) = map pbuf_of_sock_filter (program sfp)" by auto
    have flt: "map (sock_filter_of_pbuf \<circ> snd) (pb_filter p) = program sfp"
      using arg_cong [OF m, of "map sock_filter_of_pbuf"] by (simp add: comp_def)
    have len: "of_nat (length (pb_filter p)) = fp_len sfp"
      using arg_cong [OF m, of length] vd(2) by simp
    have prog: "program (sfp_of_message p b) = program sfp" "fp_len (sfp_of_message p b) = fp_len sfp" for b
      using flt len vd(2) by (simp_all add: sfp_of_message_def program_def)
    have ok: "ldab_sock_filter_is_valid (Some (sfp_of_message p b)) \<noteq> Some 0" for b
    proof -
      have le: "unat (fp_len sfp) \<le> length (fp_filter sfp)" using vd(2) by (simp add: program_def)
      have fs: "fp_filter (sfp_of_message p b) = program sfp" using flt by (simp add: sfp_of_message_def)
      have "sock_filter_scan (program sfp) (fp_len sfp) 0 (unat (fp_len sfp)) = Some True"
        unfolding sock_filter_scan_True using vd(2,5) by simp
      then show ?thesis
        using vd(1,2,4) prog(2) fs
        by (auto simp: ldab_sock_filter_is_valid_def last_conv_nth split: if_splits)
    qed
    from dabbad_pbuf_sfp_2_sfp_result [OF wf1, of p sfp0] ok prog
    have again: "\<exists>rc' sfp' s3. dabbad_pbuf_sfp_2_sfp p sfp0 s1 = Some ((rc', sfp'), s3) \<and>
        (rc' = ENOMEM \<or> rc' = 0 \<and> program sfp' = program sfp \<and> fp_len sfp' = fp_len sfp)" by blast
    show ?thesis using r own again dabbad_pbuf_sfp_destroy_ok [OF own(2)] by auto
  qed
qed

theorem sfp_message_roundtrip_witness:
  "\<exists>rc p s1. dabbad_sfp_2_pbuf_sfp sample_filter dabba__sock_fprog__init (boot (\<lambda>_. Succeed)) = Some ((rc, p), s1) \<and>
    (rc = ENOMEM \<and> os_heap s1 = {} \<or> rc = 0 \<and>
     (\<exists>s2. dabbad_pbuf_sfp_destroy p s1 = Some (dabba__sock_fprog__init, s2) \<and> os_heap s2 = {}))"
proof -
  have wf: "heap_wf (boot (\<lambda>_. Succeed))" by (simp add: heap_wf_def)
  from sfp_message_roundtrip [OF wf sample_filter_valid, of dabba__sock_fprog__init sample_filter]
  show ?thesis by auto
qed

end
