(* ===== verification/Packet_Mmap.thy ===== *)
theory Packet_Mmap
  imports Interface
begin

text \<open>
  Packet memory maps, \<^verbatim>\<open>src/libdabba/packet-mmap.c\<close> and \<^verbatim>\<open>packet-mmap.h\<close>: the ring of frames a
  packet socket shares with the kernel. Creation registers the ring on the socket, maps it,
  builds the vector of frame addresses and binds the socket; the first step that fails releases what the
  earlier ones took. Sizes are kept at their widths: the frame count is a \<^verbatim>\<open>size_t\<close>, the
  layout fields and the length of the mapping are 32-bit numbers.
\<close>

section \<open>Data\<close>

definition PACKET_MMAP_RX :: int where "PACKET_MMAP_RX = 5"
definition PACKET_MMAP_TX :: int where "PACKET_MMAP_TX = 13"

definition PACKET_MMAP_ETH_FRAME_LEN :: nat where "PACKET_MMAP_ETH_FRAME_LEN = 2048"
definition PACKET_MMAP_JUMBO_FRAME_LEN :: nat where "PACKET_MMAP_JUMBO_FRAME_LEN = 16384"
definition PACKET_MMAP_SUPER_JUMBO_FRAME_LEN :: nat where "PACKET_MMAP_SUPER_JUMBO_FRAME_LEN = 65536"

lemmas frame_len_defs = PACKET_MMAP_ETH_FRAME_LEN_def PACKET_MMAP_JUMBO_FRAME_LEN_def
  PACKET_MMAP_SUPER_JUMBO_FRAME_LEN_def

text \<open>
  The structure: \<open>buf\<close> is an address (0 is NULL), \<open>vec\<close> the heap block of the vector with the
  address and length of every frame (\<open>None\<close> is NULL).
\<close>

record packet_mmap =
  pm_type :: int
  pf_sock :: int
  ifindex :: int
  layout :: tpacket_req
  used_mask :: u64
  vec :: "(nat \<times> (int \<times> nat) list) option"
  buf :: int

definition zero_layout :: tpacket_req where
  "zero_layout = \<lparr>tp_block_size = 0, tp_block_nr = 0, tp_frame_size = 0, tp_frame_nr = 0\<rparr>"

definition zero_mmap :: packet_mmap where
  "zero_mmap = \<lparr>pm_type = 0, pf_sock = 0, ifindex = 0, layout = zero_layout, used_mask = 0,
     vec = None, buf = 0\<rparr>"

definition packet_mmap_frame_size_is_valid :: "u64 \<Rightarrow> bool" where
  "packet_mmap_frame_size_is_valid frame_size \<longleftrightarrow>
     frame_size \<in> {of_nat PACKET_MMAP_ETH_FRAME_LEN, of_nat PACKET_MMAP_JUMBO_FRAME_LEN,
       of_nat PACKET_MMAP_SUPER_JUMBO_FRAME_LEN}"

text \<open>\<open>powerof2\<close> of \<^verbatim>\<open>sys/param.h\<close>; it holds of 0.\<close>

definition powerof2 :: "'a::len word \<Rightarrow> bool" where
  "powerof2 x \<longleftrightarrow> (x - 1) AND x = 0"

text \<open>The length passed to \<open>mmap\<close> and \<open>munmap\<close>: a product of two 32-bit numbers.\<close>

definition map_len :: "tpacket_req \<Rightarrow> nat" where
  "map_len l = unat (tp_block_size l * tp_block_nr l)"

section \<open>Steps of the creation\<close>

definition packet_mmap_register :: "packet_mmap \<Rightarrow> os \<Rightarrow> (int \<times> packet_mmap) \<times> os" where
  "packet_mmap_register pm s =
     (let (rc, s1) = setsockopt_ring (pf_sock pm) (pm_type pm) (layout pm) s in
      if rc < 0 then ((os_errno s1, pm), s1) else ((0, pm), s1))"

definition packet_mmap_unregister :: "packet_mmap \<Rightarrow> os \<Rightarrow> packet_mmap \<times> os" where
  "packet_mmap_unregister pm s =
     (let pm = pm\<lparr>layout := zero_layout\<rparr>;
          (_, s1) = setsockopt_ring (pf_sock pm) (pm_type pm) (layout pm) s
      in (pm, s1))"

definition packet_mmap_mmap :: "packet_mmap \<Rightarrow> os \<Rightarrow> (int \<times> packet_mmap) \<times> os" where
  "packet_mmap_mmap pm s =
     (let (a, s1) = mmap (map_len (layout pm)) (pf_sock pm) s; pm = pm\<lparr>buf := a\<rparr> in
      if buf pm = MAP_FAILED then ((EINVAL, pm), s1) else ((0, pm), s1))"

definition packet_mmap_munmap :: "packet_mmap \<Rightarrow> os \<Rightarrow> packet_mmap \<times> os" where
  "packet_mmap_munmap pm s =
     (if buf pm \<noteq> 0 then
        let (_, s1) = munmap (buf pm) (map_len (layout pm)) s in (pm\<lparr>buf := 0\<rparr>, s1)
      else (pm, s))"

definition packet_mmap_bind :: "packet_mmap \<Rightarrow> os \<Rightarrow> (int \<times> packet_mmap) \<times> os" where
  "packet_mmap_bind pm s =
     (let (rc, s1) = bind_sock (pf_sock pm) (ifindex pm) s in
      if rc < 0 then ((os_errno s1, pm), s1) else ((0, pm), s1))"

text \<open>The frame addresses: \<open>a * tp_frame_size\<close> is computed in 64 bits.\<close>

definition frame_vector :: "packet_mmap \<Rightarrow> (int \<times> nat) list" where
  "frame_vector pm =
     map (\<lambda>a. (buf pm + int (unat (of_nat a * ucast (tp_frame_size (layout pm)) :: u64)),
               unat (tp_frame_size (layout pm))))
       [0..<unat (tp_frame_nr (layout pm))]"

definition packet_mmap_vector_create :: "packet_mmap \<Rightarrow> os \<Rightarrow> ((int \<times> packet_mmap) \<times> os) option" where
  "packet_mmap_vector_create pm s =
     (if buf pm = 0 then None else
      let (b, s1) = malloc s in
      case b of
        None \<Rightarrow> Some ((ENOMEM, pm\<lparr>vec := None\<rparr>), s1)
      | Some b \<Rightarrow> Some ((0, pm\<lparr>vec := Some (b, frame_vector pm)\<rparr>), s1))"

definition packet_mmap_vector_destroy :: "packet_mmap \<Rightarrow> os \<Rightarrow> os option" where
  "packet_mmap_vector_destroy pm s = free (map_option fst (vec pm)) s"

section \<open>Creation and destruction\<close>

definition ldab_packet_mmap_destroy :: "packet_mmap \<Rightarrow> os \<Rightarrow> (packet_mmap \<times> os) option" where
  "ldab_packet_mmap_destroy pm s =
     do {
       s1 \<leftarrow> packet_mmap_vector_destroy pm s;
       let (pm, s2) = packet_mmap_munmap pm s1;
           (_, s3) = packet_mmap_unregister pm s2
       in Some (zero_mmap, s3)
     }"

text \<open>The table of steps, and the loop over it that stops at the first error.\<close>

definition pkt_mmap_fn :: "(packet_mmap \<Rightarrow> os \<Rightarrow> ((int \<times> packet_mmap) \<times> os) option) list" where
  "pkt_mmap_fn =
     [\<lambda>pm s. Some (packet_mmap_register pm s), \<lambda>pm s. Some (packet_mmap_mmap pm s),
      packet_mmap_vector_create, \<lambda>pm s. Some (packet_mmap_bind pm s)]"

fun run_mmap_fn ::
  "(packet_mmap \<Rightarrow> os \<Rightarrow> ((int \<times> packet_mmap) \<times> os) option) list \<Rightarrow> packet_mmap \<Rightarrow> os \<Rightarrow>
   ((int \<times> packet_mmap) \<times> os) option" where
  "run_mmap_fn [] pm s = Some ((0, pm), s)"
| "run_mmap_fn (fn # fns) pm s =
     do {
       ((rc, pm), s1) \<leftarrow> fn pm s;
       if rc \<noteq> 0 then do { (pm, s2) \<leftarrow> ldab_packet_mmap_destroy pm s1; Some ((rc, pm), s2) }
       else run_mmap_fn fns pm s1
     }"

definition mmap_layout :: "u32 \<Rightarrow> u64 \<Rightarrow> tpacket_req" where
  "mmap_layout frame_size frame_nr =
     \<lparr>tp_block_size = 8 * frame_size, tp_block_nr = ucast (frame_nr div 8),
      tp_frame_size = frame_size, tp_frame_nr = ucast frame_nr\<rparr>"

definition ldab_packet_mmap_create ::
  "packet_mmap \<Rightarrow> string \<Rightarrow> int \<Rightarrow> int \<Rightarrow> u32 \<Rightarrow> u64 \<Rightarrow> os \<Rightarrow> ((int \<times> packet_mmap) \<times> os) option" where
  "ldab_packet_mmap_create pm dev sock ty frame_size frame_nr s =
     (if \<not> powerof2 frame_size \<or> \<not> powerof2 frame_nr then Some ((EINVAL, pm), s) else
      let ((rc, idx), s1) = ldab_devname_to_ifindex dev s;
          pm = zero_mmap\<lparr>ifindex := (case idx of Some i \<Rightarrow> i | None \<Rightarrow> 0)\<rparr>
      in if rc \<noteq> 0 then Some ((rc, pm), s1) else
      let pm = pm\<lparr>pm_type := ty, pf_sock := sock, layout := mmap_layout frame_size frame_nr\<rparr> in
      if tp_frame_nr (layout pm) = 0 \<or> tp_block_nr (layout pm) = 0 then Some ((EINVAL, pm), s1)
      else run_mmap_fn pkt_mmap_fn pm s1)"

section \<open>Facts on the steps\<close>

lemma on_sock_result:
  assumes "on_sock fd f s = (rc, s')"
  shows "rc = 0 \<and> (\<exists>sk. fd_of s fd = Some (Sock sk) \<and> os_fd s' = (os_fd s)(nat fd \<mapsto> Sock (f sk))) \<or>
    rc = -1 \<and> os_errno s' \<noteq> 0 \<and> os_fd s' = os_fd s"
  using assms
  by (auto simp: on_sock_def syscall_def errno_def split: outcome.splits option.splits ofd.splits)

text \<open>The memory maps lie in the address range handed out so far.\<close>

definition maps_wf :: "os \<Rightarrow> bool" where
  "maps_wf s \<longleftrightarrow> (\<forall>a \<in> dom (os_maps s). 0 < a \<and> a \<le> int (os_vm s))"

lemma mmap_result:
  assumes "mmap n fd s = (a, s')"
  shows "a = MAP_FAILED \<and> os_maps s' = os_maps s \<and> os_vm s' = os_vm s \<or>
    a = int (Suc (os_vm s)) \<and> 0 < n \<and> os_maps s' = (os_maps s)(a \<mapsto> n) \<and> os_vm s' = Suc (os_vm s) + n"
  using assms by (auto simp: mmap_def syscall_def MAP_FAILED_def split: outcome.splits if_splits)

section \<open>Geometry\<close>

lemma nat_powerof2:
  fixes n :: nat
  assumes "0 < n" and "n AND (n - 1) = 0"
  shows "\<exists>i. n = 2 ^ i"
  using assms
proof (induction n rule: less_induct)
  case (less n)
  show ?case
  proof (cases "even n")
    case True
    then obtain y where y: "n = 2 * y" by blast
    have pos: "0 < y" using less.prems y by simp
    have "(2 * y - Suc 0) div 2 = y - 1" using pos by simp
    then have "n AND (n - 1) = 2 * (y AND (y - 1))"
      by (subst and_nat_rec) (simp add: y)
    with less.prems less.IH [of y] y pos obtain i where "y = 2 ^ i" by auto
    with y show ?thesis by (metis power_Suc)
  next
    case False
    then obtain y where y: "n = 2 * y + 1" by (metis oddE)
    have "n AND (n - 1) = 2 * y"
      by (subst and_nat_rec) (auto simp: y)
    with less.prems y show ?thesis by (auto intro: exI [of _ 0])
  qed
qed

lemma unat_powerof2:
  fixes x :: "'a::len word"
  assumes "powerof2 x" and "x \<noteq> 0"
  shows "\<exists>i. unat x = 2 ^ i"
proof -
  have "unat ((x - 1) AND x) = unat (x - 1) AND unat x" by (simp add: unsigned_and_eq)
  moreover have "unat (x - 1) = unat x - 1" using assms(2) by (metis unat_minus_one)
  ultimately have "unat x AND (unat x - 1) = 0" using assms(1) by (simp add: powerof2_def and.commute)
  moreover have "0 < unat x" using assms(2) by (simp add: unat_gt_0)
  ultimately show ?thesis using nat_powerof2 by blast
qed

lemma pow2_mod_nonzero: "(2::nat) ^ a mod 2 ^ n \<noteq> 0 \<Longrightarrow> a < n"
  by (metis dvd_imp_mod_0 le_imp_power_dvd not_le)

lemma layout_geometry:
  assumes "powerof2 fs" and "powerof2 n"
    and "tp_frame_nr (mmap_layout fs n) \<noteq> 0" and "tp_block_nr (mmap_layout fs n) \<noteq> 0"
    and "0 < map_len (mmap_layout fs n)"
  shows "map_len (mmap_layout fs n) = unat fs * unat n \<and> unat (tp_frame_nr (mmap_layout fs n)) = unat n \<and>
     unat fs * unat n < 2 ^ 32 \<and> 8 dvd unat n"
proof -
  have nz: "fs \<noteq> 0" "n \<noteq> 0" using assms by (auto simp: mmap_layout_def map_len_def)
  then obtain a b where a: "unat fs = 2 ^ a" and b: "unat n = 2 ^ b"
    using unat_powerof2 assms by metis
  have d: "unat (n div 8) = 2 ^ b div 8" by (simp add: unat_div b)
  then have "b \<ge> 3"
  proof -
    have "n div 8 \<noteq> 0" using assms(4) by (auto simp: mmap_layout_def)
    then have "unat (n div 8) \<noteq> 0" by (simp add: unat_eq_zero)
    then have "2 ^ b \<ge> (8::nat)" using d by (metis div_less not_le)
    then show ?thesis using power_le_imp_le_exp [of "2::nat" 3 b] by simp
  qed
  then obtain c where c: "b = 3 + c" using le_Suc_ex by blast
  then have e: "2 ^ b div 8 = (2 :: nat) ^ c" "(2::nat) ^ b = 8 * 2 ^ c"
    by (simp_all add: power_add)
  have "map_len (mmap_layout fs n) = (8 * 2 ^ a) * (2 ^ c) mod 2 ^ 32"
    by (simp add: map_len_def mmap_layout_def unat_word_ariths(2) a d e unsigned_ucast_eq take_bit_eq_mod mod_mult_eq)
  then have l: "map_len (mmap_layout fs n) = 2 ^ (a + b) mod 2 ^ 32" using e by (simp add: power_add ac_simps)
  with assms(5) have "a + b < 32" using pow2_mod_nonzero [of "a + b" 32] by simp
  then have "2 ^ (a + b) < (2::nat) ^ 32" "2 ^ b < (2::nat) ^ 32" by (simp_all only: power_strict_increasing_iff one_less_numeral_iff semiring_norm)
  with l a b e show ?thesis by (simp add: power_add mmap_layout_def unsigned_ucast_eq take_bit_eq_mod)
qed

section \<open>Resources\<close>

text \<open>What a step may do to the descriptors: rewrite the socket \<open>fd\<close> in place.\<close>

definition sock_only :: "int \<Rightarrow> os \<Rightarrow> os \<Rightarrow> bool" where
  "sock_only fd s s' \<longleftrightarrow> (\<forall>m. int m \<noteq> fd \<longrightarrow> os_fd s' m = os_fd s m) \<and> dom (os_fd s') = dom (os_fd s)"

lemma sock_only_refl: "os_fd s' = os_fd s \<Longrightarrow> sock_only fd s s'"
  by (simp add: sock_only_def)

lemma sock_only_trans: "sock_only fd s s1 \<Longrightarrow> sock_only fd s1 s2 \<Longrightarrow> sock_only fd s s2"
  by (simp add: sock_only_def)

lemma sock_only_on_sock: "sock_only fd s (snd (on_sock fd f s))"
  using on_sock_result [of fd f s "fst (on_sock fd f s)" "snd (on_sock fd f s)"]
  by (auto simp: sock_only_def fd_of_def split: if_splits)

lemma on_sock_spec:
  assumes "on_sock fd f s = (rc, s')"
  shows "sock_only fd s s'" "os_heap s' = os_heap s" "os_brk s' = os_brk s" "os_maps s' = os_maps s" "os_vm s' = os_vm s"
    "rc = 0 \<and> (\<exists>sk. fd_of s fd = Some (Sock sk) \<and> fd_of s' fd = Some (Sock (f sk))) \<or> rc < 0 \<and> os_errno s' \<noteq> 0"
proof -
  show "sock_only fd s s'" using sock_only_on_sock [of fd s f] assms by simp
  show "os_heap s' = os_heap s" "os_brk s' = os_brk s" "os_maps s' = os_maps s" "os_vm s' = os_vm s"
    using on_sock_frame [of fd f s] assms by simp_all
  show "rc = 0 \<and> (\<exists>sk. fd_of s fd = Some (Sock sk) \<and> fd_of s' fd = Some (Sock (f sk))) \<or> rc < 0 \<and> os_errno s' \<noteq> 0"
    using on_sock_result [OF assms] by (auto simp: fd_of_def split: if_splits)
qed

lemma ldab_packet_mmap_destroy_result:
  assumes v: "\<And>b v. vec pm = Some (b, v) \<Longrightarrow> b \<in> os_heap s"
  shows "\<exists>s'. ldab_packet_mmap_destroy pm s = Some (zero_mmap, s') \<and>
    os_heap s' = os_heap s - (case vec pm of None \<Rightarrow> {} | Some (b, _) \<Rightarrow> {b}) \<and>
    os_maps s' = (if buf pm \<noteq> 0 \<and> os_maps s (buf pm) = Some (map_len (layout pm))
                  then (os_maps s)(buf pm := None) else os_maps s) \<and>
    os_brk s' = os_brk s \<and> os_vm s' = os_vm s \<and> sock_only (pf_sock pm) s s'"
proof -
  define s1 where "s1 = s\<lparr>os_heap := os_heap s - (case vec pm of None \<Rightarrow> {} | Some (b, _) \<Rightarrow> {b})\<rparr>"
  have d: "packet_mmap_vector_destroy pm s = Some s1"
    using v by (auto simp: packet_mmap_vector_destroy_def free_def s1_def split: option.splits)
  obtain pm2 s2 where u: "packet_mmap_munmap pm s1 = (pm2, s2)" by force
  then have s2: "pf_sock pm2 = pf_sock pm" "os_fd s2 = os_fd s" "os_heap s2 = os_heap s1" "os_brk s2 = os_brk s" "os_vm s2 = os_vm s"
    "os_maps s2 = (if buf pm \<noteq> 0 \<and> os_maps s (buf pm) = Some (map_len (layout pm))
                  then (os_maps s)(buf pm := None) else os_maps s)"
    by (auto simp: packet_mmap_munmap_def Let_def split_beta s1_def munmap_def split: if_splits)
  obtain r s3 where o: "setsockopt_ring (pf_sock pm) (pm_type pm2) zero_layout s2 = (r, s3)" by force
  note sp = on_sock_spec [OF o [unfolded setsockopt_ring_def]]
  have "packet_mmap_unregister pm2 s2 = (pm2\<lparr>layout := zero_layout\<rparr>, s3)"
    using o s2(1) by (simp add: packet_mmap_unregister_def)
  then have "ldab_packet_mmap_destroy pm s = Some (zero_mmap, s3)"
    by (simp add: ldab_packet_mmap_destroy_def d u)
  moreover have "sock_only (pf_sock pm) s s3"
    using sock_only_trans [OF sock_only_refl [OF s2(2)] sp(1)] .
  ultimately show ?thesis using s2 sp by (simp add: s1_def)
qed

lemma packet_mmap_register_result:
  assumes "packet_mmap_register pm s = ((rc, pm'), s')"
  shows "pm' = pm" "sock_only (pf_sock pm) s s'" "os_heap s' = os_heap s" "os_brk s' = os_brk s"
    "os_maps s' = os_maps s" "os_vm s' = os_vm s"
    "rc = 0 \<Longrightarrow> \<exists>sk. fd_of s' (pf_sock pm) = Some (Sock sk) \<and>
       sk_rings sk (pm_type pm) = (if tp_block_nr (layout pm) = 0 then None else Some (layout pm))"
proof -
  obtain r s1 where o: "setsockopt_ring (pf_sock pm) (pm_type pm) (layout pm) s = (r, s1)" by force
  note sp = on_sock_spec [OF o [unfolded setsockopt_ring_def]]
  from assms o sp have eq: "pm' = pm" "s' = s1" "rc = 0 \<Longrightarrow> r = 0"
    by (auto simp: packet_mmap_register_def split: if_splits)
  show "pm' = pm" "sock_only (pf_sock pm) s s'" "os_heap s' = os_heap s" "os_brk s' = os_brk s"
    "os_maps s' = os_maps s" "os_vm s' = os_vm s" using eq sp by simp_all
  show "rc = 0 \<Longrightarrow> \<exists>sk. fd_of s' (pf_sock pm) = Some (Sock sk) \<and>
       sk_rings sk (pm_type pm) = (if tp_block_nr (layout pm) = 0 then None else Some (layout pm))"
    using eq sp(6) by auto
qed

lemma packet_mmap_bind_result:
  assumes "packet_mmap_bind pm s = ((rc, pm'), s')"
  shows "pm' = pm" "sock_only (pf_sock pm) s s'" "os_heap s' = os_heap s" "os_brk s' = os_brk s"
    "os_maps s' = os_maps s" "os_vm s' = os_vm s"
    "rc = 0 \<Longrightarrow> \<exists>sk. fd_of s (pf_sock pm) = Some (Sock sk) \<and>
       fd_of s' (pf_sock pm) = Some (Sock (sk\<lparr>sk_ifindex := Some (ifindex pm)\<rparr>))"
proof -
  obtain r s1 where o: "bind_sock (pf_sock pm) (ifindex pm) s = (r, s1)" by force
  note sp = on_sock_spec [OF o [unfolded bind_sock_def]]
  from assms o sp have eq: "pm' = pm" "s' = s1" "rc = 0 \<Longrightarrow> r = 0"
    by (auto simp: packet_mmap_bind_def split: if_splits)
  show "pm' = pm" "sock_only (pf_sock pm) s s'" "os_heap s' = os_heap s" "os_brk s' = os_brk s"
    "os_maps s' = os_maps s" "os_vm s' = os_vm s" using eq sp by simp_all
  show "rc = 0 \<Longrightarrow> \<exists>sk. fd_of s (pf_sock pm) = Some (Sock sk) \<and>
       fd_of s' (pf_sock pm) = Some (Sock (sk\<lparr>sk_ifindex := Some (ifindex pm)\<rparr>))"
    using eq sp(6) by auto
qed

lemma packet_mmap_mmap_result:
  assumes "packet_mmap_mmap pm s = ((rc, pm'), s')"
  shows "os_fd s' = os_fd s" "os_heap s' = os_heap s" "os_brk s' = os_brk s" "pm' = pm\<lparr>buf := buf pm'\<rparr>"
    "rc \<noteq> 0 \<Longrightarrow> buf pm' = MAP_FAILED \<and> os_maps s' = os_maps s \<and> os_vm s' = os_vm s"
    "rc = 0 \<Longrightarrow> buf pm' = int (Suc (os_vm s)) \<and> 0 < map_len (layout pm) \<and>
       os_maps s' = (os_maps s)(buf pm' \<mapsto> map_len (layout pm))"
proof -
  obtain a s1 where m: "mmap (map_len (layout pm)) (pf_sock pm) s = (a, s1)" by force
  from assms m have eq: "pm' = pm\<lparr>buf := a\<rparr>" "s' = s1" "rc = (if a = MAP_FAILED then EINVAL else 0)"
    by (auto simp: packet_mmap_mmap_def Let_def split: if_splits)
  show "os_fd s' = os_fd s" "os_heap s' = os_heap s" "os_brk s' = os_brk s"
    using mmap_frame [of "map_len (layout pm)" "pf_sock pm" s] m eq by simp_all
  show "pm' = pm\<lparr>buf := buf pm'\<rparr>" using eq by simp
  show "rc \<noteq> 0 \<Longrightarrow> buf pm' = MAP_FAILED \<and> os_maps s' = os_maps s \<and> os_vm s' = os_vm s"
    using mmap_result [OF m] eq by (auto simp: MAP_FAILED_def)
  show "rc = 0 \<Longrightarrow> buf pm' = int (Suc (os_vm s)) \<and> 0 < map_len (layout pm) \<and>
       os_maps s' = (os_maps s)(buf pm' \<mapsto> map_len (layout pm))"
    using mmap_result [OF m] eq by (auto split: if_splits)
qed


lemma maps_wf_None: "maps_wf s \<Longrightarrow> a \<le> 0 \<or> int (os_vm s) < a \<Longrightarrow> os_maps s a = None"
  unfolding maps_wf_def by (metis domIff leD not_le)

lemma frame_vector_eq:
  assumes "unat (tp_frame_size (layout pm)) * unat (tp_frame_nr (layout pm)) < 2 ^ 32"
  shows "frame_vector pm = map (\<lambda>a. (buf pm + int (a * unat (tp_frame_size (layout pm))), unat (tp_frame_size (layout pm))))
    [0..<unat (tp_frame_nr (layout pm))]"
proof -
  have "a * unat (tp_frame_size (layout pm)) < 2 ^ 64" if "a < unat (tp_frame_nr (layout pm))" for a
  proof -
    have "a * unat (tp_frame_size (layout pm)) \<le> unat (tp_frame_nr (layout pm)) * unat (tp_frame_size (layout pm))"
      using that by simp
    also have "\<dots> < 2 ^ 32" using assms by (simp add: mult.commute)
    finally show ?thesis by simp
  qed
  then show ?thesis
    by (auto simp: frame_vector_def unat_word_ariths(2) unat_of_nat unsigned_ucast_eq take_bit_eq_mod mod_mult_right_eq mod_mult_left_eq
        mod_mult_eq)
qed

text \<open>
  A ring ready for use: the mapping holds all frames, the vector lists them in order, and the
  socket has the ring and is bound.
\<close>

definition ring_ready :: "packet_mmap \<Rightarrow> os \<Rightarrow> bool" where
  "ring_ready pm s \<longleftrightarrow> (let fs = unat (tp_frame_size (layout pm)); n = unat (tp_frame_nr (layout pm)) in
     0 < fs \<and> 0 < n \<and> 0 < buf pm \<and> os_maps s (buf pm) = Some (fs * n) \<and> map_len (layout pm) = fs * n \<and>
     (\<exists>b \<in> os_heap s. vec pm = Some (b, map (\<lambda>a. (buf pm + int (a * fs), fs)) [0..<n])) \<and>
     (\<exists>sk. fd_of s (pf_sock pm) = Some (Sock sk) \<and> sk_rings sk (pm_type pm) = Some (layout pm) \<and>
        sk_ifindex sk = Some (ifindex pm)))"

lemma run_pkt_mmap_fn:
  assumes wf: "heap_wf s" and mw: "maps_wf s"
    and pm: "vec pm = None" "buf pm = 0" "layout pm = mmap_layout fs n" and pw: "powerof2 fs" "powerof2 n"
    and nz: "tp_frame_nr (layout pm) \<noteq> 0" "tp_block_nr (layout pm) \<noteq> 0"
  shows "\<exists>rc pm' s'. run_mmap_fn pkt_mmap_fn pm s = Some ((rc, pm'), s') \<and> sock_only (pf_sock pm) s s' \<and>
    (rc = 0 \<and> ring_ready pm' s' \<and> pf_sock pm' = pf_sock pm \<and> pm_type pm' = pm_type pm \<and> ifindex pm' = ifindex pm \<and>
       layout pm' = layout pm \<and> buf pm' \<notin> dom (os_maps s) \<and> os_maps s' = (os_maps s)(buf pm' \<mapsto> map_len (layout pm)) \<and>
       (\<exists>b v. vec pm' = Some (b, v) \<and> b \<notin> os_heap s \<and> os_heap s' = insert b (os_heap s)) \<or>
     rc \<noteq> 0 \<and> pm' = zero_mmap \<and> os_heap s' = os_heap s \<and> os_maps s' = os_maps s)"
proof -
  let ?sk = "pf_sock pm"
  obtain rc1 pm1 s1 where r1: "packet_mmap_register pm s = ((rc1, pm1), s1)" by (metis surj_pair)
  note f1 = packet_mmap_register_result [OF r1]
  obtain rc2 pm2 s2 where r2: "packet_mmap_mmap pm s1 = ((rc2, pm2), s2)" by (metis surj_pair)
  note f2 = packet_mmap_mmap_result [OF r2]
  from f2(4) obtain a where a: "pm2 = pm\<lparr>buf := a\<rparr>" by blast
  obtain b3 s3 where r3: "malloc s2 = (b3, s3)" by force
  note m3 = malloc_frame [of s2, unfolded r3 snd_conv]
  define pm3 where "pm3 = pm2\<lparr>vec := map_option (\<lambda>b. (b, frame_vector pm2)) b3\<rparr>"
  obtain rc4 pm4 s4 where r4: "packet_mmap_bind pm3 s3 = ((rc4, pm4), s4)" by (metis surj_pair)
  note f4 = packet_mmap_bind_result [OF r4]
  have pm3: "pf_sock pm3 = ?sk" "buf pm3 = a" "layout pm3 = layout pm" "ifindex pm3 = ifindex pm" "pm_type pm3 = pm_type pm"
    by (simp_all add: pm3_def a)
  have so2: "sock_only ?sk s s2" using f1(2) f2(1) by (auto simp: sock_only_def)
  have so3: "sock_only ?sk s s3" using so2 m3 by (auto simp: sock_only_def)
  have so4: "sock_only ?sk s s4" using sock_only_trans [OF so3] f4(2) pm3 by simp
  have run: "run_mmap_fn pkt_mmap_fn pm s =
    (if rc1 \<noteq> 0 then do { (pm, s') \<leftarrow> ldab_packet_mmap_destroy pm s1; Some ((rc1, pm), s') }
     else if rc2 \<noteq> 0 then do { (pm, s') \<leftarrow> ldab_packet_mmap_destroy pm2 s2; Some ((rc2, pm), s') }
     else if a = 0 then None
     else if b3 = None then do { (pm, s') \<leftarrow> ldab_packet_mmap_destroy pm3 s3; Some ((ENOMEM, pm), s') }
     else if rc4 \<noteq> 0 then do { (pm, s') \<leftarrow> ldab_packet_mmap_destroy pm3 s4; Some ((rc4, pm), s') }
     else Some ((0, pm3), s4))"
    using r1 f1(1) r2 a r3 r4 f4(1)
    by (auto simp: pkt_mmap_fn_def packet_mmap_vector_create_def pm3_def split: option.splits)
  consider (reg) "rc1 \<noteq> 0" | (map) "rc1 = 0" "rc2 \<noteq> 0" | (vec) "rc1 = 0" "rc2 = 0" "b3 = None"
    | (bind) b where "rc1 = 0" "rc2 = 0" "b3 = Some b" "rc4 \<noteq> 0"
    | (ok) b where "rc1 = 0" "rc2 = 0" "b3 = Some b" "rc4 = 0" by blast
  then show ?thesis
  proof cases
    case reg
    from ldab_packet_mmap_destroy_result [of pm s1] pm obtain s' where
      "ldab_packet_mmap_destroy pm s1 = Some (zero_mmap, s')" "os_heap s' = os_heap s1" "os_maps s' = os_maps s1"
      "sock_only ?sk s1 s'" by auto
    with reg run f1 sock_only_trans [OF f1(2)] show ?thesis by auto
  next
    case map
    then have "a = MAP_FAILED" "os_maps s2 = os_maps s" using f2(5) a f1 by auto
    moreover have "os_maps s MAP_FAILED = None" using mw by (simp add: maps_wf_None MAP_FAILED_def)
    ultimately obtain s' where
      "ldab_packet_mmap_destroy pm2 s2 = Some (zero_mmap, s')" "os_heap s' = os_heap s" "os_maps s' = os_maps s"
      "sock_only ?sk s2 s'"
      using ldab_packet_mmap_destroy_result [of pm2 s2] pm a f1 f2 by auto
    with map run sock_only_trans [OF so2] show ?thesis by auto
  next
    case vec
    have fr: "os_maps s2 = (os_maps s)(a \<mapsto> map_len (layout pm))" "os_maps s a = None" "a \<noteq> 0"
      using f2(6) vec a f1 maps_wf_None [OF mw] by auto
    then obtain s' where
      "ldab_packet_mmap_destroy pm3 s3 = Some (zero_mmap, s')" "os_heap s' = os_heap s" "os_maps s' = os_maps s"
      "sock_only ?sk s3 s'"
      using ldab_packet_mmap_destroy_result [of pm3 s3] vec pm3 f1 f2 m3 malloc_NoneD [of s2 s3] r3
      by (auto simp: pm3_def a pm fun_upd_idem)
    with vec run fr sock_only_trans [OF so3] show ?thesis by auto
  next
    case bind
    have fr: "os_maps s2 = (os_maps s)(a \<mapsto> map_len (layout pm))" "os_maps s a = None" "a \<noteq> 0"
      using f2(6) bind a f1 maps_wf_None [OF mw] by auto
    have h: "b \<notin> os_heap s" "os_heap s3 = insert b (os_heap s)"
      using malloc_SomeD [of s2 b s3] r3 bind wf f1 f2 by (auto simp: heap_wf_def)
    then obtain s' where
      "ldab_packet_mmap_destroy pm3 s4 = Some (zero_mmap, s')" "os_heap s' = os_heap s" "os_maps s' = os_maps s"
      "sock_only ?sk s4 s'"
      using ldab_packet_mmap_destroy_result [of pm3 s4] bind pm3 fr f4 m3 by (auto simp: pm3_def fun_upd_idem)
    with bind run fr sock_only_trans [OF so4] show ?thesis by auto
  next
    case ok
    have fr: "os_maps s2 = (os_maps s)(a \<mapsto> map_len (layout pm))" "os_maps s a = None" "0 < a" "0 < map_len (layout pm)"
      using f2(6) ok a f1 maps_wf_None [OF mw] by auto
    have h: "b \<notin> os_heap s" "os_heap s4 = insert b (os_heap s)"
      using malloc_SomeD [of s2 b s3] r3 ok wf f1 f2 f4(3) by (auto simp: heap_wf_def)
    have geo: "map_len (layout pm) = unat fs * unat n" "unat (tp_frame_nr (layout pm)) = unat n"
      "tp_frame_size (layout pm) = fs" "unat fs * unat n < 2 ^ 32"
      using layout_geometry [OF pw] nz fr pm by (simp_all add: mmap_layout_def)
    have fv: "frame_vector pm2 = map (\<lambda>i. (a + int (i * unat fs), unat fs)) [0..<unat n]"
      using frame_vector_eq [of pm2] geo by (simp add: a)
    have sk: "\<exists>sk. fd_of s4 ?sk = Some (Sock sk) \<and> sk_rings sk (pm_type pm) = Some (layout pm) \<and>
        sk_ifindex sk = Some (ifindex pm)"
    proof -
      from f1(7) ok nz obtain sk where "fd_of s1 ?sk = Some (Sock sk)" "sk_rings sk (pm_type pm) = Some (layout pm)" by auto
      moreover have "fd_of s3 ?sk = fd_of s1 ?sk" using m3 f2(1) by (simp add: fd_of_def)
      ultimately show ?thesis using f4(7) ok pm3 by auto
    qed
    have "ring_ready pm3 s4"
      using fr(3,4) geo h fv sk pm3 fr(1) m3 f4(5) ok
      by (auto simp: ring_ready_def Let_def pm3_def a)
    with ok run fr h so4 pm3 m3 f4 show ?thesis
      by (auto simp: pm3_def)
  qed
qed

lemma create_result:
  assumes wf: "heap_wf s" and mw: "maps_wf s"
  shows "\<exists>rc pm' s'. ldab_packet_mmap_create pm dev sock ty fs n s = Some ((rc, pm'), s') \<and>
    sock_only sock s s' \<and>
    (rc = 0 \<and> ring_ready pm' s' \<and> layout pm' = mmap_layout fs n \<and> pf_sock pm' = sock \<and> pm_type pm' = ty \<and>
       ifindex pm' = (case snd (fst (ldab_devname_to_ifindex dev s)) of Some i \<Rightarrow> i | None \<Rightarrow> 0) \<and>
       buf pm' \<notin> dom (os_maps s) \<and> os_maps s' = (os_maps s)(buf pm' \<mapsto> map_len (layout pm')) \<and>
       (\<exists>b v. vec pm' = Some (b, v) \<and> b \<notin> os_heap s \<and> os_heap s' = insert b (os_heap s)) \<or>
     rc \<noteq> 0 \<and> os_heap s' = os_heap s \<and> os_maps s' = os_maps s)"
proof (cases "powerof2 fs \<and> powerof2 n")
  case False
  then have "ldab_packet_mmap_create pm dev sock ty fs n s = Some ((EINVAL, pm), s)"
    by (auto simp: ldab_packet_mmap_create_def)
  then show ?thesis by (simp add: sock_only_def)
next
  case True
  obtain rc idx s1 where d: "ldab_devname_to_ifindex dev s = ((rc, idx), s1)" by (metis surj_pair)
  note fr = ldab_devname_to_ifindex_frame [of dev s, unfolded d snd_conv]
  have wf1: "heap_wf s1" "maps_wf s1" using wf mw fr by (simp_all add: heap_wf_def maps_wf_def)
  have so: "sock_only sock s s1" using fr by (simp add: sock_only_def)
  define pm1 where "pm1 = zero_mmap\<lparr>ifindex := (case idx of Some i \<Rightarrow> i | None \<Rightarrow> 0), pm_type := ty,
    pf_sock := sock, layout := mmap_layout fs n\<rparr>"
  have pm1: "vec pm1 = None" "buf pm1 = 0" "layout pm1 = mmap_layout fs n" "pf_sock pm1 = sock" "pm_type pm1 = ty"
    "ifindex pm1 = (case idx of Some i \<Rightarrow> i | None \<Rightarrow> 0)"
    by (simp_all add: pm1_def zero_mmap_def)
  have cr: "ldab_packet_mmap_create pm dev sock ty fs n s =
    (if rc \<noteq> 0 then Some ((rc, zero_mmap\<lparr>ifindex := (case idx of Some i \<Rightarrow> i | None \<Rightarrow> 0)\<rparr>), s1)
     else if tp_frame_nr (mmap_layout fs n) = 0 \<or> tp_block_nr (mmap_layout fs n) = 0 then Some ((EINVAL, pm1), s1)
     else run_mmap_fn pkt_mmap_fn pm1 s1)"
    using True by (simp add: ldab_packet_mmap_create_def d pm1_def Let_def)
  show ?thesis
  proof (cases "rc = 0 \<and> tp_frame_nr (mmap_layout fs n) \<noteq> 0 \<and> tp_block_nr (mmap_layout fs n) \<noteq> 0")
    case False
    then show ?thesis using cr so fr by auto
  next
    case ok: True
    from run_pkt_mmap_fn [OF wf1 pm1(1-3)] True ok pm1 cr fr d sock_only_trans [OF so] show ?thesis
      by auto
  qed
qed

text \<open>Without failures of the environment, a ring on all interfaces is created for every sane geometry.\<close>

lemma create_any_ok:
  assumes ok: "faultless s" and sk: "fd_of s sock = Some (Sock sk)" and pw: "powerof2 fs" "powerof2 n"
    and nz: "tp_frame_nr (mmap_layout fs n) \<noteq> 0" "tp_block_nr (mmap_layout fs n) \<noteq> 0" "map_len (mmap_layout fs n) \<noteq> 0"
  shows "\<exists>pm' s'. ldab_packet_mmap_create pm ANY_INTERFACE sock ty fs n s = Some ((0, pm'), s')"
  using assms fd_of_Some_nonneg [OF sk]
  by (simp add: ldab_packet_mmap_create_def ldab_devname_to_ifindex_def pkt_mmap_fn_def packet_mmap_register_def
     packet_mmap_mmap_def packet_mmap_vector_create_def packet_mmap_bind_def setsockopt_ring_def bind_sock_def
     on_sock_def syscall_def faultlessD mmap_def malloc_def Let_def MAP_FAILED_def zero_mmap_def tick_def
     set_fd_def fd_of_def)

text \<open>A small ring for concrete runs: eight frames of 64 bytes, mapped at address 4096.\<close>

definition sample_ring :: packet_mmap where
  "sample_ring = \<lparr>pm_type = PACKET_MMAP_RX, pf_sock = 3, ifindex = 0, layout = mmap_layout 64 8, used_mask = 0,
     vec = Some (1, map (\<lambda>a. (4096 + int (a * 64), 64)) [0..<8]), buf = 4096\<rparr>"

definition sample_os :: os where
  "sample_os = (boot (\<lambda>_. Succeed))\<lparr>os_heap := {1}, os_maps := [4096 \<mapsto> 512],
     os_fd := [3 \<mapsto> Sock (fresh_sock\<lparr>sk_rings := [PACKET_MMAP_RX \<mapsto> mmap_layout 64 8], sk_ifindex := Some 0\<rparr>),
               4 \<mapsto> Reg 0 0 True True False]\<rparr>"

lemma sample_ring_layout [simp]:
  "unat (tp_frame_size (layout sample_ring)) = 64" "unat (tp_frame_nr (layout sample_ring)) = 8"
  by (simp_all add: sample_ring_def mmap_layout_def)

lemma sample_ring_ready: "ring_ready sample_ring sample_os"
  by (simp add: ring_ready_def sample_ring_def sample_os_def mmap_layout_def map_len_def fd_of_def)

text \<open>Equal pieces one after the other: they do not overlap, and together they make up the whole.\<close>

lemma frames_apart:
  fixes i j f :: nat
  assumes "i \<noteq> j"
  shows "{x + int (i * f)..<x + int (i * f) + int f} \<inter> {x + int (j * f)..<x + int (j * f) + int f} = {}"
proof -
  have step: "a * f + f \<le> c * f" if "a < c" for a c :: nat
    using mult_le_mono1 [of "Suc a" c f] that by simp
  have "i * f + f \<le> j * f \<or> j * f + f \<le> i * f" using step assms by (metis linorder_neq_iff)
  then show ?thesis by (auto simp del: of_nat_mult)
qed

lemma frames_tile:
  "(\<Union>(base, size) \<in> set (map (\<lambda>a. (x + int (a * f), f)) [0..<n]). {base..<base + int size}) = {x..<x + int (f * n)}"
proof (induction n)
  case (Suc n)
  have "{x..<x + int (f * n)} \<union> {x + int (f * n)..<x + int (f * n) + int f} = {x..<x + int (f * n) + int f}"
    by (intro ivl_disj_un_two(3)) simp_all
  with Suc show ?case by (simp add: Un_commute algebra_simps)
qed simp

text \<open>A 64-bit power of two that is not 0 in 32 bits is the same number there.\<close>

lemma powerof2_ucast:
  fixes n :: u64
  assumes "powerof2 n" and "(ucast n :: u32) \<noteq> 0"
  shows "unat (ucast n :: u32) = unat n"
proof -
  from assms(2) have "n \<noteq> 0" by auto
  from unat_powerof2 [OF assms(1) this] obtain k where k: "unat n = 2 ^ k" by blast
  have u: "unat (ucast n :: u32) = unat n mod 2 ^ 32" by (simp add: unsigned_ucast_eq take_bit_eq_mod)
  moreover have "unat (ucast n :: u32) \<noteq> 0" using assms(2) by (simp add: unat_eq_zero)
  ultimately have "(2 :: nat) ^ k mod 2 ^ 32 \<noteq> 0" by (metis k)
  then have "k < 32" by (rule pow2_mod_nonzero)
  then have "(2 :: nat) ^ k < 2 ^ 32" by (intro power_strict_increasing) simp_all
  then show ?thesis unfolding u k by (rule mod_less)
qed

section \<open>Properties\<close>

text \<open>
  C4: creating a packet ring always returns and is all or nothing. On success the ring is ready:
  the mapping holds exactly the requested number of frames of the requested size, although its length is
  a 32-bit product, one new heap block holds the vector and one new map the frames. On any
  failure no heap block and no map is left behind. No descriptor but the given socket changes.
\<close>

theorem ldab_packet_mmap_create_spec:
  assumes "heap_wf s" and "maps_wf s"
  shows "\<exists>rc pm' s'. ldab_packet_mmap_create pm dev sock ty fs n s = Some ((rc, pm'), s') \<and>
    sock_only sock s s' \<and>
    (rc = 0 \<and> ring_ready pm' s' \<and> layout pm' = mmap_layout fs n \<and> pf_sock pm' = sock \<and>
       os_maps s' = (os_maps s)(buf pm' \<mapsto> map_len (layout pm')) \<and>
       (\<exists>b. b \<notin> os_heap s \<and> os_heap s' = insert b (os_heap s)) \<or>
     rc \<noteq> 0 \<and> os_heap s' = os_heap s \<and> os_maps s' = os_maps s)"
  using create_result [OF assms, of pm dev sock ty fs n] by blast

theorem ldab_packet_mmap_create_spec_witness:
  "heap_wf (boot (\<lambda>_. Succeed)) \<and> maps_wf (boot (\<lambda>_. Succeed)) \<and>
   (\<exists>rc pm' s'. ldab_packet_mmap_create zero_mmap ''any'' 2 PACKET_MMAP_RX 2048 16 (boot (\<lambda>_. Succeed)) = Some ((rc, pm'), s') \<and>
     sock_only 2 (boot (\<lambda>_. Succeed)) s')"
proof -
  have "heap_wf (boot (\<lambda>_. Succeed))" "maps_wf (boot (\<lambda>_. Succeed))" by (simp_all add: heap_wf_def maps_wf_def)
  with ldab_packet_mmap_create_spec [OF this, of zero_mmap "''any''" 2 PACKET_MMAP_RX 2048 16] show ?thesis by blast
qed

text \<open>
  C9: the frames a creation hands out tile the mapping it made. After a successful creation the vector has the requested
  number of frames, each of the requested size, two different frames share no byte, and together they are exactly the
  bytes of the mapping, which did not exist before: no frame reaches outside and nothing of the mapping is left over, although the
  offsets are computed with wrap-around.
\<close>

theorem ring_frames_disjoint:
  assumes wf: "heap_wf s" "maps_wf s" and cr: "ldab_packet_mmap_create pm dev sock ty fs n s = Some ((0, pm'), s')"
  shows "\<exists>b v len. vec pm' = Some (b, v) \<and> os_maps s (buf pm') = None \<and> os_maps s' (buf pm') = Some len \<and>
    length v = unat n \<and> (\<forall>(base, size) \<in> set v. size = unat fs) \<and>
    (\<Union>(base, size) \<in> set v. {base..<base + int size}) = {buf pm'..<buf pm' + int len} \<and>
    (\<forall>i < length v. \<forall>j < length v. i \<noteq> j \<longrightarrow>
       {fst (v ! i)..<fst (v ! i) + int (snd (v ! i))} \<inter> {fst (v ! j)..<fst (v ! j) + int (snd (v ! j))} = {})"
proof -
  from create_result [OF wf, of pm dev sock ty fs n] cr have r: "ring_ready pm' s'" "layout pm' = mmap_layout fs n" "buf pm' \<notin> dom (os_maps s)"
    by auto
  have "powerof2 n" using cr by (auto simp: ldab_packet_mmap_create_def EINVAL_def split: if_splits)
  then have n: "unat (ucast n :: u32) = unat n"
    using r(1,2) by (intro powerof2_ucast) (auto simp: ring_ready_def mmap_layout_def Let_def)
  let ?f = "unat fs" and ?n = "unat n"
  let ?v = "map (\<lambda>a. (buf pm' + int (a * ?f), ?f)) [0..<?n]"
  from r(1,2) obtain b where v: "vec pm' = Some (b, ?v)" and len: "os_maps s' (buf pm') = Some (?f * ?n)"
    by (auto simp: ring_ready_def mmap_layout_def Let_def n)
  have tiles: "(\<Union>(base, size) \<in> set ?v. {base..<base + int size}) = {buf pm'..<buf pm' + int (?f * ?n)}" by (rule frames_tile)
  have "{fst (?v ! i)..<fst (?v ! i) + int (snd (?v ! i))} \<inter> {fst (?v ! j)..<fst (?v ! j) + int (snd (?v ! j))} = {}"
    if "i < length ?v" "j < length ?v" "i \<noteq> j" for i j
    using frames_apart [OF that(3), of "buf pm'" ?f] that(1,2) by (simp del: of_nat_mult)
  with v len tiles r(3) show ?thesis by (intro exI [of _ b] exI [of _ ?v] exI [of _ "?f * ?n"]) (auto simp: domIff)
qed

theorem ring_frames_disjoint_witness:
  "\<exists>pm' s' b v. ldab_packet_mmap_create zero_mmap ANY_INTERFACE 2 PACKET_MMAP_RX 2048 16 (boot (\<lambda>_. Succeed)) = Some ((0, pm'), s') \<and>
     vec pm' = Some (b, v) \<and> length v = 16 \<and> (\<Union>(base, size) \<in> set v. {base..<base + int size}) \<noteq> {}"
proof -
  let ?s = "boot (\<lambda>_. Succeed)"
  have wf: "heap_wf ?s" "maps_wf ?s" by (simp_all add: heap_wf_def maps_wf_def)
  have "faultless ?s" "fd_of ?s 2 = Some (Sock fresh_sock)" by (simp_all add: faultless_def fd_of_def)
  from create_any_ok [OF this, of 2048 16 zero_mmap PACKET_MMAP_RX] obtain pm' s' where cr:
    "ldab_packet_mmap_create zero_mmap ANY_INTERFACE 2 PACKET_MMAP_RX 2048 16 ?s = Some ((0, pm'), s')"
    by (auto simp: powerof2_def mmap_layout_def map_len_def)
  from ring_frames_disjoint [OF wf cr] obtain b v where v: "vec pm' = Some (b, v)" "length v = 16" "\<forall>(base, size) \<in> set v. size = 2048" by auto
  then have "v ! 0 \<in> set v" "snd (v ! 0) = 2048" by (auto simp: split_beta)
  then have "fst (v ! 0) \<in> (\<Union>(base, size) \<in> set v. {base..<base + int size})" by (auto intro!: bexI [of _ "v ! 0"] simp: split_beta)
  with cr v show ?thesis by blast
qed

text \<open>
  C8: destroying a ring undoes its creation: after a successful creation, destruction succeeds,
  the heap and the memory maps are those before the creation, and the structure is all zeroes.
\<close>

theorem packet_mmap_create_destroy:
  assumes wf: "heap_wf s" "maps_wf s"
    and cr: "ldab_packet_mmap_create pm dev sock ty fs n s = Some ((0, pm'), s1)"
  shows "\<exists>s2. ldab_packet_mmap_destroy pm' s1 = Some (zero_mmap, s2) \<and>
    os_heap s2 = os_heap s \<and> os_maps s2 = os_maps s \<and> sock_only sock s s2"
proof -
  from create_result [OF wf, of pm dev sock ty fs n] cr obtain b v where
    c: "sock_only sock s s1" "pf_sock pm' = sock" "buf pm' \<notin> dom (os_maps s)"
    "os_maps s1 = (os_maps s)(buf pm' \<mapsto> map_len (layout pm'))" "vec pm' = Some (b, v)" "b \<notin> os_heap s"
    "os_heap s1 = insert b (os_heap s)" by auto
  from create_result [OF wf, of pm dev sock ty fs n] cr have buf: "buf pm' \<noteq> 0"
    by (auto simp: ring_ready_def Let_def)
  from ldab_packet_mmap_destroy_result [of pm' s1] c buf obtain s2 where
    "ldab_packet_mmap_destroy pm' s1 = Some (zero_mmap, s2)" "os_heap s2 = os_heap s" "os_maps s2 = os_maps s"
    "sock_only sock s1 s2" by (auto simp: fun_upd_idem domIff)
  with sock_only_trans [OF c(1)] show ?thesis by blast
qed

theorem packet_mmap_create_destroy_witness:
  "\<exists>pm' s1 s2. ldab_packet_mmap_create zero_mmap ANY_INTERFACE 2 PACKET_MMAP_RX 2048 16 (boot (\<lambda>_. Succeed)) = Some ((0, pm'), s1) \<and>
     ldab_packet_mmap_destroy pm' s1 = Some (zero_mmap, s2) \<and> os_heap s2 = {} \<and> os_maps s2 = Map.empty"
proof -
  let ?s = "boot (\<lambda>_. Succeed)"
  have wf: "heap_wf ?s" "maps_wf ?s" by (simp_all add: heap_wf_def maps_wf_def)
  have "faultless ?s" "fd_of ?s 2 = Some (Sock fresh_sock)" by (simp_all add: faultless_def fd_of_def)
  from create_any_ok [OF this, of 2048 16 zero_mmap PACKET_MMAP_RX] obtain pm' s1 where cr:
    "ldab_packet_mmap_create zero_mmap ANY_INTERFACE 2 PACKET_MMAP_RX 2048 16 ?s = Some ((0, pm'), s1)"
    by (auto simp: powerof2_def mmap_layout_def map_len_def)
  from packet_mmap_create_destroy [OF wf cr] cr show ?thesis by auto
qed

end
