(* ===== verification/Ring.thy ===== *)
theory Ring
  imports Packet_Mmap Pcap
begin

text \<open>
  The memory a packet ring shares with the kernel: a sequence of bytes, frame after frame, each
  starting with a \<^verbatim>\<open>struct tpacket_hdr\<close> (linux/if_packet.h, 64-bit layout: status at 0, length at
  8, captured length at 12, data offset at 16, seconds at 20, microseconds at 24). Accesses are
  checked: an access outside the mapping is \<open>None\<close>. The interface \<open>frame_store\<close> states what the receive and
  transmit loops rely on when they work on one frame of many.
\<close>

section \<open>Checked accesses\<close>

definition mem_read :: "nat \<Rightarrow> nat \<Rightarrow> byte list \<Rightarrow> byte list option" where
  "mem_read off n mem = (if off + n \<le> length mem then Some (take n (drop off mem)) else None)"

definition mem_write :: "nat \<Rightarrow> byte list \<Rightarrow> byte list \<Rightarrow> byte list option" where
  "mem_write off bs mem =
     (if off + length bs \<le> length mem then Some (take off mem @ bs @ drop (off + length bs) mem) else None)"

definition TP_STATUS_KERNEL :: u64 where "TP_STATUS_KERNEL = 0"
definition TP_STATUS_USER :: u64 where "TP_STATUS_USER = 1"
definition TP_STATUS_AVAILABLE :: u64 where "TP_STATUS_AVAILABLE = 0"
definition TP_STATUS_SEND_REQUEST :: u64 where "TP_STATUS_SEND_REQUEST = 1"

lemmas tp_status_defs = TP_STATUS_KERNEL_def TP_STATUS_USER_def TP_STATUS_AVAILABLE_def TP_STATUS_SEND_REQUEST_def

definition tp_status_off :: nat where "tp_status_off = 0"
definition tp_len_off :: nat where "tp_len_off = 8"
definition tp_snaplen_off :: nat where "tp_snaplen_off = 12"
definition tp_mac_off :: nat where "tp_mac_off = 16"
definition tp_sec_off :: nat where "tp_sec_off = 20"
definition tp_usec_off :: nat where "tp_usec_off = 24"

lemmas tp_offs = tp_status_off_def tp_len_off_def tp_snaplen_off_def tp_mac_off_def tp_sec_off_def tp_usec_off_def

text \<open>An integer field of \<open>k\<close> bytes at an address of the mapping.\<close>

definition get_field :: "endian \<Rightarrow> nat \<Rightarrow> nat \<Rightarrow> byte list \<Rightarrow> nat option" where
  "get_field e off n mem = map_option (dec e) (mem_read off n mem)"

definition put_field :: "endian \<Rightarrow> nat \<Rightarrow> nat \<Rightarrow> nat \<Rightarrow> byte list \<Rightarrow> byte list option" where
  "put_field e off n v mem = mem_write off (enc e n v) mem"

text \<open>The address of frame \<open>i\<close> relative to the mapping, read from the vector: \<open>vec[i].iov_base\<close>.\<close>

definition frame_base :: "packet_mmap \<Rightarrow> nat \<Rightarrow> nat option" where
  "frame_base pm i =
     (case vec pm of
        None \<Rightarrow> None
      | Some (_, v) \<Rightarrow> if i < length v then Some (nat (fst (v ! i) - buf pm)) else None)"

lemma frame_base_ready:
  assumes "ring_ready pm s" and "i < unat (tp_frame_nr (layout pm))"
  shows "frame_base pm i = Some (i * unat (tp_frame_size (layout pm)))"
  using assms by (auto simp: ring_ready_def Let_def frame_base_def simp del: of_nat_mult)

section \<open>Frames of a memory\<close>

definition frame_at :: "nat \<Rightarrow> nat \<Rightarrow> byte list \<Rightarrow> byte list" where
  "frame_at fs i mem = take fs (drop (i * fs) mem)"

definition put_frame :: "nat \<Rightarrow> nat \<Rightarrow> byte list \<Rightarrow> byte list \<Rightarrow> byte list" where
  "put_frame fs i f mem = take (i * fs) mem @ f @ drop (i * fs + fs) mem"

text \<open>
  The interface of a store of \<open>n\<close> frames: what is put at an index is read there, and nowhere
  else. \<open>item\<close> says what a frame contributes to the contents of the whole store.
\<close>

locale frame_store =
  fixes get :: "nat \<Rightarrow> 'm \<Rightarrow> 'f" and put :: "nat \<Rightarrow> 'f \<Rightarrow> 'm \<Rightarrow> 'm"
    and ok :: "'m \<Rightarrow> bool" and good :: "'f \<Rightarrow> bool" and n :: nat and item :: "'f \<Rightarrow> 'p option"
  assumes get_put_same: "ok m \<Longrightarrow> good f \<Longrightarrow> i < n \<Longrightarrow> get i (put i f m) = f"
    and get_put_other: "ok m \<Longrightarrow> good f \<Longrightarrow> i < n \<Longrightarrow> j < n \<Longrightarrow> i \<noteq> j \<Longrightarrow> get j (put i f m) = get j m"
    and ok_put: "ok m \<Longrightarrow> good f \<Longrightarrow> i < n \<Longrightarrow> ok (put i f m)"
begin

definition items :: "'m \<Rightarrow> 'p multiset" where
  "items m = (\<Sum>i<n. case item (get i m) of None \<Rightarrow> {#} | Some p \<Rightarrow> {#p#})"

lemma items_put:
  assumes "ok m" and "good f" and "i < n"
  shows "items (put i f m) + (case item (get i m) of None \<Rightarrow> {#} | Some p \<Rightarrow> {#p#})
    = items m + (case item f of None \<Rightarrow> {#} | Some p \<Rightarrow> {#p#})"
proof -
  let ?g = "\<lambda>m j. case item (get j m) of None \<Rightarrow> {#} | Some p \<Rightarrow> {#p#}"
  have same: "(\<Sum>j\<in>{..<n} - {i}. ?g (put i f m) j) = (\<Sum>j\<in>{..<n} - {i}. ?g m j)"
    using assms by (intro sum.cong) (auto simp: get_put_other)
  have "items (put i f m) = ?g (put i f m) i + (\<Sum>j\<in>{..<n} - {i}. ?g (put i f m) j)"
    unfolding items_def using assms(3) by (intro sum.remove) auto
  moreover have "items m = ?g m i + (\<Sum>j\<in>{..<n} - {i}. ?g m j)"
    unfolding items_def using assms(3) by (intro sum.remove) auto
  ultimately show ?thesis using same assms by (simp add: get_put_same)
qed

lemma items_empty: "(\<And>i. i < n \<Longrightarrow> item (get i m) = None) \<Longrightarrow> items m = {#}"
  by (simp add: items_def)

lemma item_in_items: "i < n \<Longrightarrow> item (get i m) = Some p \<Longrightarrow> p \<in># items m"
  by (force simp: items_def set_mset_sum)

lemma get_put_all:
  assumes "ok m" and "good f" and "i < n" and "\<And>j. j < n \<Longrightarrow> P (get j m)" and "P f" and "j < n"
  shows "P (get j (put i f m))"
  using assms by (cases "j = i") (simp_all add: get_put_same get_put_other)

end

lemma frame_bound:
  fixes fs i n :: nat
  assumes "i < n"
  shows "i * fs + fs \<le> fs * n"
proof -
  have "Suc i * fs \<le> n * fs" using assms by (intro mult_le_mono1) simp
  then show ?thesis by (simp add: ac_simps)
qed

lemma frame_before:
  fixes fs i j :: nat
  assumes "i \<noteq> j"
  shows "i * fs + fs \<le> j * fs \<or> j * fs + fs \<le> i * fs"
  using frame_bound [of i j fs] frame_bound [of j i fs] assms by (cases "i < j") (auto simp: mult.commute)

lemma length_put_frame: "i < n \<Longrightarrow> length mem = fs * n \<Longrightarrow> length f = fs \<Longrightarrow> length (put_frame fs i f mem) = fs * n"
  using frame_bound [of i n fs] by (simp add: put_frame_def)

lemma nth_put_frame:
  assumes "i < n" and "length mem = fs * n" and "length f = fs" and "x < fs * n"
  shows "put_frame fs i f mem ! x = (if i * fs \<le> x \<and> x < i * fs + fs then f ! (x - i * fs) else mem ! x)"
  using assms frame_bound [of i n fs] by (auto simp: put_frame_def nth_append min_def not_le)

lemma frame_at_put_frame:
  assumes "i < n" and "j < n" and "length mem = fs * n" and "length f = fs"
  shows "frame_at fs j (put_frame fs i f mem) = (if i = j then f else frame_at fs j mem)"
proof (rule nth_equalityI)
  have len: "length (put_frame fs i f mem) = fs * n" using assms by (simp add: length_put_frame)
  then show "length (frame_at fs j (put_frame fs i f mem)) = length (if i = j then f else frame_at fs j mem)"
    using assms frame_bound [of j n fs] by (simp add: frame_at_def)
  fix x assume "x < length (frame_at fs j (put_frame fs i f mem))"
  then have x: "x < fs" "j * fs + x < fs * n"
    using frame_bound [OF assms(2), of fs] by (auto simp: frame_at_def)
  then have j: "j * fs \<le> length (put_frame fs i f mem)" "j * fs \<le> length mem" using len assms by linarith+
  have "frame_at fs j (put_frame fs i f mem) ! x = put_frame fs i f mem ! (j * fs + x)"
    using x by (simp add: frame_at_def nth_drop [OF j(1)])
  also have "\<dots> = (if i = j then f ! x else mem ! (j * fs + x))"
    using nth_put_frame [OF assms(1,3,4) x(2)] x frame_before [of i j fs] by auto
  finally show "frame_at fs j (put_frame fs i f mem) ! x = (if i = j then f else frame_at fs j mem) ! x"
    using x by (simp add: frame_at_def nth_drop [OF j(2)])
qed

lemma put_frame_put_frame:
  assumes "i < n" and "length mem = fs * n" and "length f = fs" and "length g = fs"
  shows "put_frame fs i g (put_frame fs i f mem) = put_frame fs i g mem"
  using assms frame_bound [of i n fs] by (simp add: put_frame_def)

interpretation ring: frame_store "frame_at fs" "put_frame fs" "\<lambda>m. length m = fs * n" "\<lambda>f. length f = fs" n item
  for fs n :: nat and item :: "byte list \<Rightarrow> 'p option"
  by unfold_locales (simp_all add: frame_at_put_frame length_put_frame)

text \<open>Accesses at an address inside frame \<open>i\<close> are accesses to that frame.\<close>

lemma get_field_frame:
  assumes "length mem = fs * n" and "i < n" and "x + w \<le> fs"
  shows "get_field e (i * fs + x) w mem = Some (dec e (take w (drop x (frame_at fs i mem))))"
proof -
  have "i * fs + x + w \<le> length mem" using frame_bound [OF assms(2), of fs] assms by simp
  moreover have "take w (drop x (frame_at fs i mem)) = take w (drop (i * fs + x) mem)"
    using assms by (simp add: frame_at_def drop_take min_def add.commute)
  ultimately show ?thesis by (simp add: get_field_def mem_read_def)
qed

lemma mem_write_frame:
  assumes len: "length mem = fs * n" and i: "i < n" and x: "x + length bs \<le> fs"
  shows "mem_write (i * fs + x) bs mem
    = Some (put_frame fs i (take x (frame_at fs i mem) @ bs @ drop (x + length bs) (frame_at fs i mem)) mem)"
proof -
  have b: "i * fs + fs \<le> length mem" using frame_bound [OF i, of fs] len by simp
  have "take (i * fs + x) mem = take (i * fs) mem @ take x (frame_at fs i mem)"
    using x by (simp add: frame_at_def take_add min_def)
  moreover have "drop (i * fs + x + length bs) mem
      = drop (x + length bs) (frame_at fs i mem) @ drop (i * fs + fs) mem"
  proof -
    have "drop (i * fs) mem = frame_at fs i mem @ drop (i * fs + fs) mem"
      by (simp add: frame_at_def add.commute flip: drop_drop)
    then have "drop (x + length bs) (drop (i * fs) mem)
      = drop (x + length bs) (frame_at fs i mem) @ drop (x + length bs - length (frame_at fs i mem)) (drop (i * fs + fs) mem)"
      by simp
    moreover have "length (frame_at fs i mem) = fs" using b by (simp add: frame_at_def)
    ultimately show ?thesis using x by (simp add: ac_simps)
  qed
  ultimately show ?thesis using b x by (simp add: mem_write_def put_frame_def add.assoc)
qed

end
