(* ===== verification/Packet_Rx.thy ===== *)
theory Packet_Rx
  imports Ring Sock_Filter
begin

text \<open>
  The capture thread, \<^verbatim>\<open>src/libdabba/packet-rx.c\<close>: it walks the frames of a receive ring, waits
  when the kernel owns the current frame, and writes every frame it finds filled to the capture file
  before giving it back. Thread and kernel run concurrently, so the loop is a step relation: the
  steps of the thread are the points of the loop at which it reads the shared status word, and
  the kernel may fill a free frame between any two of them. The loop has no exit; every
  property is about all reachable states.
\<close>

section \<open>Data\<close>

record packet_rx =
  rx_mmap :: packet_mmap
  rx_sfp :: sock_fprog
  rx_pcap_fd :: int

text \<open>
  The program points: before the first look at the frame, inside \<open>poll\<close>, and after it. The
  state also has the kernel's position in the ring and the packets it delivered so far.
\<close>

datatype rx_point = At_Frame | In_Poll | Past_Poll

record rx_state =
  rx_mem :: "byte list"
  rx_index :: nat
  rx_point :: rx_point
  rx_os :: os
  k_head :: nat
  k_log :: "packet list"

section \<open>The loop body\<close>

text \<open>The test of the status word and the block it guards.\<close>

definition rx_take :: "packet_rx \<Rightarrow> nat \<Rightarrow> byte list \<Rightarrow> os \<Rightarrow> (byte list \<times> os) option" where
  "rx_take rx index mem s =
     do {
       mmap_hdr \<leftarrow> frame_base (rx_mmap rx) index;
       status \<leftarrow> get_field (os_endian s) (mmap_hdr + tp_status_off) 8 mem;
       if (of_nat status :: u64) AND TP_STATUS_USER = TP_STATUS_USER then
         do {
           s1 \<leftarrow>
             (if rx_pcap_fd rx > 0 then
                do {
                  mac \<leftarrow> get_field (os_endian s) (mmap_hdr + tp_mac_off) 2 mem;
                  plen \<leftarrow> get_field (os_endian s) (mmap_hdr + tp_len_off) 4 mem;
                  snap \<leftarrow> get_field (os_endian s) (mmap_hdr + tp_snaplen_off) 4 mem;
                  sec \<leftarrow> get_field (os_endian s) (mmap_hdr + tp_sec_off) 4 mem;
                  usec \<leftarrow> get_field (os_endian s) (mmap_hdr + tp_usec_off) 4 mem;
                  (_, s1) \<leftarrow> ldab_pcap_write (rx_pcap_fd rx) (drop (mmap_hdr + mac) mem)
                     (of_nat plen) (of_nat (min snap (unat (tp_frame_size (layout (rx_mmap rx))))))
                     (of_nat sec) (of_nat usec) s;
                  Some s1
                }
              else Some s);
           mem1 \<leftarrow> put_field (os_endian s) (mmap_hdr + tp_status_off) 8 (unat TP_STATUS_KERNEL) mem;
           Some (mem1, s1)
         }
       else Some (mem, s)
     }"

text \<open>Both loops: the next frame, and the first one again after the last.\<close>

definition rx_next :: "packet_rx \<Rightarrow> nat \<Rightarrow> nat" where
  "rx_next rx i = (if Suc i < unat (tp_frame_nr (layout (rx_mmap rx))) then Suc i else 0)"

text \<open>The reads of the status word before \<open>poll\<close>.\<close>

definition rx_status :: "packet_rx \<Rightarrow> rx_state \<Rightarrow> u64 option" where
  "rx_status rx st =
     do {
       mmap_hdr \<leftarrow> frame_base (rx_mmap rx) (rx_index st);
       status \<leftarrow> get_field (os_endian (rx_os st)) (mmap_hdr + tp_status_off) 8 (rx_mem st);
       Some (of_nat status)
     }"

text \<open>
  What the kernel puts into a frame: a header whose status has the user bit, and the captured
  bytes at the announced offset, inside the frame.
\<close>

definition frame_status :: "endian \<Rightarrow> byte list \<Rightarrow> u64" where
  "frame_status e f = of_nat (dec e (take 8 f))"

definition frame_snaplen :: "endian \<Rightarrow> byte list \<Rightarrow> nat" where
  "frame_snaplen e f = dec e (take 4 (drop 12 f))"

definition frame_mac :: "endian \<Rightarrow> byte list \<Rightarrow> nat" where
  "frame_mac e f = dec e (take 2 (drop 16 f))"

definition frame_packet :: "endian \<Rightarrow> byte list \<Rightarrow> packet" where
  "frame_packet e f = \<lparr>p_sec = of_nat (dec e (take 4 (drop 20 f))), p_usec = of_nat (dec e (take 4 (drop 24 f))),
     p_len = of_nat (dec e (take 4 (drop 8 f))), p_data = take (frame_snaplen e f) (drop (frame_mac e f) f)\<rparr>"

definition frame_filled :: "endian \<Rightarrow> nat \<Rightarrow> byte list \<Rightarrow> bool" where
  "frame_filled e fs f \<longleftrightarrow> length f = fs \<and> frame_status e f AND TP_STATUS_USER = TP_STATUS_USER \<and>
     0 < frame_snaplen e f \<and> frame_mac e f + frame_snaplen e f \<le> fs"

definition frame_item :: "endian \<Rightarrow> byte list \<Rightarrow> packet option" where
  "frame_item e f = (if frame_status e f AND TP_STATUS_USER = TP_STATUS_USER then Some (frame_packet e f) else None)"

text \<open>The whole system: the thread and the kernel.\<close>

inductive rx_step :: "packet_rx \<Rightarrow> rx_state \<Rightarrow> rx_state \<Rightarrow> bool" for rx where
  look_empty: "rx_point st = At_Frame \<Longrightarrow> rx_status rx st = Some TP_STATUS_KERNEL \<Longrightarrow>
    rx_step rx st (st\<lparr>rx_point := In_Poll\<rparr>)"
| look_busy: "rx_point st = At_Frame \<Longrightarrow> rx_status rx st = Some v \<Longrightarrow> v \<noteq> TP_STATUS_KERNEL \<Longrightarrow>
    rx_step rx st (st\<lparr>rx_point := Past_Poll\<rparr>)"
| poll_fails: "rx_point st = In_Poll \<Longrightarrow>
    rx_step rx st (st\<lparr>rx_point := At_Frame, rx_index := rx_next rx (rx_index st)\<rparr>)"
| poll_returns: "rx_point st = In_Poll \<Longrightarrow> rx_step rx st (st\<lparr>rx_point := Past_Poll\<rparr>)"
| takes: "rx_point st = Past_Poll \<Longrightarrow> rx_take rx (rx_index st) (rx_mem st) (rx_os st) = Some (mem', s') \<Longrightarrow>
    rx_step rx st (st\<lparr>rx_mem := mem', rx_os := s', rx_point := At_Frame, rx_index := rx_next rx (rx_index st)\<rparr>)"
| delivers: "frame_status (os_endian (rx_os st)) (frame_at fs (k_head st) (rx_mem st)) = TP_STATUS_KERNEL \<Longrightarrow>
    fs = unat (tp_frame_size (layout (rx_mmap rx))) \<Longrightarrow> frame_filled (os_endian (rx_os st)) fs f \<Longrightarrow>
    rx_step rx st (st\<lparr>rx_mem := put_frame fs (k_head st) f (rx_mem st), k_head := rx_next rx (k_head st),
      k_log := k_log st @ [frame_packet (os_endian (rx_os st)) f]\<rparr>)"

inductive_cases rx_stepE: "rx_step rx st st'"

section \<open>The invariant\<close>

text \<open>
  The memory is a ring of frames that are free or filled; the capture file ends with one record for
  each packet taken; and the packets delivered are those in the file and those in the ring.
\<close>

definition rx_pending :: "packet_rx \<Rightarrow> rx_state \<Rightarrow> packet multiset" where
  "rx_pending rx st = (let fs = unat (tp_frame_size (layout (rx_mmap rx))); n = unat (tp_frame_nr (layout (rx_mmap rx)))
     in \<Sum>i<n. case frame_item (os_endian (rx_os st)) (frame_at fs i (rx_mem st)) of None \<Rightarrow> {#} | Some p \<Rightarrow> {#p#})"

lemma rx_pending_items:
  "rx_pending rx st = ring.items (unat (tp_frame_size (layout (rx_mmap rx)))) (unat (tp_frame_nr (layout (rx_mmap rx))))
     (frame_item (os_endian (rx_os st))) (rx_mem st)"
  by (simp add: rx_pending_def ring.items_def Let_def)

definition rx_file :: "packet_rx \<Rightarrow> nat \<Rightarrow> byte list \<Rightarrow> rx_state \<Rightarrow> packet list \<Rightarrow> bool" where
  "rx_file rx ino base st out \<longleftrightarrow>
     os_data (rx_os st) ino = base @ concat (map (record_bytes (os_endian (rx_os st))) out) \<and>
     (\<exists>rd. fd_of (rx_os st) (rx_pcap_fd rx) = Some (Reg ino (length (os_data (rx_os st) ino)) rd True False))"

definition rx_ring :: "packet_rx \<Rightarrow> rx_state \<Rightarrow> bool" where
  "rx_ring rx st \<longleftrightarrow> (let fs = unat (tp_frame_size (layout (rx_mmap rx))); n = unat (tp_frame_nr (layout (rx_mmap rx))) in
     length (rx_mem st) = fs * n \<and> rx_index st < n \<and> k_head st < n \<and>
     (\<forall>i < n. frame_status (os_endian (rx_os st)) (frame_at fs i (rx_mem st)) = TP_STATUS_KERNEL \<or>
        frame_filled (os_endian (rx_os st)) fs (frame_at fs i (rx_mem st))))"

text \<open>A usable configuration: a ready ring with room for a header in each frame, and a capture file.\<close>

definition rx_config :: "packet_rx \<Rightarrow> bool" where
  "rx_config rx \<longleftrightarrow> rx_pcap_fd rx > 0 \<and> 32 \<le> unat (tp_frame_size (layout (rx_mmap rx))) \<and>
     (\<exists>s. ring_ready (rx_mmap rx) s)"

definition rx_inv :: "packet_rx \<Rightarrow> nat \<Rightarrow> byte list \<Rightarrow> rx_state \<Rightarrow> bool" where
  "rx_inv rx ino base st \<longleftrightarrow> faultless (rx_os st) \<and> rx_ring rx st \<and>
     (\<exists>out. rx_file rx ino base st out \<and> mset out + rx_pending rx st = mset (k_log st))"

text \<open>A frame given back: its status word is 0, the rest is untouched.\<close>

definition frame_release :: "endian \<Rightarrow> byte list \<Rightarrow> byte list" where
  "frame_release e f = enc e 8 (unat TP_STATUS_KERNEL) @ drop 8 f"

lemma frame_release_status:
  assumes "8 \<le> length f"
  shows "length (frame_release e f) = length f" "frame_status e (frame_release e f) = TP_STATUS_KERNEL"
  using assms by (simp_all add: frame_release_def frame_status_def TP_STATUS_KERNEL_def)

lemma status_kernel_item: "frame_status e f = TP_STATUS_KERNEL \<Longrightarrow> frame_item e f = None"
  by (simp add: frame_item_def tp_status_defs)

lemma frame_filled_item: "frame_filled e fs f \<Longrightarrow> frame_item e f = Some (frame_packet e f)"
  by (simp add: frame_item_def frame_filled_def)

lemma frame_filled_not_kernel: "frame_filled e fs f \<Longrightarrow> frame_status e f \<noteq> TP_STATUS_KERNEL"
  by (auto simp: frame_filled_def tp_status_defs)

lemma frame_packet_data:
  assumes "frame_filled e fs f" and "32 \<le> fs"
  shows "length (p_data (frame_packet e f)) = frame_snaplen e f" "storable (frame_packet e f)"
    "frame_snaplen e f \<le> fs" "frame_snaplen e f < 2 ^ 32"
proof -
  show l: "length (p_data (frame_packet e f)) = frame_snaplen e f" "frame_snaplen e f \<le> fs"
    using assms by (auto simp: frame_filled_def frame_packet_def)
  show b: "frame_snaplen e f < 2 ^ 32"
    using dec_less [of 4 "drop 12 f" e] assms by (simp add: frame_snaplen_def frame_filled_def)
  with l assms show "storable (frame_packet e f)" by (simp add: storable_def frame_filled_def)
qed

lemma rx_take_filled:
  assumes cfg: "rx_config rx" and fs: "fs = unat (tp_frame_size (layout (rx_mmap rx)))"
    and n: "n = unat (tp_frame_nr (layout (rx_mmap rx)))"
    and mem: "length mem = fs * n" and i: "i < n" and f: "frame_filled (os_endian s) fs (frame_at fs i mem)"
  shows "rx_take rx i mem s = do { (_, s1) \<leftarrow> pcap_put (rx_pcap_fd rx) (frame_packet (os_endian s) (frame_at fs i mem)) s;
     Some (put_frame fs i (frame_release (os_endian s) (frame_at fs i mem)) mem, s1) }"
proof -
  let ?e = "os_endian s" and ?f = "frame_at fs i mem"
  let ?snap = "frame_snaplen ?e ?f" and ?mac = "frame_mac ?e ?f"
  from cfg fs have fs32: "32 \<le> fs" and pos: "0 < rx_pcap_fd rx" by (auto simp: rx_config_def)
  from cfg fs n i have base: "frame_base (rx_mmap rx) i = Some (i * fs)"
    by (auto simp: rx_config_def frame_base_ready)
  note fld = get_field_frame [OF mem i, of _ _ ?e]
  note pd = frame_packet_data [OF f fs32]
  have ms: "?mac + ?snap \<le> fs" using f by (simp add: frame_filled_def)
  have room: "i * fs + fs \<le> length mem" using frame_bound [OF i, of fs] mem by simp
  have data: "take ?snap (drop (i * fs + ?mac) mem) = p_data (frame_packet ?e ?f)"
    using ms by (simp add: frame_packet_def frame_at_def drop_take min_def add.commute)
  have lenp: "?snap \<le> length (drop (i * fs + ?mac) mem)" using ms room by simp
  have mn: "min ?snap fs = ?snap" using pd(3) by simp
  have wr: "ldab_pcap_write (rx_pcap_fd rx) (drop (i * fs + ?mac) mem) (of_nat (dec ?e (take 4 (drop 8 ?f)))) (of_nat ?snap)
      (of_nat (dec ?e (take 4 (drop 20 ?f)))) (of_nat (dec ?e (take 4 (drop 24 ?f)))) s
    = pcap_put (rx_pcap_fd rx) (frame_packet ?e ?f) s"
    unfolding ldab_pcap_write_take [OF lenp pd(4)] data pcap_put_def pd(1)
    by (simp add: frame_packet_def)
  have put: "put_field ?e (i * fs) 8 (unat TP_STATUS_KERNEL) mem
    = Some (put_frame fs i (frame_release ?e ?f) mem)"
    using mem_write_frame [OF mem i, of 0 "enc ?e 8 (unat TP_STATUS_KERNEL)"] fs32
    by (simp add: put_field_def frame_release_def)
  have st: "(of_nat (dec ?e (take 8 ?f)) :: u64) AND TP_STATUS_USER = TP_STATUS_USER"
    using f by (simp add: frame_filled_def frame_status_def)
  show ?thesis
    using fld [of 0 8] fld [of 16 2] fld [of 8 4] fld [of 12 4] fld [of 20 4] fld [of 24 4] fs32 st pos put
      wr [unfolded frame_snaplen_def frame_mac_def] mn [unfolded frame_snaplen_def] fs
    by (cases "pcap_put (rx_pcap_fd rx) (frame_packet ?e ?f) s")
      (auto simp: rx_take_def base tp_offs)
qed

lemma rx_take_free:
  assumes cfg: "rx_config rx" and fs: "fs = unat (tp_frame_size (layout (rx_mmap rx)))"
    and n: "n = unat (tp_frame_nr (layout (rx_mmap rx)))"
    and mem: "length mem = fs * n" and i: "i < n" and f: "frame_status (os_endian s) (frame_at fs i mem) = TP_STATUS_KERNEL"
  shows "rx_take rx i mem s = Some (mem, s)"
proof -
  from cfg fs have fs32: "32 \<le> fs" by (auto simp: rx_config_def)
  from cfg fs n i have base: "frame_base (rx_mmap rx) i = Some (i * fs)"
    by (auto simp: rx_config_def frame_base_ready)
  show ?thesis
    using get_field_frame [OF mem i, of 0 8 "os_endian s"] fs32 f
    by (simp add: rx_take_def base tp_offs frame_status_def tp_status_defs)
qed

lemma rx_next_less: "i < unat (tp_frame_nr (layout (rx_mmap rx))) \<Longrightarrow> rx_next rx i < unat (tp_frame_nr (layout (rx_mmap rx)))"
  by (simp add: rx_next_def)

lemma rx_inv_move:
  assumes "rx_inv rx ino base st" and "i < unat (tp_frame_nr (layout (rx_mmap rx)))"
  shows "rx_inv rx ino base (st\<lparr>rx_point := pt, rx_index := i\<rparr>)" "rx_inv rx ino base (st\<lparr>rx_point := pt\<rparr>)"
  using assms by (simp_all add: rx_inv_def rx_ring_def rx_file_def rx_pending_def Let_def)

lemma rx_inv_takes:
  assumes cfg: "rx_config rx" and inv: "rx_inv rx ino base st"
  shows "\<exists>mem' s'. rx_take rx (rx_index st) (rx_mem st) (rx_os st) = Some (mem', s') \<and>
    rx_inv rx ino base (st\<lparr>rx_mem := mem', rx_os := s', rx_point := pt, rx_index := rx_next rx (rx_index st)\<rparr>)"
proof -
  define fs where "fs = unat (tp_frame_size (layout (rx_mmap rx)))"
  define n where "n = unat (tp_frame_nr (layout (rx_mmap rx)))"
  let ?e = "os_endian (rx_os st)" and ?i = "rx_index st" and ?m = "rx_mem st"
  let ?f = "frame_at fs ?i ?m"
  from inv have ok: "faultless (rx_os st)" and ring: "length ?m = fs * n" "?i < n" "k_head st < n"
    and frames: "\<And>i. i < n \<Longrightarrow> frame_status ?e (frame_at fs i ?m) = TP_STATUS_KERNEL \<or> frame_filled ?e fs (frame_at fs i ?m)"
    by (auto simp: rx_inv_def rx_ring_def fs_def n_def Let_def)
  from inv obtain out rd where out: "os_data (rx_os st) ino = base @ concat (map (record_bytes ?e) out)"
    "fd_of (rx_os st) (rx_pcap_fd rx) = Some (Reg ino (length (os_data (rx_os st) ino)) rd True False)"
    "mset out + rx_pending rx st = mset (k_log st)" by (auto simp: rx_inv_def rx_file_def)
  from cfg have fs32: "32 \<le> fs" and pos: "0 < rx_pcap_fd rx" by (auto simp: rx_config_def fs_def)
  show ?thesis
  proof (cases "frame_filled ?e fs ?f")
    case False
    with frames [OF ring(2)] have "rx_take rx ?i ?m (rx_os st) = Some (?m, rx_os st)"
      using rx_take_free [OF cfg fs_def n_def ring(1,2)] by simp
    then show ?thesis
      using rx_inv_move(1) [OF inv rx_next_less [OF ring(2) [unfolded n_def]], of pt] by simp
  next
    case True
    let ?p = "frame_packet ?e ?f" and ?m' = "put_frame fs ?i (frame_release ?e ?f) ?m"
    have lf: "length ?f = fs" "8 \<le> length ?f" using True fs32 by (auto simp: frame_filled_def)
    note rel = frame_release_status [OF lf(2), of ?e, unfolded lf(1)]
    from pcap_put_appends [OF ok pos frame_packet_data(2) [OF True fs32] out(2)] obtain s' where s':
      "pcap_put (rx_pcap_fd rx) ?p (rx_os st) = Some (int (length (p_data ?p)), s')"
      "os_data s' = (os_data (rx_os st))(ino := os_data (rx_os st) ino @ record_bytes ?e ?p)"
      "fd_of s' (rx_pcap_fd rx) = Some (Reg ino (length (os_data s' ino)) rd True False)"
      "os_sched s' = os_sched (rx_os st)" "os_endian s' = ?e" by auto
    have tk: "rx_take rx ?i ?m (rx_os st) = Some (?m', s')"
      using rx_take_filled [OF cfg fs_def n_def ring(1,2) True] s'(1) by simp
    let ?st = "st\<lparr>rx_mem := ?m', rx_os := s', rx_point := pt, rx_index := rx_next rx ?i\<rparr>"
    have pend: "rx_pending rx ?st + {#?p#} = rx_pending rx st"
      using ring.items_put [OF ring(1) rel(1) ring(2), of "frame_item ?e"] status_kernel_item [OF rel(2)]
        frame_filled_item [OF True]
      by (simp add: rx_pending_items s'(5) fs_def [symmetric] n_def [symmetric])
    have "rx_file rx ino base ?st (out @ [?p])"
      using out s' by (simp add: rx_file_def)
    moreover have "mset (out @ [?p]) + rx_pending rx ?st = mset (k_log ?st)"
      using pend out(3) by (simp add: ac_simps) (metis add_mset_add_single union_assoc)
    moreover have "rx_ring rx ?st"
      unfolding rx_ring_def Let_def fs_def [symmetric] n_def [symmetric]
      using ring length_put_frame [OF ring(2,1) rel(1)] rx_next_less [of ?i rx] s'(5)
        ring.get_put_all [OF ring(1) rel(1) ring(2), of "\<lambda>f. frame_status ?e f = TP_STATUS_KERNEL \<or> frame_filled ?e fs f"]
        frames rel(2) by (simp add: n_def)
    moreover have "faultless s'" using ok s'(4) by (simp add: faultless_def)
    ultimately have "rx_inv rx ino base ?st" unfolding rx_inv_def by auto
    with tk show ?thesis by blast
  qed
qed

lemma rx_inv_delivers:
  assumes cfg: "rx_config rx" and inv: "rx_inv rx ino base st" and fs: "fs = unat (tp_frame_size (layout (rx_mmap rx)))"
    and free: "frame_status (os_endian (rx_os st)) (frame_at fs (k_head st) (rx_mem st)) = TP_STATUS_KERNEL"
    and f: "frame_filled (os_endian (rx_os st)) fs f"
  shows "rx_inv rx ino base (st\<lparr>rx_mem := put_frame fs (k_head st) f (rx_mem st), k_head := rx_next rx (k_head st),
      k_log := k_log st @ [frame_packet (os_endian (rx_os st)) f]\<rparr>)" (is "rx_inv rx ino base ?st")
proof -
  define n where "n = unat (tp_frame_nr (layout (rx_mmap rx)))"
  let ?e = "os_endian (rx_os st)" and ?i = "k_head st" and ?m = "rx_mem st"
  from inv have ok: "faultless (rx_os st)" and ring: "length ?m = fs * n" "rx_index st < n" "?i < n"
    and frames: "\<And>i. i < n \<Longrightarrow> frame_status ?e (frame_at fs i ?m) = TP_STATUS_KERNEL \<or> frame_filled ?e fs (frame_at fs i ?m)"
    by (auto simp: rx_inv_def rx_ring_def fs n_def Let_def)
  have lf: "length f = fs" using f by (simp add: frame_filled_def)
  have pend: "rx_pending rx ?st = rx_pending rx st + {#frame_packet ?e f#}"
    using ring.items_put [OF ring(1) lf ring(3), of "frame_item ?e"] status_kernel_item [OF free] frame_filled_item [OF f]
    by (simp add: rx_pending_items fs [symmetric] n_def [symmetric])
  have "rx_ring rx ?st"
    unfolding rx_ring_def Let_def fs [symmetric] n_def [symmetric]
    using ring length_put_frame [OF ring(3,1) lf] rx_next_less [of ?i rx]
      ring.get_put_all [OF ring(1) lf ring(3), of "\<lambda>f. frame_status ?e f = TP_STATUS_KERNEL \<or> frame_filled ?e fs f"]
      frames f by (simp add: n_def)
  with inv pend show ?thesis
    by (auto simp: rx_inv_def rx_file_def)
qed

lemma rx_inv_step:
  assumes cfg: "rx_config rx" and inv: "rx_inv rx ino base st" and st: "rx_step rx st st'"
  shows "rx_inv rx ino base st'"
  using st
proof cases
  case (takes mem' s')
  then show ?thesis using rx_inv_takes [OF cfg inv, of At_Frame] by auto
next
  case (delivers fs f)
  then show ?thesis using rx_inv_delivers [OF cfg inv] by blast
qed (use inv rx_inv_move [OF inv] rx_next_less in \<open>auto simp: rx_inv_def [of _ _ _ st] rx_ring_def Let_def\<close>)

text \<open>The state in which the thread starts: all frames free, nothing delivered, the file at its end.\<close>

definition rx_init :: "packet_rx \<Rightarrow> nat \<Rightarrow> byte list \<Rightarrow> rx_state \<Rightarrow> bool" where
  "rx_init rx ino base st \<longleftrightarrow> faultless (rx_os st) \<and> rx_index st = 0 \<and> rx_point st = At_Frame \<and>
     k_head st = 0 \<and> k_log st = [] \<and>
     (let fs = unat (tp_frame_size (layout (rx_mmap rx))); n = unat (tp_frame_nr (layout (rx_mmap rx))) in
      length (rx_mem st) = fs * n \<and>
      (\<forall>i < n. frame_status (os_endian (rx_os st)) (frame_at fs i (rx_mem st)) = TP_STATUS_KERNEL)) \<and>
     rx_file rx ino base st []"

lemma rx_inv_init:
  assumes "rx_config rx" and "rx_init rx ino base st"
  shows "rx_inv rx ino base st"
proof -
  from assms have "0 < unat (tp_frame_nr (layout (rx_mmap rx)))"
    by (auto simp: rx_config_def ring_ready_def Let_def)
  moreover from assms(2) have "rx_pending rx st = {#}"
    unfolding rx_pending_items
    by (intro ring.items_empty) (simp add: rx_init_def Let_def status_kernel_item)
  ultimately show ?thesis
    using assms(2) by (auto simp: rx_inv_def rx_init_def rx_ring_def Let_def intro!: exI [of _ "[]"])
qed

lemma rx_inv_reachable:
  assumes "rx_config rx" and "rx_init rx ino base st0" and "(rx_step rx)\<^sup>*\<^sup>* st0 st"
  shows "rx_inv rx ino base st"
  using assms(3)
proof (induction rule: rtranclp_induct)
  case base
  show ?case by (rule rx_inv_init [OF assms(1,2)])
next
  case (step st st')
  then show ?case using rx_inv_step [OF assms(1)] by blast
qed


section \<open>Properties\<close>

text \<open>
  C1: the capture thread neither loses nor duplicates a packet. Without system call failures,
  in every state reachable from the start, under every interleaving of thread and kernel and every
  behaviour of \<open>poll\<close>, the capture file is what it was at the start followed by the records of some
  packets, and these together with the packets still waiting in the ring are exactly the packets
  the kernel delivered, each as often as it was delivered.
\<close>

theorem rx_no_loss:
  assumes "rx_config rx" and "rx_init rx ino base st0" and "(rx_step rx)\<^sup>*\<^sup>* st0 st"
  shows "\<exists>out. os_data (rx_os st) ino = base @ concat (map (record_bytes (os_endian (rx_os st))) out) \<and>
    mset out + rx_pending rx st = mset (k_log st)"
  using rx_inv_reachable [OF assms] by (auto simp: rx_inv_def rx_file_def)

text \<open>A delivery into the sample ring: a packet of four bytes at offset 32.\<close>

definition sample_frame :: "byte list" where
  "sample_frame = enc Little 8 1 @ enc Little 4 60 @ enc Little 4 4 @ enc Little 2 32 @ replicate 14 0 @
     [1, 2, 3, 4] @ replicate 28 0"

definition sample_rx :: packet_rx where
  "sample_rx = \<lparr>rx_mmap = sample_ring, rx_sfp = \<lparr>fp_len = 0, fp_filter = [], fp_blk = None\<rparr>, rx_pcap_fd = 4\<rparr>"

definition sample_rx_state :: rx_state where
  "sample_rx_state = \<lparr>rx_mem = replicate 512 0, rx_index = 0, rx_point = At_Frame, rx_os = sample_os,
     k_head = 0, k_log = []\<rparr>"

lemma sample_rx_config: "rx_config sample_rx"
  using sample_ring_ready by (auto simp: rx_config_def sample_rx_def)

lemma frame_status_zero: "8 \<le> n \<Longrightarrow> frame_status e (replicate n 0) = TP_STATUS_KERNEL"
  by (cases e) (simp_all add: frame_status_def dec_def TP_STATUS_KERNEL_def min_def numeral_eq_Suc)

lemma sample_rx_init: "rx_init sample_rx 0 [] sample_rx_state"
  by (auto simp: rx_init_def sample_rx_def sample_rx_state_def rx_file_def frame_at_def frame_status_zero
      faultless_def sample_os_def fd_of_def)

lemma sample_frame_filled: "frame_filled Little 64 sample_frame"
  by (simp add: frame_filled_def sample_frame_def frame_status_def frame_snaplen_def frame_mac_def tp_status_defs)

theorem rx_no_loss_witness:
  "\<exists>st out. (rx_step sample_rx)\<^sup>*\<^sup>* sample_rx_state st \<and> k_log st = [frame_packet Little sample_frame] \<and>
     mset out + rx_pending sample_rx st = {#frame_packet Little sample_frame#}"
proof -
  let ?e = "os_endian (rx_os sample_rx_state)" and ?m = "rx_mem sample_rx_state"
  have e: "?e = Little" by (simp add: sample_rx_state_def sample_os_def)
  have free: "frame_status ?e (frame_at 64 (k_head sample_rx_state) ?m) = TP_STATUS_KERNEL"
    by (simp add: sample_rx_state_def frame_at_def frame_status_zero)
  have fs: "64 = unat (tp_frame_size (layout (rx_mmap sample_rx)))" by (simp add: sample_rx_def)
  let ?st = "sample_rx_state\<lparr>rx_mem := put_frame 64 (k_head sample_rx_state) sample_frame ?m,
    k_head := rx_next sample_rx (k_head sample_rx_state), k_log := k_log sample_rx_state @ [frame_packet ?e sample_frame]\<rparr>"
  have "rx_step sample_rx sample_rx_state ?st"
    by (rule rx_step.delivers [OF free fs]) (simp add: e sample_frame_filled)
  then have run: "(rx_step sample_rx)\<^sup>*\<^sup>* sample_rx_state ?st" by (rule r_into_rtranclp)
  have log: "k_log ?st = [frame_packet Little sample_frame]" by (simp add: e) (simp add: sample_rx_state_def)
  from rx_no_loss [OF sample_rx_config sample_rx_init run] log run show ?thesis by (metis mset_single_iff_right)
qed



end
