(* ===== verification/Packet_Tx.thy ===== *)
theory Packet_Tx
  imports Ring
begin

text \<open>
  The replay thread, \<^verbatim>\<open>src/libdabba/packet-tx.c\<close>: it fills the free frames of a transmit ring with
  the packets of a capture file, asks the kernel to send them, and starts over at the first packet when
  the file is exhausted. As for the capture thread, the loop is a step relation in which the kernel may
  send a requested frame, and so free it, between any two steps of the thread. Every requested frame is
  sent: that a kernel may refuse or discard a malformed packet is not modelled.
\<close>

section \<open>Data\<close>

record packet_tx =
  tx_mmap :: packet_mmap
  tx_pcap_fd :: int

text \<open>The program points: at a frame of the inner loop, and at the call of \<open>send\<close> after it.\<close>

datatype tx_point = Fill | Send

text \<open>
  The state; \<open>tx_queue\<close> records the packets the thread requested so far and \<open>k_sent\<close> those the kernel sent.
\<close>

record tx_state =
  tx_mem :: "byte list"
  tx_index :: nat
  tx_eof :: bool
  tx_point :: tx_point
  tx_os :: os
  tx_queue :: "byte list list"
  k_sent :: "byte list list"

section \<open>Operations\<close>

definition ldab_packet_tx_loss_set :: "int \<Rightarrow> int \<Rightarrow> os \<Rightarrow> int \<times> os" where
  "ldab_packet_tx_loss_set sock discard s = setsockopt_loss sock discard s"

text \<open>\<open>TPACKET_ALIGN(sizeof(struct tpacket_hdr))\<close>: where the packet starts in a frame.\<close>

definition TPACKET_ALIGN :: "nat \<Rightarrow> nat" where
  "TPACKET_ALIGN x = (x + 15) div 16 * 16"

definition tplen :: nat where "tplen = TPACKET_ALIGN 32"

lemma tplen_eq [simp]: "tplen = 32"
  by (simp add: tplen_def TPACKET_ALIGN_def)

text \<open>
  The body of the inner loop: nothing to do, end of file, or a packet queued. The packet is read
  into the frame, up to the size of a whole frame, whatever room is left after the header.
\<close>

datatype tx_result = Busy | Eof | Queued "byte list"

definition tx_fill :: "packet_tx \<Rightarrow> nat \<Rightarrow> byte list \<Rightarrow> os \<Rightarrow> (tx_result \<times> byte list \<times> os) option" where
  "tx_fill tx a mem s =
     do {
       mmap_hdr \<leftarrow> frame_base (tx_mmap tx) a;
       status \<leftarrow> get_field (os_endian s) (mmap_hdr + tp_status_off) 8 mem;
       if (of_nat status :: u64) = TP_STATUS_AVAILABLE then
         do {
           ((obytes, pkt), s1) \<leftarrow> ldab_pcap_read (tx_pcap_fd tx) (tp_frame_size (layout (tx_mmap tx))) s;
           mem \<leftarrow> mem_write (mmap_hdr + tplen) pkt mem;
           if obytes \<le> 0 then Some (Eof, mem, s1) else
           do {
             mem \<leftarrow> put_field (os_endian s) (mmap_hdr + tp_len_off) 4 (nat obytes) mem;
             mem \<leftarrow> put_field (os_endian s) (mmap_hdr + tp_snaplen_off) 4 (nat obytes) mem;
             mem \<leftarrow> put_field (os_endian s) (mmap_hdr + tp_status_off) 8 (unat TP_STATUS_SEND_REQUEST) mem;
             Some (Queued pkt, mem, s1)
           }
         }
       else Some (Busy, mem, s)
     }"

text \<open>What the kernel takes from a frame it is asked to send.\<close>

definition tx_status :: "endian \<Rightarrow> byte list \<Rightarrow> u64" where
  "tx_status e f = of_nat (dec e (take 8 f))"

definition tx_item :: "endian \<Rightarrow> byte list \<Rightarrow> byte list option" where
  "tx_item e f = (if tx_status e f = TP_STATUS_SEND_REQUEST
     then Some (take (dec e (take 4 (drop 8 f))) (drop tplen f)) else None)"

definition tx_release :: "endian \<Rightarrow> byte list \<Rightarrow> byte list" where
  "tx_release e f = enc e 8 (unat TP_STATUS_AVAILABLE) @ drop 8 f"

inductive tx_step :: "packet_tx \<Rightarrow> tx_state \<Rightarrow> tx_state \<Rightarrow> bool" for tx where
  busy: "tx_point st = Fill \<Longrightarrow> tx_index st < unat (tp_frame_nr (layout (tx_mmap tx))) \<Longrightarrow>
    tx_fill tx (tx_index st) (tx_mem st) (tx_os st) = Some (Busy, mem', s') \<Longrightarrow>
    tx_step tx st (st\<lparr>tx_mem := mem', tx_os := s', tx_index := Suc (tx_index st)\<rparr>)"
| queued: "tx_point st = Fill \<Longrightarrow> tx_index st < unat (tp_frame_nr (layout (tx_mmap tx))) \<Longrightarrow>
    tx_fill tx (tx_index st) (tx_mem st) (tx_os st) = Some (Queued p, mem', s') \<Longrightarrow>
    tx_step tx st (st\<lparr>tx_mem := mem', tx_os := s', tx_index := Suc (tx_index st), tx_queue := tx_queue st @ [p]\<rparr>)"
| at_eof: "tx_point st = Fill \<Longrightarrow> tx_index st < unat (tp_frame_nr (layout (tx_mmap tx))) \<Longrightarrow>
    tx_fill tx (tx_index st) (tx_mem st) (tx_os st) = Some (Eof, mem', s') \<Longrightarrow>
    tx_step tx st (st\<lparr>tx_mem := mem', tx_os := s', tx_eof := True, tx_point := Send\<rparr>)"
| pass_done: "tx_point st = Fill \<Longrightarrow> \<not> tx_index st < unat (tp_frame_nr (layout (tx_mmap tx))) \<Longrightarrow>
    tx_step tx st (st\<lparr>tx_point := Send\<rparr>)"
| again: "tx_point st = Send \<Longrightarrow> \<not> tx_eof st \<Longrightarrow>
    tx_step tx st (st\<lparr>tx_index := 0, tx_point := Fill\<rparr>)"
| rewinds: "tx_point st = Send \<Longrightarrow> tx_eof st \<Longrightarrow>
    tx_step tx st (st\<lparr>tx_os := snd (ldab_pcap_rewind (tx_pcap_fd tx) (tx_os st)), tx_eof := False,
      tx_index := 0, tx_point := Fill\<rparr>)"
| sends: "i < unat (tp_frame_nr (layout (tx_mmap tx))) \<Longrightarrow> fs = unat (tp_frame_size (layout (tx_mmap tx))) \<Longrightarrow>
    tx_item (os_endian (tx_os st)) (frame_at fs i (tx_mem st)) = Some p \<Longrightarrow>
    tx_step tx st (st\<lparr>tx_mem := put_frame fs i (tx_release (os_endian (tx_os st)) (frame_at fs i (tx_mem st))) (tx_mem st),
      k_sent := k_sent st @ [p]\<rparr>)"

inductive_cases tx_stepE: "tx_step tx st st'"

section \<open>The invariant\<close>

definition tx_pending :: "packet_tx \<Rightarrow> tx_state \<Rightarrow> byte list multiset" where
  "tx_pending tx st = (let fs = unat (tp_frame_size (layout (tx_mmap tx))); n = unat (tp_frame_nr (layout (tx_mmap tx)))
     in \<Sum>i<n. case tx_item (os_endian (tx_os st)) (frame_at fs i (tx_mem st)) of None \<Rightarrow> {#} | Some p \<Rightarrow> {#p#})"

lemma tx_pending_items:
  "tx_pending tx st = ring.items (unat (tp_frame_size (layout (tx_mmap tx)))) (unat (tp_frame_nr (layout (tx_mmap tx))))
     (tx_item (os_endian (tx_os st))) (tx_mem st)"
  by (simp add: tx_pending_def ring.items_def Let_def)

text \<open>The position in the file: \<open>j\<close> packets of the current round were read.\<close>

definition tx_at :: "packet_tx \<Rightarrow> nat \<Rightarrow> packet list \<Rightarrow> nat \<Rightarrow> tx_state \<Rightarrow> bool" where
  "tx_at tx ino ps j st \<longleftrightarrow> j \<le> length ps \<and>
     os_data (tx_os st) ino = pcap_image (os_endian (tx_os st)) ps \<and>
     (\<exists>wr ap. fd_of (tx_os st) (tx_pcap_fd tx) = Some (Reg ino
        (24 + length (concat (map (record_bytes (os_endian (tx_os st))) (take j ps)))) True wr ap))"

definition tx_config :: "packet_tx \<Rightarrow> packet list \<Rightarrow> bool" where
  "tx_config tx ps \<longleftrightarrow> tx_pcap_fd tx > 0 \<and> 32 \<le> unat (tp_frame_size (layout (tx_mmap tx))) \<and>
     (\<exists>s. ring_ready (tx_mmap tx) s) \<and>
     (\<forall>p \<in> set ps. storable p \<and> tplen + length (p_data p) \<le> unat (tp_frame_size (layout (tx_mmap tx))))"

definition tx_inv :: "packet_tx \<Rightarrow> nat \<Rightarrow> packet list \<Rightarrow> tx_state \<Rightarrow> bool" where
  "tx_inv tx ino ps st \<longleftrightarrow> faultless (tx_os st) \<and>
     length (tx_mem st) = unat (tp_frame_size (layout (tx_mmap tx))) * unat (tp_frame_nr (layout (tx_mmap tx))) \<and>
     (\<exists>r j. tx_at tx ino ps j st \<and> tx_queue st = map p_data (concat (replicate r ps) @ take j ps) \<and>
        (tx_eof st \<longrightarrow> j = length ps)) \<and>
     mset (k_sent st) + tx_pending tx st = mset (tx_queue st)"

text \<open>The state in which the thread starts.\<close>

definition tx_init :: "packet_tx \<Rightarrow> nat \<Rightarrow> packet list \<Rightarrow> tx_state \<Rightarrow> bool" where
  "tx_init tx ino ps st \<longleftrightarrow> faultless (tx_os st) \<and> tx_index st = 0 \<and> \<not> tx_eof st \<and> tx_point st = Fill \<and>
     tx_queue st = [] \<and> k_sent st = [] \<and> tx_at tx ino ps 0 st \<and>
     (let fs = unat (tp_frame_size (layout (tx_mmap tx))); n = unat (tp_frame_nr (layout (tx_mmap tx))) in
      length (tx_mem st) = fs * n \<and>
      (\<forall>i < n. tx_status (os_endian (tx_os st)) (frame_at fs i (tx_mem st)) = TP_STATUS_AVAILABLE))"

text \<open>The frame after a packet was queued in it.\<close>

definition tx_write :: "endian \<Rightarrow> byte list \<Rightarrow> byte list \<Rightarrow> byte list" where
  "tx_write e p f = enc e 8 (unat TP_STATUS_SEND_REQUEST) @ enc e 4 (length p) @ enc e 4 (length p) @
     drop 16 (take 32 f) @ p @ drop (32 + length p) f"

lemma tx_write_item:
  assumes "32 + length p \<le> length f" and "length p < 2 ^ 32"
  shows "length (tx_write e p f) = length f" "tx_item e (tx_write e p f) = Some p"
  using assms by (simp_all add: tx_write_def tx_item_def tx_status_def TP_STATUS_SEND_REQUEST_def)

lemma tx_release_item:
  assumes "8 \<le> length f"
  shows "length (tx_release e f) = length f" "tx_item e (tx_release e f) = None"
  using assms by (simp_all add: tx_release_def tx_item_def tx_status_def tp_status_defs)

lemma tx_item_status: "tx_item e f = None \<longleftrightarrow> tx_status e f \<noteq> TP_STATUS_SEND_REQUEST"
  by (simp add: tx_item_def)

lemma tx_mem_writes:
  assumes mem: "length mem = fs * n" and i: "i < n" and fit: "32 + length p \<le> fs"
  shows "do {
      m \<leftarrow> mem_write (i * fs + 32) p mem;
      m \<leftarrow> put_field e (i * fs + 8) 4 (length p) m;
      m \<leftarrow> put_field e (i * fs + 12) 4 (length p) m;
      put_field e (i * fs) 8 (unat TP_STATUS_SEND_REQUEST) m } = Some (put_frame fs i (tx_write e p (frame_at fs i mem)) mem)"
proof -
  let ?f = "frame_at fs i mem"
  have lf: "length ?f = fs" using frame_bound [OF i, of fs] mem by (simp add: frame_at_def)
  let ?P = "\<lambda>g. put_frame fs i g mem"
  have lm: "length (?P g) = fs * n" if "length g = fs" for g using that i mem by (simp add: length_put_frame)
  have wr: "put_field e (i * fs + x) w v (?P g) = Some (?P (take x g @ enc e w v @ drop (x + w) g))"
    if "length g = fs" "x + w \<le> fs" for x w v g
    using mem_write_frame [OF lm [OF that(1)] i, of x "enc e w v"] that i mem
    by (simp add: put_field_def frame_at_put_frame put_frame_put_frame)
  define g0 where "g0 = take 32 ?f @ p @ drop (32 + length p) ?f"
  define g1 where "g1 = take 8 g0 @ enc e 4 (length p) @ drop 12 g0"
  define g2 where "g2 = take 12 g1 @ enc e 4 (length p) @ drop 16 g1"
  have l: "length g0 = fs" "length g1 = fs" "length g2 = fs" using fit lf by (simp_all add: g0_def g1_def g2_def)
  have w0: "mem_write (i * fs + 32) p mem = Some (?P g0)"
    using mem_write_frame [OF mem i, of 32 p, OF fit] by (simp add: g0_def)
  have w1: "put_field e (i * fs + 8) 4 (length p) (?P g0) = Some (?P g1)"
    using wr [OF l(1), of 8 4 "length p"] fit by (simp add: g1_def)
  have w2: "put_field e (i * fs + 12) 4 (length p) (?P g1) = Some (?P g2)"
    using wr [OF l(2), of 12 4 "length p"] fit by (simp add: g2_def)
  have w3: "put_field e (i * fs) 8 (unat TP_STATUS_SEND_REQUEST) (?P g2)
    = Some (?P (enc e 8 (unat TP_STATUS_SEND_REQUEST) @ drop 8 g2))"
    using wr [OF l(3), of 0 8 "unat TP_STATUS_SEND_REQUEST"] fit by simp
  have "enc e 8 (unat TP_STATUS_SEND_REQUEST) @ drop 8 g2 = tx_write e p ?f"
    using fit lf by (simp add: tx_write_def drop_take g0_def g1_def g2_def)
  with w0 w1 w2 w3 show ?thesis by simp
qed

text \<open>One visit of a frame under the invariant: every branch of the loop body.\<close>

lemma tx_fill_cases:
  assumes cfg: "tx_config tx ps" and inv: "tx_inv tx ino ps st"
    and fs: "fs = unat (tp_frame_size (layout (tx_mmap tx)))" and n: "n = unat (tp_frame_nr (layout (tx_mmap tx)))"
    and i: "i < n" and at: "tx_at tx ino ps j st"
    and f: "f = frame_at fs i (tx_mem st)" and e: "e = os_endian (tx_os st)"
  shows "tx_status e f \<noteq> TP_STATUS_AVAILABLE \<and> tx_fill tx i (tx_mem st) (tx_os st) = Some (Busy, tx_mem st, tx_os st)
    \<or> tx_status e f = TP_STATUS_AVAILABLE \<and> j = length ps \<and>
      (\<exists>s'. tx_fill tx i (tx_mem st) (tx_os st) = Some (Eof, tx_mem st, s') \<and>
         tx_at tx ino ps j (st\<lparr>tx_os := s'\<rparr>) \<and> faultless s' \<and> os_endian s' = e)
    \<or> tx_status e f = TP_STATUS_AVAILABLE \<and> j < length ps \<and>
      (\<exists>s'. tx_fill tx i (tx_mem st) (tx_os st)
           = Some (Queued (p_data (ps ! j)), put_frame fs i (tx_write e (p_data (ps ! j)) f) (tx_mem st), s') \<and>
         tx_at tx ino ps (Suc j) (st\<lparr>tx_os := s'\<rparr>) \<and> faultless s' \<and> os_endian s' = e)"
proof -
  from inv have ok: "faultless (tx_os st)" and mem: "length (tx_mem st) = fs * n"
    by (auto simp: tx_inv_def fs n)
  from cfg have fs32: "32 \<le> fs" and pos: "0 < tx_pcap_fd tx"
    and ps: "\<And>p. p \<in> set ps \<Longrightarrow> storable p \<and> 32 + length (p_data p) \<le> fs"
    by (auto simp: tx_config_def fs)
  from cfg i have base: "frame_base (tx_mmap tx) i = Some (i * fs)"
    by (auto simp: tx_config_def fs n frame_base_ready)
  have m: "tp_frame_size (layout (tx_mmap tx)) \<noteq> 0" using fs32 fs by auto
  from at obtain wr ap where j: "j \<le> length ps" and data: "os_data (tx_os st) ino = pcap_image e ps"
    and fd: "fd_of (tx_os st) (tx_pcap_fd tx) = Some (Reg ino (24 + length (concat (map (record_bytes e) (take j ps)))) True wr ap)"
    by (auto simp: tx_at_def e)
  let ?pos = "24 + length (concat (map (record_bytes e) (take j ps)))"
  have fld: "get_field e (i * fs) 8 (tx_mem st) = Some (dec e (take 8 f))"
    using get_field_frame [OF mem i, of 0 8] fs32 by (simp add: f)
  have st: "tx_status e f = of_nat (dec e (take 8 f))" by (simp add: tx_status_def)
  show ?thesis
  proof (cases "tx_status e f = TP_STATUS_AVAILABLE")
    case False
    then have "tx_fill tx i (tx_mem st) (tx_os st) = Some (Busy, tx_mem st, tx_os st)"
      using fld st by (simp add: tx_fill_def base tp_offs flip: e)
    with False show ?thesis by simp
  next
    case True
    show ?thesis
    proof (cases "j = length ps")
      case j': True
      have "length (os_data (tx_os st) ino) \<le> ?pos"
        using data j' by (simp add: pcap_image_def)
      from pcap_read_eof [OF ok pos m fd this] obtain s' where s':
        "ldab_pcap_read (tx_pcap_fd tx) (tp_frame_size (layout (tx_mmap tx))) (tx_os st) = Some ((0, []), s')"
        "fd_of s' (tx_pcap_fd tx) = fd_of (tx_os st) (tx_pcap_fd tx)" "os_data s' = os_data (tx_os st)"
        "os_sched s' = os_sched (tx_os st)" "os_endian s' = e" by (auto simp: e)
      have "mem_write (i * fs + 32) [] (tx_mem st) = Some (tx_mem st)"
        using frame_bound [OF i, of fs] mem fs32 by (simp add: mem_write_def)
      then have "tx_fill tx i (tx_mem st) (tx_os st) = Some (Eof, tx_mem st, s')"
        using fld st True s'(1) by (simp add: tx_fill_def base tp_offs flip: e)
      moreover have "tx_at tx ino ps j (st\<lparr>tx_os := s'\<rparr>)"
        using at s' e by (simp add: tx_at_def)
      moreover have "faultless s'" using ok s' by (simp add: faultless_def)
      ultimately show ?thesis using True j' s'(5) by auto
    next
      case j': False
      with j have jl: "j < length ps" by simp
      let ?p = "ps ! j"
      have p: "storable ?p" "32 + length (p_data ?p) \<le> fs" using ps jl by auto
      have "drop ?pos (os_data (tx_os st) ino) = record_bytes (os_endian (tx_os st)) ?p @ concat (map (record_bytes e) (drop (Suc j) ps))"
        using pcap_image_drop [of e j ps] Cons_nth_drop_Suc [OF jl] data e by (metis concat.simps(2) list.simps(9))
      from pcap_read_record [OF ok pos p(1) _ fd this, of "tp_frame_size (layout (tx_mmap tx))"] p(2) obtain s' where s':
        "ldab_pcap_read (tx_pcap_fd tx) (tp_frame_size (layout (tx_mmap tx))) (tx_os st)
           = Some ((int (length (p_data ?p)), p_data ?p), s')"
        "fd_of s' (tx_pcap_fd tx) = Some (Reg ino (?pos + 16 + length (p_data ?p)) True wr ap)"
        "os_data s' = os_data (tx_os st)" "os_sched s' = os_sched (tx_os st)" "os_endian s' = e"
        by (auto simp: e fs)
      have len: "0 < length (p_data ?p)" using p(1) by (simp add: storable_def)
      have "tx_fill tx i (tx_mem st) (tx_os st)
           = Some (Queued (p_data ?p), put_frame fs i (tx_write e (p_data ?p) f) (tx_mem st), s')"
        using fld st True s'(1) len tx_mem_writes [OF mem i p(2), of e]
        by (auto simp: tx_fill_def base tp_offs f simp flip: e split: bind_splits)
      moreover have "tx_at tx ino ps (Suc j) (st\<lparr>tx_os := s'\<rparr>)"
        using at s' jl data by (simp add: tx_at_def take_Suc_conv_app_nth)
      moreover have "faultless s'" using ok s' by (simp add: faultless_def)
      ultimately show ?thesis using True jl s'(5) by blast
    qed
  qed
qed

lemma tx_invI:
  assumes "faultless (tx_os st)"
    and "length (tx_mem st) = unat (tp_frame_size (layout (tx_mmap tx))) * unat (tp_frame_nr (layout (tx_mmap tx)))"
    and "tx_at tx ino ps j st" and "tx_queue st = map p_data (concat (replicate r ps) @ take j ps)"
    and "tx_eof st \<Longrightarrow> j = length ps" and "mset (k_sent st) + tx_pending tx st = mset (tx_queue st)"
  shows "tx_inv tx ino ps st"
  using assms unfolding tx_inv_def by blast

lemma tx_inv_queue:
  assumes cfg: "tx_config tx ps" and inv: "tx_inv tx ino ps st" and i: "tx_index st < unat (tp_frame_nr (layout (tx_mmap tx)))"
    and fill: "tx_fill tx (tx_index st) (tx_mem st) (tx_os st) = Some (r, mem', s')"
  shows "case r of Busy \<Rightarrow> mem' = tx_mem st \<and> s' = tx_os st
    | Eof \<Rightarrow> tx_inv tx ino ps (st\<lparr>tx_mem := mem', tx_os := s', tx_eof := True, tx_point := Send\<rparr>)
    | Queued p \<Rightarrow> tx_inv tx ino ps (st\<lparr>tx_mem := mem', tx_os := s', tx_index := Suc (tx_index st), tx_queue := tx_queue st @ [p]\<rparr>)"
proof -
  define fs where "fs = unat (tp_frame_size (layout (tx_mmap tx)))"
  define n where "n = unat (tp_frame_nr (layout (tx_mmap tx)))"
  define e where "e = os_endian (tx_os st)"
  define f where "f = frame_at fs (tx_index st) (tx_mem st)"
  note defs = fs_def [symmetric] n_def [symmetric] e_def [symmetric]
  from inv obtain q j where at: "tx_at tx ino ps j st" and que: "tx_queue st = map p_data (concat (replicate q ps) @ take j ps)"
    and eof: "tx_eof st \<longrightarrow> j = length ps" and mem: "length (tx_mem st) = fs * n"
    and pend: "mset (k_sent st) + tx_pending tx st = mset (tx_queue st)"
    by (auto simp: tx_inv_def defs)
  have in_range: "tx_index st < n" using i by (simp add: n_def)
  show ?thesis
  proof (cases r)
    case Busy
    with tx_fill_cases [OF cfg inv fs_def n_def in_range at f_def e_def] fill show ?thesis by auto
  next
    case Eof
    with tx_fill_cases [OF cfg inv fs_def n_def in_range at f_def e_def] fill
    have eq: "j = length ps" "mem' = tx_mem st" "tx_at tx ino ps j (st\<lparr>tx_os := s'\<rparr>)" "faultless s'" "os_endian s' = e" by auto
    with mem que pend Eof show ?thesis
      by (auto simp: tx_inv_def tx_at_def tx_pending_def defs)
  next
    case (Queued p)
    let ?p = "p_data (ps ! j)"
    from Queued tx_fill_cases [OF cfg inv fs_def n_def in_range at f_def e_def] fill
    have eq: "tx_status e f = TP_STATUS_AVAILABLE" "j < length ps" "p = ?p"
      "mem' = put_frame fs (tx_index st) (tx_write e ?p f) (tx_mem st)"
      "tx_at tx ino ps (Suc j) (st\<lparr>tx_os := s'\<rparr>)" "faultless s'" "os_endian s' = e" by auto
    let ?st = "st\<lparr>tx_mem := mem', tx_os := s', tx_index := Suc (tx_index st), tx_queue := tx_queue st @ [p]\<rparr>"
    have lf: "length f = fs" using frame_bound [OF in_range, of fs] mem by (simp add: f_def frame_at_def)
    have fit: "32 + length ?p \<le> length f" "length ?p < 2 ^ 32"
      using cfg eq(2) lf by (auto simp: tx_config_def storable_def fs_def)
    note w = tx_write_item [OF fit, of e]
    have none: "tx_item e f = None" using eq(1) by (simp add: tx_item_def tp_status_defs)
    have "tx_pending tx ?st = tx_pending tx st + {#p#}"
      using ring.items_put [OF mem w(1) [unfolded lf] in_range, of "tx_item e"] none w(2)
      by (simp add: tx_pending_items eq defs f_def [symmetric])
    moreover have "length mem' = fs * n" using length_put_frame [OF in_range mem w(1) [unfolded lf]] eq(4) by simp
    moreover have "tx_queue ?st = map p_data (concat (replicate q ps) @ take (Suc j) ps)"
      using que eq by (simp add: take_Suc_conv_app_nth)
    moreover have "tx_at tx ino ps (Suc j) ?st" "\<not> tx_eof st" using eq eof by (auto simp: tx_at_def)
    moreover have "mset (k_sent ?st) + (tx_pending tx st + {#p#}) = mset (tx_queue ?st)" using pend by simp
    ultimately have "tx_inv tx ino ps ?st" using eq(6) by (intro tx_invI [of ?st tx ino ps "Suc j" q]) (simp_all add: defs)
    with Queued show ?thesis by simp
  qed
qed

lemma tx_inv_sends:
  assumes cfg: "tx_config tx ps" and inv: "tx_inv tx ino ps st"
    and fs: "fs = unat (tp_frame_size (layout (tx_mmap tx)))" and i: "i < unat (tp_frame_nr (layout (tx_mmap tx)))"
    and p: "tx_item (os_endian (tx_os st)) (frame_at fs i (tx_mem st)) = Some p"
  shows "tx_inv tx ino ps (st\<lparr>tx_mem := put_frame fs i (tx_release (os_endian (tx_os st)) (frame_at fs i (tx_mem st))) (tx_mem st),
      k_sent := k_sent st @ [p]\<rparr>)" (is "tx_inv tx ino ps ?st")
proof -
  define n where "n = unat (tp_frame_nr (layout (tx_mmap tx)))"
  let ?e = "os_endian (tx_os st)" and ?f = "frame_at fs i (tx_mem st)"
  from inv have mem: "length (tx_mem st) = fs * n" by (simp add: tx_inv_def fs n_def)
  have i': "i < n" using i by (simp add: n_def)
  have lf: "length ?f = fs" using frame_bound [OF i', of fs] mem by (simp add: frame_at_def)
  have "8 \<le> length ?f" using cfg lf by (simp add: tx_config_def fs)
  note r = tx_release_item [OF this, of ?e, unfolded lf]
  have "tx_pending tx ?st + {#p#} = tx_pending tx st"
    using ring.items_put [OF mem r(1) i', of "tx_item ?e"] r(2) p
    by (simp add: tx_pending_items fs [symmetric] n_def [symmetric])
  then show ?thesis using inv length_put_frame [OF i' mem r(1)]
    by (auto simp: tx_inv_def tx_at_def fs [symmetric] n_def [symmetric])
      (metis add_mset_add_single union_mset_add_mset_right)+
qed

lemma tx_inv_rewinds:
  assumes inv: "tx_inv tx ino ps st" and eof: "tx_eof st" and cfg: "tx_config tx ps"
  shows "tx_inv tx ino ps (st\<lparr>tx_os := snd (ldab_pcap_rewind (tx_pcap_fd tx) (tx_os st)), tx_eof := False,
      tx_index := 0, tx_point := Fill\<rparr>)"
proof -
  from inv eof obtain r wr ap pos where q: "tx_queue st = map p_data (concat (replicate r ps) @ ps)"
    and d: "os_data (tx_os st) ino = pcap_image (os_endian (tx_os st)) ps"
    and fd: "fd_of (tx_os st) (tx_pcap_fd tx) = Some (Reg ino pos True wr ap)" and ok: "faultless (tx_os st)"
    by (auto simp: tx_inv_def tx_at_def)
  have q': "tx_queue st = map p_data (concat (replicate (Suc r) ps))" using q by (simp only: concat_replicate_snoc)
  let ?s = "set_fd (tx_pcap_fd tx) (Some (Reg ino 24 True wr ap)) (tick (tx_os st))"
  have "0 \<le> tx_pcap_fd tx" using cfg by (simp add: tx_config_def)
  then have "tx_at tx ino ps 0 (st\<lparr>tx_os := ?s\<rparr>)" using d by (simp add: tx_at_def)
  moreover have "faultless ?s" using ok by (simp add: faultless_def)
  ultimately show ?thesis
    unfolding ldab_pcap_rewind_faultless [OF ok fd]
    using inv q' by (intro tx_invI [of _ tx ino ps 0 "Suc r"]) (simp_all add: tx_inv_def tx_at_def tx_pending_def)
qed

lemma tx_inv_step:
  assumes cfg: "tx_config tx ps" and inv: "tx_inv tx ino ps st" and step: "tx_step tx st st'"
  shows "tx_inv tx ino ps st'"
  using step
proof cases
  case (busy mem' s')
  then show ?thesis using tx_inv_queue [OF cfg inv busy(3,4)] inv by (simp add: tx_inv_def tx_at_def tx_pending_def)
next
  case (queued p mem' s')
  then show ?thesis using tx_inv_queue [OF cfg inv queued(3,4)] by simp
next
  case (at_eof mem' s')
  then show ?thesis using tx_inv_queue [OF cfg inv at_eof(3,4)] by simp
next
  case rewinds
  then show ?thesis using tx_inv_rewinds [OF inv _ cfg] by simp
next
  case (sends i fs p)
  then show ?thesis using tx_inv_sends [OF cfg inv] by blast
qed (use inv in \<open>simp_all add: tx_inv_def tx_at_def tx_pending_def\<close>)

lemma tx_inv_init:
  assumes "tx_config tx ps" and "tx_init tx ino ps st"
  shows "tx_inv tx ino ps st"
proof -
  from assms(2) have "tx_pending tx st = {#}"
    unfolding tx_pending_items
    by (intro ring.items_empty) (simp add: tx_init_def Let_def tx_item_def tp_status_defs)
  with assms(2) show ?thesis
    by (auto simp: tx_inv_def tx_init_def Let_def intro!: exI [of _ 0])
qed

lemma tx_inv_reachable:
  assumes "tx_config tx ps" and "tx_init tx ino ps st0" and "(tx_step tx)\<^sup>*\<^sup>* st0 st"
  shows "tx_inv tx ino ps st"
  using assms(3)
proof (induction rule: rtranclp_induct)
  case base
  show ?case by (rule tx_inv_init [OF assms(1,2)])
next
  case (step st st')
  then show ?case using tx_inv_step [OF assms(1)] by blast
qed

section \<open>Properties\<close>

text \<open>
  C2: the replay thread sends the capture file, over and over, and nothing else. Without system
  call failures and with packets that fit behind the frame header, in every reachable state the packets
  queued so far are the packets of the file in order, any number of full rounds followed by the
  beginning of the next, and the packets the kernel sent together with those waiting in the ring
  are exactly the packets queued.
\<close>

theorem tx_replays_file:
  assumes "tx_config tx ps" and "tx_init tx ino ps st0" and "(tx_step tx)\<^sup>*\<^sup>* st0 st"
  shows "\<exists>r j. j \<le> length ps \<and> tx_queue st = map p_data (concat (replicate r ps) @ take j ps) \<and>
    mset (k_sent st) + tx_pending tx st = mset (tx_queue st)"
  using tx_inv_reachable [OF assms] by (auto simp: tx_inv_def tx_at_def)

text \<open>The file of two packets replayed on the sample ring.\<close>

definition sample_tx :: packet_tx where
  "sample_tx = \<lparr>tx_mmap = sample_ring, tx_pcap_fd = 4\<rparr>"

definition sample_tx_state :: tx_state where
  "sample_tx_state = \<lparr>tx_mem = replicate 512 0, tx_index = 0, tx_eof = False, tx_point = Fill,
     tx_os = sample_os\<lparr>os_data := (\<lambda>_. pcap_image Little two_packets),
       os_fd := [4 \<mapsto> Reg 0 24 True False False]\<rparr>, tx_queue = [], k_sent = []\<rparr>"

lemma sample_tx_config: "tx_config sample_tx two_packets"
  using sample_ring_ready by (auto simp: tx_config_def sample_tx_def two_packets_def storable_def)

lemma tx_status_zero: "8 \<le> n \<Longrightarrow> tx_status e (replicate n 0) = TP_STATUS_AVAILABLE"
  by (cases e) (simp_all add: tx_status_def dec_def TP_STATUS_AVAILABLE_def min_def numeral_eq_Suc)

lemma sample_tx_init: "tx_init sample_tx 0 two_packets sample_tx_state"
  by (auto simp: tx_init_def sample_tx_def sample_tx_state_def tx_at_def frame_at_def tx_status_zero
      faultless_def sample_os_def fd_of_def)

theorem tx_replays_file_witness:
  "\<exists>st. (tx_step sample_tx)\<^sup>*\<^sup>* sample_tx_state st \<and> tx_queue st = [[1, 2, 3]] \<and>
     mset (k_sent st) + tx_pending sample_tx st = {#[1, 2, 3]#}"
proof -
  let ?st = sample_tx_state
  note inv = tx_inv_init [OF sample_tx_config sample_tx_init]
  have i: "tx_index ?st < unat (tp_frame_nr (layout (tx_mmap sample_tx)))"
    by (simp add: sample_tx_def sample_tx_state_def)
  have at: "tx_at sample_tx 0 two_packets 0 ?st" using sample_tx_init by (simp add: tx_init_def)
  have av: "tx_status (os_endian (tx_os ?st)) (frame_at 64 (tx_index ?st) (tx_mem ?st)) = TP_STATUS_AVAILABLE"
    by (simp add: sample_tx_state_def frame_at_def tx_status_zero)
  have fs: "64 = unat (tp_frame_size (layout (tx_mmap sample_tx)))" by (simp add: sample_tx_def)
  from tx_fill_cases [OF sample_tx_config inv fs refl i at refl refl] av obtain mem' s' where
    "tx_fill sample_tx (tx_index ?st) (tx_mem ?st) (tx_os ?st) = Some (Queued [1, 2, 3], mem', s')"
    by (auto simp: two_packets_def)
  moreover have pt: "tx_point ?st = Fill" by (simp add: sample_tx_state_def)
  ultimately have step: "tx_step sample_tx ?st (?st\<lparr>tx_mem := mem', tx_os := s', tx_index := Suc (tx_index ?st),
      tx_queue := tx_queue ?st @ [[1, 2, 3]]\<rparr>)" (is "tx_step _ _ ?st'")
    using i by (intro tx_step.queued)
  then have run: "(tx_step sample_tx)\<^sup>*\<^sup>* ?st ?st'" by (rule r_into_rtranclp)
  have q: "tx_queue ?st' = [[1, 2, 3]]" by (simp add: sample_tx_state_def)
  from tx_replays_file [OF sample_tx_config sample_tx_init run] q run show ?thesis by (metis mset_single_iff_right)
qed




text \<open>
  C12: a packet that fits a frame but not the room behind its header is read over the end of the frame.
  The limit passed to the reader is the size of the whole frame although the packet starts 32 bytes into
  it: in any frame but the last, the end of the packet replaces the header of the next frame; in the last
  frame, the write leaves the mapping.
\<close>

theorem tx_fill_overruns_frame:
  assumes ready: "ring_ready (tx_mmap tx) s0" and fs: "fs = unat (tp_frame_size (layout (tx_mmap tx)))"
    and n: "n = unat (tp_frame_nr (layout (tx_mmap tx)))" and fs32: "32 \<le> fs"
    and mem: "length mem = fs * n" and i: "i < n"
    and free: "tx_status (os_endian s) (frame_at fs i mem) = TP_STATUS_AVAILABLE"
    and ok: "faultless s" and fd: "0 < tx_pcap_fd tx" and p: "storable p"
    and big: "fs < 32 + length (p_data p)" "length (p_data p) \<le> fs"
    and fl: "fd_of s (tx_pcap_fd tx) = Some (Reg ino pos True wr ap)"
    and at: "drop pos (os_data s ino) = record_bytes (os_endian s) p @ rest"
  shows "if Suc i < n
    then \<exists>mem' s'. tx_fill tx i mem s = Some (Queued (p_data p), mem', s') \<and>
      take (32 + length (p_data p) - fs) (frame_at fs (Suc i) mem') = drop (fs - 32) (p_data p)
    else tx_fill tx i mem s = None"
proof -
  let ?e = "os_endian s" and ?L = "length (p_data p)"
  have base: "frame_base (tx_mmap tx) i = Some (i * fs)" using frame_base_ready [OF ready] i fs n by simp
  from pcap_read_record [OF ok fd p _ fl at, of "tp_frame_size (layout (tx_mmap tx))"] big fs obtain s' where
    rd: "ldab_pcap_read (tx_pcap_fd tx) (tp_frame_size (layout (tx_mmap tx))) s = Some ((int ?L, p_data p), s')" by auto
  have st: "get_field ?e (i * fs) 8 mem = Some (dec ?e (take 8 (frame_at fs i mem)))"
    using get_field_frame [OF mem i, of 0 8] fs32 by simp
  have bound: "i * fs + fs \<le> fs * n" using frame_bound [OF i] .
  show ?thesis
  proof (cases "Suc i < n")
    case False
    then have "fs * n = i * fs + fs" using i by (metis Suc_lessI mult.commute mult_Suc add.commute)
    then have "mem_write (i * fs + 32) (p_data p) mem = None" using big mem by (simp add: mem_write_def)
    then have "tx_fill tx i mem s = None"
      using rd st free by (simp add: tx_fill_def base tp_offs tx_status_def)
    with False show ?thesis by simp
  next
    case True
    have room: "i * fs + fs + fs \<le> fs * n" using frame_bound [OF True, of fs] by simp
    define m0 where "m0 = take (i * fs + 32) mem @ p_data p @ drop (i * fs + 32 + ?L) mem"
    have w0: "mem_write (i * fs + 32) (p_data p) mem = Some m0" using room big mem fs32 by (simp add: mem_write_def m0_def)
    have l0: "length m0 = fs * n" using room big mem fs32 by (simp add: m0_def)
    have over: "take (32 + ?L - fs) (frame_at fs (Suc i) m0) = drop (fs - 32) (p_data p)"
    proof -
      have "drop (i * fs + fs) m0 = drop (fs - 32) (p_data p) @ drop (i * fs + 32 + ?L) mem"
        using room big mem fs32 by (simp add: m0_def)
      moreover have "Suc i * fs = i * fs + fs" by simp
      ultimately have "frame_at fs (Suc i) m0 = take fs (drop (fs - 32) (p_data p) @ drop (i * fs + 32 + ?L) mem)"
        by (simp only: frame_at_def)
      moreover have "length (drop (fs - 32) (p_data p)) = 32 + ?L - fs" using fs32 by simp
      ultimately show ?thesis using big fs32 by (simp add: min_def)
    qed
    have wr: "\<exists>m'. put_field ?e (i * fs + x) w v m = Some m' \<and> length m' = fs * n \<and>
        frame_at fs (Suc i) m' = frame_at fs (Suc i) m" if "length m = fs * n" "x + w \<le> fs" for x w v m
    proof -
      have lf: "length (frame_at fs i m) = fs" using bound that(1) by (simp add: frame_at_def)
      let ?g = "take x (frame_at fs i m) @ enc ?e w v @ drop (x + w) (frame_at fs i m)"
      have lg: "length ?g = fs" using lf that(2) by simp
      show ?thesis
        using mem_write_frame [OF that(1) i, of x "enc ?e w v"] that(2) length_put_frame [OF i that(1) lg]
          frame_at_put_frame [OF i True that(1) lg] by (simp add: put_field_def)
    qed
    from wr [OF l0, of 8 4 ?L] fs32 obtain m1 where m1: "put_field ?e (i * fs + 8) 4 ?L m0 = Some m1"
      "length m1 = fs * n" "frame_at fs (Suc i) m1 = frame_at fs (Suc i) m0" by auto
    from wr [OF m1(2), of 12 4 ?L] fs32 obtain m2 where m2: "put_field ?e (i * fs + 12) 4 ?L m1 = Some m2"
      "length m2 = fs * n" "frame_at fs (Suc i) m2 = frame_at fs (Suc i) m1" by auto
    from wr [OF m2(2), of 0 8 "unat TP_STATUS_SEND_REQUEST"] fs32 obtain m3 where
      m3: "put_field ?e (i * fs) 8 (unat TP_STATUS_SEND_REQUEST) m2 = Some m3"
      "frame_at fs (Suc i) m3 = frame_at fs (Suc i) m2" by auto
    have "0 < ?L" using p by (simp add: storable_def)
    then have "tx_fill tx i mem s = Some (Queued (p_data p), m3, s')"
      using rd st free w0 m1(1) m2(1) m3(1) by (simp add: tx_fill_def base tp_offs tx_status_def)
    moreover have "take (32 + ?L - fs) (frame_at fs (Suc i) m3) = drop (fs - 32) (p_data p)"
      using over m1(3) m2(3) m3(2) by simp
    ultimately show ?thesis using True by auto
  qed
qed

theorem tx_fill_overruns_frame_witness:
  "let p = \<lparr>p_sec = 0, p_usec = 0, p_len = 60, p_data = replicate 60 7\<rparr>;
       s = sample_os\<lparr>os_data := (\<lambda>_. record_bytes Little p)\<rparr>
   in tx_fill sample_tx 7 (replicate 512 0) s = None"
proof -
  let ?p = "\<lparr>p_sec = 0, p_usec = 0, p_len = 60, p_data = replicate 60 7\<rparr>"
  let ?s = "sample_os\<lparr>os_data := (\<lambda>_. record_bytes Little ?p)\<rparr>"
  have "if Suc 7 < 8
    then \<exists>mem' s'. tx_fill sample_tx 7 (replicate 512 0) ?s = Some (Queued (p_data ?p), mem', s') \<and>
      take (32 + length (p_data ?p) - 64) (frame_at 64 (Suc 7) mem') = drop (64 - 32) (p_data ?p)
    else tx_fill sample_tx 7 (replicate 512 0) ?s = None"
  proof (rule tx_fill_overruns_frame [where ino = 0 and pos = 0 and wr = True and ap = False and rest = "[]" and ?s0.0 = sample_os])
    show "ring_ready (tx_mmap sample_tx) sample_os" by (simp add: sample_tx_def sample_ring_ready)
    show "tx_status (os_endian ?s) (frame_at 64 7 (replicate 512 0)) = TP_STATUS_AVAILABLE"
      by (simp add: frame_at_def tx_status_zero)
    show "faultless ?s" by (simp add: faultless_def sample_os_def)
    show "storable ?p" by (simp add: storable_def)
  qed (simp_all add: sample_tx_def sample_os_def fd_of_def)
  then show ?thesis by (simp add: Let_def)
qed

end
