(* ===== verification/Tailq.thy ===== *)
theory Tailq
  imports Posix
begin

text \<open>
  The daemon keeps its threads, captures and replays in three tail queues (\<^verbatim>\<open>sys/queue.h\<close>), each
  with a separate length counter. A node is identified by its address, the heap block it lives
  in. The interface below states what the handlers rely on; every queue of the daemon
  is an instance of it. Unlinking a node that is not in the queue corrupts memory, which is \<open>None\<close>.
\<close>

record 'a tailq =
  tq_head :: "'a list"
  tq_length :: nat

definition empty_tailq :: "'a tailq" where
  "empty_tailq = \<lparr>tq_head = [], tq_length = 0\<rparr>"

definition tailq_insert :: "'a \<Rightarrow> 'a tailq \<Rightarrow> 'a tailq" where
  "tailq_insert n q = \<lparr>tq_head = tq_head q @ [n], tq_length = Suc (tq_length q)\<rparr>"

definition tailq_remove :: "('a \<Rightarrow> nat) \<Rightarrow> nat \<Rightarrow> 'a tailq \<Rightarrow> 'a tailq option" where
  "tailq_remove addr b q =
     (if \<not> tq_length q > 0 \<or> b \<notin> addr ` set (tq_head q) then None
      else Some \<lparr>tq_head = filter (\<lambda>m. addr m \<noteq> b) (tq_head q), tq_length = tq_length q - 1\<rparr>)"

locale node_queue =
  fixes insert_node :: "'n \<Rightarrow> 'q \<Rightarrow> 'q" and remove_node :: "'n \<Rightarrow> 'q \<Rightarrow> 'q option"
    and find_node :: "nat \<Rightarrow> 'q \<Rightarrow> 'n option" and length_get :: "'q \<Rightarrow> nat"
    and nodes :: "'q \<Rightarrow> 'n list" and addr :: "'n \<Rightarrow> nat" and ident :: "'n \<Rightarrow> nat"
  assumes nodes_insert: "nodes (insert_node n q) = nodes q @ [n]"
    and length_insert: "length_get (insert_node n q) = Suc (length_get q)"
    and remove_some: "length_get q = length (nodes q) \<Longrightarrow> addr n \<in> addr ` set (nodes q) \<Longrightarrow>
      \<exists>q'. remove_node n q = Some q' \<and> nodes q' = filter (\<lambda>m. addr m \<noteq> addr n) (nodes q) \<and>
           length_get q' = length_get q - 1"
    and find_nodes: "find_node i q = find (\<lambda>n. ident n = i) (nodes q)"
begin

text \<open>A well-formed queue: the counter is right, and addresses and identifiers are unique.\<close>

definition queue_wf :: "'q \<Rightarrow> bool" where
  "queue_wf q \<longleftrightarrow> length_get q = length (nodes q) \<and> distinct (map addr (nodes q)) \<and> distinct (map ident (nodes q))"

lemma queue_wf_insert:
  assumes "queue_wf q" and "addr n \<notin> addr ` set (nodes q)" and "ident n \<notin> ident ` set (nodes q)"
  shows "queue_wf (insert_node n q)"
  using assms by (simp add: queue_wf_def nodes_insert length_insert)

lemma find_some:
  assumes "queue_wf q" and "n \<in> set (nodes q)"
  shows "find_node (ident n) q = Some n"
proof -
  obtain m where m: "find (\<lambda>m. ident m = ident n) (nodes q) = Some m"
    using assms(2) by (cases "find (\<lambda>m. ident m = ident n) (nodes q)") (auto simp: find_None_iff)
  then have "m \<in> set (nodes q)" "ident m = ident n" by (auto dest: find_SomeD)
  with assms have "m = n" by (auto simp: queue_wf_def distinct_map dest: inj_onD)
  with m show ?thesis by (simp add: find_nodes)
qed

lemma find_someD: "find_node i q = Some n \<Longrightarrow> n \<in> set (nodes q) \<and> ident n = i"
  by (auto simp: find_nodes dest: find_SomeD)

lemma find_none: "find_node i q = None \<longleftrightarrow> i \<notin> ident ` set (nodes q)"
  by (auto simp: find_nodes find_None_iff)

lemma length_filter_addr:
  assumes "distinct (map addr ns)" and "n \<in> set ns"
  shows "length (filter (\<lambda>m. addr m \<noteq> addr n) ns) = length ns - 1"
  using assms
proof (induction ns)
  case Nil
  then show ?case by simp
next
  case (Cons a ns)
  show ?case
  proof (cases "addr a = addr n")
    case True
    with Cons.prems have "\<forall>m \<in> set ns. addr m \<noteq> addr n" by (metis distinct.simps(2) image_eqI list.set_map list.simps(9))
    then show ?thesis using True by simp
  next
    case False
    with Cons show ?thesis by (cases ns) auto
  qed
qed

lemma remove_member:
  assumes wf: "queue_wf q" and n: "n \<in> set (nodes q)"
  shows "\<exists>q'. remove_node n q = Some q' \<and> nodes q' = filter (\<lambda>m. addr m \<noteq> addr n) (nodes q) \<and>
    queue_wf q' \<and> set (nodes q') = set (nodes q) - {n} \<and> find_node (ident n) q' = None"
proof -
  from wf n obtain q' where q': "remove_node n q = Some q'" "nodes q' = filter (\<lambda>m. addr m \<noteq> addr n) (nodes q)"
    "length_get q' = length_get q - 1" using remove_some [of q n] by (auto simp: queue_wf_def)
  have inj: "m = n" if "m \<in> set (nodes q)" "addr m = addr n" for m
    using that wf n by (auto simp: queue_wf_def distinct_map dest: inj_onD)
  have inj': "m = n" if "m \<in> set (nodes q)" "ident m = ident n" for m
    using that wf n by (auto simp: queue_wf_def distinct_map dest: inj_onD)
  have "queue_wf q'" using wf q' length_filter_addr [of "nodes q" n] n
    by (auto simp: queue_wf_def distinct_map intro: inj_on_subset)
  moreover have "set (nodes q') = set (nodes q) - {n}" using q' inj by auto
  moreover have "find_node (ident n) q' = None" using q' inj' by (auto simp: find_none)
  ultimately show ?thesis using q' by blast
qed

lemma insert_find:
  assumes "queue_wf q" and "addr n \<notin> addr ` set (nodes q)" and "ident n \<notin> ident ` set (nodes q)"
  shows "find_node (ident n) (insert_node n q) = Some n"
  by (rule find_some [OF queue_wf_insert [OF assms]]) (simp add: nodes_insert)

end

lemma tailq_insert_sel [simp]:
  "tq_head (tailq_insert n q) = tq_head q @ [n]" "tq_length (tailq_insert n q) = Suc (tq_length q)"
  by (simp_all add: tailq_insert_def)

lemma tailq_remove_some:
  "tq_length q = length (tq_head q) \<Longrightarrow> b \<in> addr ` set (tq_head q) \<Longrightarrow>
   tailq_remove addr b q = Some \<lparr>tq_head = filter (\<lambda>m. addr m \<noteq> b) (tq_head q), tq_length = tq_length q - 1\<rparr>"
  by (auto simp: tailq_remove_def)

end
