(* ===== verification/Text.thy ===== *)
theory Text
  imports Prelude
begin

text \<open>
  The parts of C string handling the sources use: decimal output of \<open>snprintf\<close>, the \<open>%u\<close>
  conversion of \<open>sscanf\<close> and the search for a character. A pointer into a string is the suffix it
  points at, so a pointer is before another one of the same string when its suffix is longer.
\<close>

section \<open>Decimal numbers\<close>

definition digit :: "nat \<Rightarrow> char" where "digit d = char_of (48 + d)"

definition is_digit :: "char \<Rightarrow> bool" where "is_digit c \<longleftrightarrow> 48 \<le> (of_char c :: nat) \<and> (of_char c :: nat) \<le> 57"

definition digit_val :: "char \<Rightarrow> nat" where "digit_val c = of_char c - 48"

fun show_nat :: "nat \<Rightarrow> string" where
  "show_nat n = (if n < 10 then [digit n] else show_nat (n div 10) @ [digit (n mod 10)])"

declare show_nat.simps [simp del]

definition nat_of_digits :: "string \<Rightarrow> nat" where
  "nat_of_digits ds = foldl (\<lambda>acc c. acc * 10 + digit_val c) 0 ds"

lemma is_digit_digit [simp]: "d < 10 \<Longrightarrow> is_digit (digit d)"
  by (simp add: is_digit_def digit_def)

lemma digit_val_digit [simp]: "d < 10 \<Longrightarrow> digit_val (digit d) = d"
  by (simp add: digit_val_def digit_def)

lemma show_nat_digits: "list_all is_digit (show_nat n)"
  by (induction n rule: show_nat.induct) (subst show_nat.simps, simp)

lemma show_nat_nonempty [simp]: "show_nat n \<noteq> []"
  by (subst show_nat.simps) simp

lemma nat_of_digits_show_nat [simp]: "nat_of_digits (show_nat n) = n"
  by (induction n rule: show_nat.induct) (subst show_nat.simps, simp add: nat_of_digits_def)

section \<open>Scanning\<close>

definition is_space :: "char \<Rightarrow> bool" where
  "is_space c \<longleftrightarrow> of_char c \<in> {9, 10, 11, 12, 13, 32 :: nat}"

definition ULONG_MAX :: nat where "ULONG_MAX = 2 ^ 64 - 1"

text \<open>
  \<open>sscanf(p, "%u", &v)\<close>: white space, an optional sign, digits. The number is converted as by
  \<open>strtoul\<close> (it saturates) and stored in an \<^verbatim>\<open>unsigned int\<close>. \<open>None\<close> when there is no digit.
\<close>

definition scan_u :: "string \<Rightarrow> u32 option" where
  "scan_u p =
     (let q = dropWhile is_space p;
          neg = (q \<noteq> [] \<and> hd q = CHR ''-'');
          q = (if q \<noteq> [] \<and> hd q \<in> {CHR ''-'', CHR ''+''} then tl q else q);
          ds = takeWhile is_digit q
      in if ds = [] then None
         else let v = nat_of_digits ds
              in Some (if v > ULONG_MAX then of_nat ULONG_MAX
                       else if neg then - of_nat v else of_nat v))"

text \<open>\<open>strchr\<close> and the character after it.\<close>

definition strchr :: "string \<Rightarrow> char \<Rightarrow> string option" where
  "strchr q c = (if c \<in> set q then Some (dropWhile (\<lambda>x. x \<noteq> c) q) else None)"

lemma digit_not_space: "is_digit c \<Longrightarrow> \<not> is_space c"
  by (auto simp: is_digit_def is_space_def)

lemma digit_not_sign: "is_digit c \<Longrightarrow> c \<noteq> CHR ''-'' \<and> c \<noteq> CHR ''+'' \<and> c \<noteq> CHR '','' \<and> c \<noteq> CHR '':''"
  by (auto simp: is_digit_def)

lemma takeWhile_digits: "list_all is_digit ds \<Longrightarrow> (rest = [] \<or> \<not> is_digit (hd rest)) \<Longrightarrow> takeWhile is_digit (ds @ rest) = ds"
  by (induction ds) (auto, metis list.sel(1) takeWhile.simps(1) takeWhile_eq_Nil_iff)

lemma scan_u_show_nat:
  assumes "n < 2 ^ 32" and "rest = [] \<or> \<not> is_digit (hd rest)"
  shows "scan_u (show_nat n @ rest) = Some (of_nat n)"
proof -
  obtain c cs where c: "show_nat n = c # cs" by (cases "show_nat n") auto
  with show_nat_digits [of n] have d: "is_digit c" by simp
  have tw: "takeWhile is_digit (show_nat n @ rest) = show_nat n"
    using takeWhile_digits [OF show_nat_digits assms(2)] .
  have "dropWhile is_space (show_nat n @ rest) = show_nat n @ rest"
    using d by (simp add: c digit_not_space)
  moreover have "\<not> n > ULONG_MAX" using assms(1) by (simp add: ULONG_MAX_def)
  ultimately show ?thesis
    using tw digit_not_sign [OF d] nat_of_digits_show_nat [of n] by (simp add: scan_u_def Let_def c)
qed

end
