(* ===== verification/Cpu_Affinity.thy ===== *)
theory Cpu_Affinity
  imports Text
begin

text \<open>
  CPU lists, from \<^verbatim>\<open>src/dabbad/thread.c\<close>: the printer \<open>cpu_affinity2str\<close> and the parser
  \<open>str2cpu_affinity\<close> of strings like \<open>0,2-5,8-12:2\<close>. A CPU set is a set of numbers below
  \<open>CPU_SETSIZE\<close>, and storing a larger number does nothing, as in the C library. The printer appends to a buffer of \<open>len\<close> bytes; once the text is longer than
  the buffer the remaining size wraps around and the next call writes outside, which is
  \<open>None\<close>. The parser's inner loop may not end, so it is a partial function: \<open>None\<close> is a loop that runs forever.
\<close>

definition CPU_SETSIZE :: nat where "CPU_SETSIZE = 1024"

section \<open>The printer\<close>

text \<open>The inner loop: how many of the CPUs from \<open>j\<close> on are set, without a gap.\<close>

fun cpu_run :: "nat set \<Rightarrow> nat \<Rightarrow> nat \<Rightarrow> nat" where
  "cpu_run cpus j 0 = 0"
| "cpu_run cpus j (Suc n) = (if j \<in> cpus then Suc (cpu_run cpus (Suc j) n) else 0)"

text \<open>
  \<open>off += snprintf(&str[off], len - off, ...)\<close>: \<open>t\<close> is the text so far, \<open>off\<close> its
  length. The unsigned size is what is left of the buffer, or wraps when nothing is.
\<close>

definition append_text :: "nat \<Rightarrow> string \<Rightarrow> string \<Rightarrow> string option" where
  "append_text n t new = (if length t > n then None else Some (t @ new))"

text \<open>The outer loop; \<open>run\<close> is declared outside of it and keeps its value from group to group.\<close>

function cpu_affinity_loop :: "nat set \<Rightarrow> nat \<Rightarrow> nat \<Rightarrow> nat \<Rightarrow> bool \<Rightarrow> string \<Rightarrow> string option" where
  "cpu_affinity_loop cpus n i run trail_sep t =
     (if i < CPU_SETSIZE then
        if i \<in> cpus then
          (let run = run + cpu_run cpus (i + 1) (CPU_SETSIZE - (i + 1)) in
           do {
             t \<leftarrow> (if trail_sep then append_text n t '','' else Some t);
             if run = 0 then do {
               t \<leftarrow> append_text n t (show_nat i);
               cpu_affinity_loop cpus n (i + 1) run True t }
             else if run = 1 then do {
               t \<leftarrow> append_text n t (show_nat i @ '','' @ show_nat (i + 1));
               cpu_affinity_loop cpus n (i + 2) run True t }
             else do {
               t \<leftarrow> append_text n t (show_nat i @ ''-'' @ show_nat (i + run));
               cpu_affinity_loop cpus n (i + run + 1) run True t }
           })
        else cpu_affinity_loop cpus n (i + 1) run trail_sep t
      else Some t)"
  by pat_completeness auto
termination
  by (relation "measure (\<lambda>(_, _, i, _). CPU_SETSIZE - i)") auto

declare cpu_affinity_loop.simps [simp del]

text \<open>The string in the buffer is the text cut to its size less one.\<close>

definition cpu_affinity2str :: "nat set \<Rightarrow> nat \<Rightarrow> string option" where
  "cpu_affinity2str cpus n = map_option (take (n - 1)) (cpu_affinity_loop cpus n 0 0 False [])"

section \<open>The parser\<close>

definition nexttoken :: "string option \<Rightarrow> char \<Rightarrow> string option" where
  "nexttoken q sep = do { q \<leftarrow> q; q \<leftarrow> strchr q sep; Some (tl q) }"

text \<open>\<open>while (a <= b) { CPU_SET(a, cpus); a += s; }\<close>; setting a CPU outside of the set does nothing.\<close>

definition CPU_SET :: "u32 \<Rightarrow> nat set \<Rightarrow> nat set" where
  "CPU_SET a cpus = (if unat a < CPU_SETSIZE then insert (unat a) cpus else cpus)"

partial_function (option) cpu_set_range :: "u32 \<Rightarrow> u32 \<Rightarrow> u32 \<Rightarrow> nat set \<Rightarrow> nat set option" where
  "cpu_set_range a b s cpus =
     (if a \<le> b then cpu_set_range (a + s) b s (CPU_SET a cpus) else Some cpus)"

text \<open>The pointer comparison \<open>c1 != NULL && (c2 == NULL || c1 < c2)\<close>.\<close>

definition before :: "string option \<Rightarrow> string option \<Rightarrow> bool" where
  "before c1 c2 =
     (case c1 of None \<Rightarrow> False | Some x \<Rightarrow> (case c2 of None \<Rightarrow> True | Some y \<Rightarrow> length x > length y))"

text \<open>The bounds and stride of one token: an error, or begin, end and stride of the range.\<close>

definition scan_range :: "string \<Rightarrow> (u32 \<times> u32 \<times> u32) option" where
  "scan_range p =
     do {
       a \<leftarrow> scan_u p;
       let c1 = nexttoken (Some p) CHR ''-'';
           c2 = nexttoken (Some p) CHR '','' in
       if before c1 c2 then
         do {
           b \<leftarrow> scan_u (the c1);
           let c1 = nexttoken c1 CHR '':'' in
           if before c1 c2 then do { s \<leftarrow> scan_u (the c1); Some (a, b, s) }
           else Some (a, b, 1)
         }
       else Some (a, a, 1)
     }"

text \<open>The outer loop over the tokens; each token starts after a comma of the one before.\<close>

lemma nexttoken_shorter: "nexttoken (Some q) c = Some r \<Longrightarrow> length r < length q"
proof -
  assume "nexttoken (Some q) c = Some r"
  then have r: "r = tl (dropWhile (\<lambda>x. x \<noteq> c) q)" "c \<in> set q"
    by (auto simp: nexttoken_def strchr_def split: if_splits)
  then have "dropWhile (\<lambda>x. x \<noteq> c) q \<noteq> []" by (auto simp: dropWhile_eq_Nil_conv)
  then have "length r < length (dropWhile (\<lambda>x. x \<noteq> c) q)" using r by simp
  also have "\<dots> \<le> length q" by (rule length_dropWhile_le)
  finally show ?thesis .
qed

function str2cpu_loop :: "string option \<Rightarrow> nat set \<Rightarrow> (int \<times> nat set) option" where
  "str2cpu_loop None cpus = Some (0, cpus)"
| "str2cpu_loop (Some p) cpus =
     (case scan_range p of
        None \<Rightarrow> Some (- EINVAL, cpus)
      | Some (a, b, s) \<Rightarrow>
          if \<not> a \<le> b then Some (- EINVAL, cpus) else
          do {
            cpus \<leftarrow> cpu_set_range a b s cpus;
            str2cpu_loop (nexttoken (Some p) CHR '','') cpus
          })"
  by pat_completeness auto
termination
  by (relation "measure (\<lambda>(q, _). case q of None \<Rightarrow> 0 | Some p \<Rightarrow> Suc (length p))")
    (auto split: option.splits dest: nexttoken_shorter)

text \<open>The set is cleared first.\<close>

definition str2cpu_affinity :: "string \<Rightarrow> (int \<times> nat set) option" where
  "str2cpu_affinity str = str2cpu_loop (Some str) {}"

section \<open>Ranges of the parser\<close>

lemma cpu_set_range_ok:
  assumes "unat s \<noteq> 0" and "unat b + unat s < 2 ^ 32"
  shows "cpu_set_range a b s m = Some (m \<union> {x. \<exists>i. x = unat a + i * unat s \<and> x \<le> unat b \<and> x < CPU_SETSIZE})"
  using assms
proof (induction "Suc (unat b) - unat a" arbitrary: a m rule: less_induct)
  case less
  show ?case
  proof (cases "a \<le> b")
    case False
    then have "unat b < unat a" by (simp add: word_le_nat_alt)
    then have "{x. \<exists>i. x = unat a + i * unat s \<and> x \<le> unat b \<and> x < CPU_SETSIZE} = {}" by auto
    with False show ?thesis by (simp add: cpu_set_range.simps [of a]) blast
  next
    case True
    then have le: "unat a \<le> unat b" by (simp add: word_le_nat_alt)
    have nw: "unat (a + s) = unat a + unat s" using le assms(2) by (simp add: unat_word_ariths)
    have ih: "cpu_set_range (a + s) b s (CPU_SET a m) = Some (CPU_SET a m \<union>
        {x. \<exists>i. x = unat (a + s) + i * unat s \<and> x \<le> unat b \<and> x < CPU_SETSIZE})"
      using less.hyps [of "a + s"] assms nw le by simp
    have "CPU_SET a m \<union> {x. \<exists>i. x = unat (a + s) + i * unat s \<and> x \<le> unat b \<and> x < CPU_SETSIZE}
      = m \<union> {x. \<exists>i. x = unat a + i * unat s \<and> x \<le> unat b \<and> x < CPU_SETSIZE}" (is "?L = m \<union> ?R a")
    proof -
      have "?R a = (if unat a < CPU_SETSIZE then {unat a} else {}) \<union> ?R (a + s)"
      proof (rule set_eqI, rule iffI)
        fix x assume "x \<in> ?R a"
        then obtain i where i: "x = unat a + i * unat s" "x \<le> unat b" "x < CPU_SETSIZE" by blast
        then show "x \<in> (if unat a < CPU_SETSIZE then {unat a} else {}) \<union> ?R (a + s)"
          using nw by (cases i) auto
      next
        fix x assume "x \<in> (if unat a < CPU_SETSIZE then {unat a} else {}) \<union> ?R (a + s)"
        then show "x \<in> ?R a"
        proof
          assume "x \<in> (if unat a < CPU_SETSIZE then {unat a} else {})"
          then show ?thesis using le by (auto intro!: exI [of _ 0] split: if_splits)
        next
          assume "x \<in> ?R (a + s)"
          then obtain i where "x = unat a + unat s + i * unat s" "x \<le> unat b" "x < CPU_SETSIZE" using nw by auto
          then show ?thesis by (auto intro!: exI [of _ "Suc i"])
        qed
      qed
      then show ?thesis by (auto simp: CPU_SET_def)
    qed
    with ih True show ?thesis by (simp add: cpu_set_range.simps [of a])
  qed
qed

lemma cpu_set_range_1:
  assumes "a \<le> b" and "b < CPU_SETSIZE"
  shows "cpu_set_range (of_nat a) (of_nat b) 1 m = Some (m \<union> {a..b})"
proof -
  have u: "unat (of_nat a :: u32) = a" "unat (of_nat b :: u32) = b"
    using assms by (simp_all add: CPU_SETSIZE_def unat_of_nat)
  have "{x. \<exists>i. x = a + i * 1 \<and> x \<le> b \<and> x < CPU_SETSIZE} = {a..b}"
    using assms by (auto intro: le_Suc_ex)
  then show ?thesis
    using cpu_set_range_ok [of 1 "of_nat b" "of_nat a" m] u assms by (simp add: CPU_SETSIZE_def)
qed

lemma cpu_set_range_diverges:
  assumes "s = 0 \<or> b = - 1" and "a \<le> b"
  shows "cpu_set_range a b s m = None"
proof (cases "cpu_set_range a b s m")
  case (Some r)
  have "(s = 0 \<or> b = - 1) \<longrightarrow> \<not> a \<le> b"
    using Some
  proof (rule cpu_set_range.raw_induct [where P = "\<lambda>a b s m r. (s = 0 \<or> b = - 1) \<longrightarrow> \<not> a \<le> b", rotated])
    fix f a b s m r
    assume ih: "\<And>a b s m r. f a b s m = Some r \<Longrightarrow> (s = 0 \<or> b = - 1) \<longrightarrow> \<not> a \<le> b"
      and body: "(if a \<le> b then f (a + s) b s (CPU_SET a m) else Some m) = Some r"
    show "(s = 0 \<or> b = - 1) \<longrightarrow> \<not> a \<le> b"
    proof (intro impI notI)
      assume c: "s = 0 \<or> b = - 1" and le: "a \<le> b"
      with ih [of "a + s" b s "CPU_SET a m" r] body have "\<not> a + s \<le> b" by simp
      with c le show False by auto
    qed
  qed
  with assms show ?thesis by simp
qed simp

section \<open>Text\<close>

text \<open>The text of a list of ranges.\<close>

definition range_text :: "nat \<times> nat \<Rightarrow> string" where
  "range_text r = (if fst r = snd r then show_nat (fst r) else show_nat (fst r) @ ''-'' @ show_nat (snd r))"

fun ranges_text :: "(nat \<times> nat) list \<Rightarrow> string" where
  "ranges_text [] = []"
| "ranges_text [r] = range_text r"
| "ranges_text (r # rs) = range_text r @ '','' @ ranges_text rs"

definition sep_text :: "bool \<Rightarrow> (nat \<times> nat) list \<Rightarrow> string" where
  "sep_text sep rs = (if rs = [] then [] else (if sep then '','' else []) @ ranges_text rs)"

lemma sep_text_Cons: "sep_text sep (r # rs) = (if sep then '','' else []) @ range_text r @ sep_text True rs"
  by (cases rs) (simp_all add: sep_text_def)

definition range_ok :: "nat \<times> nat \<Rightarrow> bool" where
  "range_ok r \<longleftrightarrow> fst r \<le> snd r \<and> snd r < CPU_SETSIZE"

lemma nexttoken_append: "c \<notin> set xs \<Longrightarrow> nexttoken (Some (xs @ c # ys)) c = Some ys"
  by (induction xs) (auto simp: nexttoken_def strchr_def)

lemma nexttoken_skip: "c \<notin> set xs \<Longrightarrow> nexttoken (Some (xs @ ys)) c = nexttoken (Some ys) c"
  by (induction xs) (auto simp: nexttoken_def strchr_def)

lemma nexttoken_None: "c \<notin> set xs \<Longrightarrow> nexttoken (Some xs) c = None"
  by (simp add: nexttoken_def strchr_def)

lemma show_nat_chars: "c \<in> set (show_nat n) \<Longrightarrow> is_digit c"
  using show_nat_digits [of n] by (auto simp: list_all_iff)

lemma show_nat_no: "\<not> is_digit c \<Longrightarrow> c \<notin> set (show_nat n)"
  using show_nat_chars by blast

lemma seps_not_digit [simp]: "\<not> is_digit CHR '',''" "\<not> is_digit CHR ''-''" "\<not> is_digit CHR '':''"
  by (simp_all add: is_digit_def)

lemma range_text_no: "CHR '','' \<notin> set (range_text r)" "CHR '':'' \<notin> set (range_text r)"
  by (auto simp: range_text_def show_nat_no)

lemma ranges_text_no_colon: "CHR '':'' \<notin> set (ranges_text rs)"
  by (induction rs rule: ranges_text.induct) (auto simp: range_text_no)

lemma scan_range_text:
  assumes ok: "range_ok r" and rest: "rest = [] \<or> (\<exists>y. rest = CHR '','' # y)" and nc: "CHR '':'' \<notin> set rest"
  shows "scan_range (range_text r @ rest) = Some (of_nat (fst r), of_nat (snd r), 1)"
proof -
  obtain a b where r: "r = (a, b)" by force
  have lt: "a < 2 ^ 32" "b < 2 ^ 32" using ok r by (auto simp: range_ok_def CPU_SETSIZE_def)
  have hd: "rest = [] \<or> \<not> is_digit (hd rest)" using rest by auto
  have c2: "nexttoken (Some (xs @ rest)) CHR '','' = (case rest of [] \<Rightarrow> None | _ # y \<Rightarrow> Some y)"
    if "CHR '','' \<notin> set xs" for xs
    using that rest by (auto simp: nexttoken_append nexttoken_None split: list.splits)
  show ?thesis
  proof (cases "a = b")
    case True
    have t: "range_text r = show_nat a" using r True by (simp add: range_text_def)
    have "\<not> before (nexttoken (Some (show_nat a @ rest)) CHR ''-'') (nexttoken (Some (show_nat a @ rest)) CHR '','')"
    proof (cases rest)
      case Nil
      then show ?thesis by (simp add: nexttoken_None show_nat_no before_def)
    next
      case (Cons c y)
      with rest have c: "c = CHR '',''" by auto
      have "nexttoken (Some (show_nat a @ rest)) CHR ''-'' = nexttoken (Some y) CHR ''-''"
        using nexttoken_skip [of "CHR ''-''" "show_nat a @ [c]" y] c Cons by (simp add: show_nat_no)
      moreover have "nexttoken (Some (show_nat a @ rest)) CHR '','' = Some y"
        using c2 [of "show_nat a"] Cons by (simp add: show_nat_no)
      ultimately show ?thesis
        using nexttoken_shorter [of y "CHR ''-''"] by (auto simp: before_def split: option.splits) 
    qed
    then show ?thesis using scan_u_show_nat [OF lt(1) hd] t r True by (simp add: scan_range_def Let_def)
  next
    case False
    have t: "range_text r @ rest = show_nat a @ CHR ''-'' # show_nat b @ rest" using r False by (simp add: range_text_def)
    have c1: "nexttoken (Some (range_text r @ rest)) CHR ''-'' = Some (show_nat b @ rest)"
      unfolding t by (rule nexttoken_append) (simp add: show_nat_no)
    have "before (Some (show_nat b @ rest)) (nexttoken (Some (range_text r @ rest)) CHR '','')"
      using c2 [of "range_text r"] rest range_text_no(1) by (auto simp: before_def split: list.splits)
    moreover have "nexttoken (Some (show_nat b @ rest)) CHR '':'' = None"
      using nc by (intro nexttoken_None) (auto simp: show_nat_no)
    moreover have "scan_u (range_text r @ rest) = Some (of_nat a)"
      unfolding t by (rule scan_u_show_nat [OF lt(1)]) simp
    ultimately show ?thesis
      using scan_u_show_nat [OF lt(2) hd] c1 r by (simp add: scan_range_def Let_def before_def)
  qed
qed

lemma str2cpu_ranges:
  assumes "rs \<noteq> []" and "\<forall>r \<in> set rs. range_ok r"
  shows "str2cpu_loop (Some (ranges_text rs)) m = Some (0, m \<union> (\<Union>r \<in> set rs. {fst r..snd r}))"
  using assms
proof (induction rs arbitrary: m rule: ranges_text.induct)
  case 1
  then show ?case by simp
next
  case (2 r)
  then have le: "(of_nat (fst r) :: u32) \<le> of_nat (snd r)"
    by (auto simp: range_ok_def CPU_SETSIZE_def word_le_nat_alt unat_of_nat)
  from 2 scan_range_text [of r "[]"] cpu_set_range_1 [of "fst r" "snd r" m] le show ?case
    by (simp add: range_ok_def nexttoken_None range_text_no)
next
  case (3 r r' rs)
  then have le: "(of_nat (fst r) :: u32) \<le> of_nat (snd r)"
    by (auto simp: range_ok_def CPU_SETSIZE_def word_le_nat_alt unat_of_nat)
  have "nexttoken (Some (range_text r @ CHR '','' # ranges_text (r' # rs))) CHR '','' = Some (ranges_text (r' # rs))"
    by (rule nexttoken_append) (rule range_text_no)
  with 3 scan_range_text [of r "CHR '','' # ranges_text (r' # rs)"] cpu_set_range_1 [of "fst r" "snd r" m] le
    ranges_text_no_colon [of "r' # rs"] show ?case
    by (simp add: range_ok_def Un_assoc)
qed


section \<open>Text of the printer\<close>

lemma cpu_run_props:
  "{j..<j + cpu_run m j n} \<subseteq> m" "cpu_run m j n \<le> n" "cpu_run m j n < n \<Longrightarrow> j + cpu_run m j n \<notin> m"
proof -
  have "{j..<j + cpu_run m j n} \<subseteq> m \<and> cpu_run m j n \<le> n \<and> (cpu_run m j n < n \<longrightarrow> j + cpu_run m j n \<notin> m)"
  proof (induction n arbitrary: j)
    case 0
    show ?case by simp
  next
    case (Suc n)
    show ?case
    proof (cases "j \<in> m")
      case True
      have "{j..<j + Suc (cpu_run m (Suc j) n)} = insert j {Suc j..<Suc j + cpu_run m (Suc j) n}" by auto
      with True Suc [of "Suc j"] show ?thesis by simp
    qed simp
  qed
  then show "{j..<j + cpu_run m j n} \<subseteq> m" "cpu_run m j n \<le> n" "cpu_run m j n < n \<Longrightarrow> j + cpu_run m j n \<notin> m"
    by auto
qed

lemma cpu_affinity_loop_done:
  "\<forall>j \<in> m. j < i \<Longrightarrow> cpu_affinity_loop m n i run sep t = Some t"
proof (induction "CPU_SETSIZE - i" arbitrary: i)
  case 0
  then show ?case by (simp add: cpu_affinity_loop.simps)
next
  case (Suc x)
  then have "i \<notin> m" "cpu_affinity_loop m n (i + 1) run sep t = Some t" by (auto simp: less_Suc_eq)
  then show ?case by (simp add: cpu_affinity_loop.simps [of m n i])
qed

lemma append_text_SomeD: "append_text n t new = Some t' \<Longrightarrow> t' = t @ new"
  by (simp add: append_text_def split: if_splits)

text \<open>One group of the printer: what it appends and where it goes on.\<close>

lemma cpu_affinity_loop_group:
  assumes "cpu_affinity_loop m n i run sep t = Some t'" and "i < CPU_SETSIZE" and "i \<in> m"
    and "r = run + cpu_run m (i + 1) (CPU_SETSIZE - (i + 1))"
  shows "cpu_affinity_loop m n (i + (if r = 0 then 1 else r + 1)) r True
    (t @ (if sep then '','' else []) @ (if r = 0 then show_nat i else if r = 1 then show_nat i @ '','' @ show_nat (i + 1)
       else show_nat i @ ''-'' @ show_nat (i + r))) = Some t'"
  using assms(1) unfolding cpu_affinity_loop.simps [of m n i] Let_def assms(4) [symmetric]
  using assms(2,3) by (auto split: if_splits bind_splits dest!: append_text_SomeD)

text \<open>Sets the printer renders correctly: a run of adjacent CPUs is the last group.\<close>

definition one_run :: "nat set \<Rightarrow> bool" where
  "one_run m \<longleftrightarrow> (\<forall>i \<in> m. Suc i \<in> m \<longrightarrow> (\<forall>j \<in> m. i \<le> j \<longrightarrow> {i..j} \<subseteq> m))"

lemma last_run:
  assumes sub: "m \<subseteq> {..<CPU_SETSIZE}" and one: "one_run m" and i: "i \<in> m" and si: "Suc i \<in> m"
    and r: "r = cpu_run m (i + 1) (CPU_SETSIZE - (i + 1))"
  shows "m \<inter> {i..} = {i..i + r}" "0 < r"
proof -
  note p = cpu_run_props [where m = m and j = "i + 1" and n = "CPU_SETSIZE - (i + 1)", folded r]
  have lt: "Suc i < CPU_SETSIZE" using si sub by auto
  show "0 < r"
  proof (rule ccontr)
    assume "\<not> 0 < r"
    with p(3) lt have "i + 1 \<notin> m" by simp
    with si show False by simp
  qed
  show "m \<inter> {i..} = {i..i + r}"
  proof (rule set_eqI, rule iffI)
    fix x assume x: "x \<in> m \<inter> {i..}"
    show "x \<in> {i..i + r}"
    proof (rule ccontr)
      assume "x \<notin> {i..i + r}"
      with x have gt: "i + r < x" by auto
      from one i si x have "{i..x} \<subseteq> m" by (auto simp: one_run_def)
      with gt have "i + 1 + r \<in> m" by auto
      moreover have "r < CPU_SETSIZE - (i + 1)" using gt x sub by auto
      ultimately show False using p(3) by simp
    qed
  next
    fix x assume x: "x \<in> {i..i + r}"
    with p(1) i show "x \<in> m \<inter> {i..}" by (cases "x = i") auto
  qed
qed

lemma cpu_affinity_loop_text:
  assumes sub: "m \<subseteq> {..<CPU_SETSIZE}" and one: "one_run m"
    and loop: "cpu_affinity_loop m n i 0 sep t = Some t'"
  shows "\<exists>rs. t' = t @ sep_text sep rs \<and> (\<forall>r \<in> set rs. range_ok r) \<and> (\<Union>r \<in> set rs. {fst r..snd r}) = m \<inter> {i..}"
  using loop
proof (induction "CPU_SETSIZE - i" arbitrary: i sep t)
  case 0
  then have "t' = t" by (simp add: cpu_affinity_loop.simps)
  moreover have "m \<inter> {i..} = {}" using 0 sub by auto
  ultimately show ?case by (intro exI [of _ "[]"]) (simp add: sep_text_def)
next
  case (Suc x)
  then have lt: "i < CPU_SETSIZE" and x: "x = CPU_SETSIZE - (i + 1)" by simp_all
  show ?case
  proof (cases "i \<in> m")
    case False
    with Suc.prems lt have "cpu_affinity_loop m n (i + 1) 0 sep t = Some t'" by (simp add: cpu_affinity_loop.simps [of m n i])
    moreover have "m \<inter> {i..} = m \<inter> {i + 1..}" using False by (auto simp: Suc_le_eq le_less)
    ultimately show ?thesis using Suc.hyps(1) [OF x, of sep t] by simp
  next
    case True
    define r where "r = cpu_run m (i + 1) (CPU_SETSIZE - (i + 1))"
    have rr: "cpu_run m (Suc i) (CPU_SETSIZE - Suc i) = r" by (simp add: r_def)
    let ?t1 = "t @ (if sep then '','' else [])"
    show ?thesis
    proof (cases "Suc i \<in> m")
      case False
      then have "r = 0" by (cases "CPU_SETSIZE - (i + 1)") (simp_all add: r_def)
      then have "cpu_affinity_loop m n (i + 1) 0 True (?t1 @ show_nat i) = Some t'"
        using cpu_affinity_loop_group [OF Suc.prems lt True, of r] by (simp add: r_def)
      with Suc.hyps(1) [OF x, of True "?t1 @ show_nat i"] obtain rs where
        rs: "t' = ?t1 @ show_nat i @ sep_text True rs" "\<forall>r \<in> set rs. range_ok r"
        "(\<Union>r \<in> set rs. {fst r..snd r}) = m \<inter> {i + 1..}" by auto
      have "m \<inter> {i..} = insert i (m \<inter> {i + 1..})" using True by (auto simp: Suc_le_eq le_less)
      with rs lt show ?thesis
        by (intro exI [of _ "(i, i) # rs"]) (simp add: sep_text_Cons range_text_def range_ok_def)
    next
      case si: True
      note run = last_run [OF sub one True si r_def]
      have none: "\<And>j. j \<in> m \<Longrightarrow> j < i + r + 1"
      proof -
        fix j assume j: "j \<in> m"
        then have "i \<le> j \<Longrightarrow> j \<in> {i..i + r}" using run(1) by blast
        then show "j < i + r + 1" by (cases "i \<le> j") auto
      qed
      have bd: "i + r < CPU_SETSIZE"
      proof -
        have "i + r \<in> m" using run(1) by auto
        then show ?thesis using sub by auto
      qed
      have r0: "r \<noteq> 0" using run(2) by simp
      have t': "t' = ?t1 @ (if r = 1 then show_nat i @ '','' @ show_nat (i + 1) else show_nat i @ ''-'' @ show_nat (i + r))"
        using cpu_affinity_loop_group [OF Suc.prems lt True, of r] r0 cpu_affinity_loop_done [of m "i + (r + 1)"] none
        by (simp add: r_def)
      show ?thesis
      proof (cases "r = 1")
        case True
        then have "m \<inter> {i..} = {i, i + 1}" using run(1) by (simp add: atLeastAtMostSuc_conv insert_commute)
        then have "(\<Union>r \<in> set [(i, i), (i + 1, i + 1)]. {fst r..snd r}) = m \<inter> {i..}" by (simp add: insert_commute)
        moreover have "t' = t @ sep_text sep [(i, i), (i + 1, i + 1)]" using t' True by (simp add: sep_text_def range_text_def)
        moreover have "\<forall>r \<in> set [(i, i), (i + 1, i + 1)]. range_ok r" using bd True lt by (simp add: range_ok_def)
        ultimately show ?thesis by blast
      next
        case False
        have "(\<Union>r \<in> set [(i, i + r)]. {fst r..snd r}) = m \<inter> {i..}" using run(1) by simp
        moreover have "t' = t @ sep_text sep [(i, i + r)]" using t' False r0 by (simp add: sep_text_def range_text_def)
        moreover have "\<forall>q \<in> set [(i, i + r)]. range_ok q" using bd by (simp add: range_ok_def)
        ultimately show ?thesis by blast
      qed
    qed
  qed
qed

lemma cpu_affinity_parse:
  assumes sub: "m \<subseteq> {..<CPU_SETSIZE}" and one: "one_run m" and ne: "m \<noteq> {}"
    and loop: "cpu_affinity_loop m n 0 0 False [] = Some t"
  shows "str2cpu_affinity t = Some (0, m)"
proof -
  from cpu_affinity_loop_text [OF sub one loop] obtain rs where rs: "t = sep_text False rs"
    "\<forall>r \<in> set rs. range_ok r" "(\<Union>r \<in> set rs. {fst r..snd r}) = m" by auto
  have "rs \<noteq> []" using rs(3) ne by auto
  with rs str2cpu_ranges [of rs "{}"] show ?thesis by (simp add: str2cpu_affinity_def sep_text_def)
qed

text \<open>A set the printer renders as intended, and one it does not.\<close>

lemma show_nat_small: "n < 10 \<Longrightarrow> show_nat n = [digit n]"
  by (subst show_nat.simps) simp

lemma digits: "digit 0 = CHR ''0''" "digit 1 = CHR ''1''" "digit 2 = CHR ''2''" "digit 3 = CHR ''3''"
  "digit 4 = CHR ''4''" "digit 5 = CHR ''5''" "digit 6 = CHR ''6''" "digit 7 = CHR ''7''" "digit (Suc 0) = CHR ''1''"
  by code_simp+

lemma cpu_run_numeral [simp]:
  "cpu_run m j (numeral v) = (if j \<in> m then Suc (cpu_run m (Suc j) (pred_numeral v)) else 0)"
  by (simp only: numeral_eq_Suc [of v] cpu_run.simps)

lemma cpu_affinity_loop_skip: "i \<notin> m \<Longrightarrow> cpu_affinity_loop m n i run sep t = (if i < CPU_SETSIZE then cpu_affinity_loop m n (i + 1) run sep t else Some t)"
  by (simp add: cpu_affinity_loop.simps [of m n i])

lemma print_0_2_57: "cpu_affinity2str {0, 2, 5, 6, 7} 128 = Some ''0,2,5-7''"
proof -
  let ?m = "{0, 2, 5, 6, 7} :: nat set"
  have "cpu_affinity_loop ?m 128 5 0 True ''0,2'' = Some ''0,2,5-7''"
    by (subst cpu_affinity_loop.simps) (simp add: append_text_def show_nat_small digits CPU_SETSIZE_def cpu_affinity_loop_done)
  then have "cpu_affinity_loop ?m 128 3 0 True ''0,2'' = Some ''0,2,5-7''"
    by (simp add: cpu_affinity_loop_skip [of 3] cpu_affinity_loop_skip [of 4] CPU_SETSIZE_def)
  then have "cpu_affinity_loop ?m 128 2 0 True ''0'' = Some ''0,2,5-7''"
    by (subst cpu_affinity_loop.simps) (simp add: append_text_def show_nat_small digits CPU_SETSIZE_def)
  then have "cpu_affinity_loop ?m 128 1 0 True ''0'' = Some ''0,2,5-7''"
    by (simp add: cpu_affinity_loop_skip [of 1] CPU_SETSIZE_def del: One_nat_def)
  then have "cpu_affinity_loop ?m 128 0 0 False [] = Some ''0,2,5-7''"
    by (subst cpu_affinity_loop.simps) (simp add: append_text_def show_nat_small digits CPU_SETSIZE_def)
  then show ?thesis by (simp add: cpu_affinity2str_def)
qed

lemma print_013: "cpu_affinity2str {0, 1, 3} 128 = Some ''0,1,3,4''"
proof -
  let ?m = "{0, 1, 3} :: nat set"
  have "cpu_affinity_loop ?m 128 3 1 True ''0,1'' = Some ''0,1,3,4''"
    by (subst cpu_affinity_loop.simps) (simp add: append_text_def show_nat_small digits CPU_SETSIZE_def cpu_affinity_loop_done)
  then have "cpu_affinity_loop ?m 128 2 1 True ''0,1'' = Some ''0,1,3,4''"
    by (simp add: cpu_affinity_loop_skip [of 2] CPU_SETSIZE_def)
  then have "cpu_affinity_loop ?m 128 0 0 False [] = Some ''0,1,3,4''"
    by (subst cpu_affinity_loop.simps) (simp add: numeral_2_eq_2 append_text_def show_nat_small digits CPU_SETSIZE_def)
  then show ?thesis by (simp add: cpu_affinity2str_def)
qed

section \<open>The buffer is large enough\<close>

lemma show_nat_2: "n < 100 \<Longrightarrow> length (show_nat n) \<le> 2"
proof -
  assume "n < 100"
  then have "n div 10 < 10" by simp
  then have "show_nat (n div 10) = [digit (n div 10)]" by (subst show_nat.simps) simp
  then show ?thesis by (subst show_nat.simps) simp
qed

lemma cpu_run_bound: "cpus \<subseteq> {..<N} \<Longrightarrow> j + cpu_run cpus j n \<le> max j N"
proof (induction n arbitrary: j)
  case (Suc n)
  then show ?case using Suc.IH [of "Suc j"] by (auto simp: max_def split: if_splits)
qed simp

lemma cpu_affinity_loop_fits:
  assumes "cpus \<subseteq> {..<42}" and "run \<le> i" and "length t \<le> 3 * i"
  shows "\<exists>t'. cpu_affinity_loop cpus 128 i run sep t = Some t'"
  using assms
proof (induction "CPU_SETSIZE - i" arbitrary: i run sep t rule: less_induct)
  case less
  show ?case
  proof (cases "i < CPU_SETSIZE \<and> i \<in> cpus")
    case False
    have "\<exists>t'. cpu_affinity_loop cpus 128 (i + 1) run sep t = Some t'" if "i < CPU_SETSIZE"
      using that less.prems by (intro less.hyps) auto
    then show ?thesis using False by (subst cpu_affinity_loop.simps) auto
  next
    case True
    then have i: "i < CPU_SETSIZE" "i \<in> cpus" "i < 42" using less.prems(1) by auto
    let ?run = "run + cpu_run cpus (i + 1) (CPU_SETSIZE - (i + 1))"
    have c: "i + 1 + cpu_run cpus (i + 1) (CPU_SETSIZE - (i + 1)) \<le> 42"
      using cpu_run_bound [OF less.prems(1), of "i + 1" "CPU_SETSIZE - (i + 1)"] i by simp
    then have run: "?run \<le> 41" "i + ?run < 100" using less.prems(2) by auto
    have "length t \<le> 128" using less.prems(3) i by simp
    then obtain u where u: "(if sep then append_text 128 t '','' else Some t) = Some u" "length u \<le> length t + 1"
      by (cases sep) (auto simp: append_text_def)
    have d: "length (show_nat i) \<le> 2" "length (show_nat (i + 1)) \<le> 2" "length (show_nat (i + ?run)) \<le> 2"
      using run i by (intro show_nat_2; simp)+
    have lu: "length u \<le> 128" using u(2) less.prems i by simp
    consider "?run = 0" | "?run = 1" | "?run \<ge> 2" by linarith
    then show ?thesis
    proof cases
      case 1
      have "\<exists>t'. cpu_affinity_loop cpus 128 (i + 1) 0 True (u @ show_nat i) = Some t'"
        using less.prems i d u(2) by (intro less.hyps) auto
      with 1 i u lu show ?thesis by (subst cpu_affinity_loop.simps) (auto simp: append_text_def Let_def)
    next
      case 2
      have "\<exists>t'. cpu_affinity_loop cpus 128 (i + 2) 1 True (u @ show_nat i @ '','' @ show_nat (i + 1)) = Some t'"
        using less.prems i d u(2) by (intro less.hyps) auto
      with 2 i u lu show ?thesis by (subst cpu_affinity_loop.simps) (auto simp: append_text_def Let_def)
    next
      case 3
      have "\<exists>t'. cpu_affinity_loop cpus 128 (i + ?run + 1) ?run True (u @ show_nat i @ ''-'' @ show_nat (i + ?run)) = Some t'"
        using less.prems i d u(2) c 3 by (intro less.hyps) auto
      with 3 i u lu show ?thesis by (subst cpu_affinity_loop.simps) (auto simp: append_text_def Let_def)
    qed
  qed
qed

text \<open>On a machine with at most 42 CPUs, the text of any set of them fits.\<close>

lemma cpu_affinity2str_fits: "cpus \<subseteq> {..<42} \<Longrightarrow> \<exists>str. cpu_affinity2str cpus 128 = Some str"
  using cpu_affinity_loop_fits [of cpus 0 0 "[]" False] by (auto simp: cpu_affinity2str_def)

section \<open>Properties\<close>

text \<open>
  C20: a CPU set survives printing and parsing, when it has at most one group of adjacent CPUs and
  that group is the last one, and when its text was not cut at the end of the buffer.
\<close>

theorem cpu_affinity_roundtrip:
  assumes "m \<subseteq> {..<CPU_SETSIZE}" and "m \<noteq> {}" and "one_run m"
    and "cpu_affinity2str m n = Some str" and "length str < n - 1"
  shows "str2cpu_affinity str = Some (0, m)"
proof -
  from assms(4) obtain t where t: "cpu_affinity_loop m n 0 0 False [] = Some t" "str = take (n - 1) t"
    by (auto simp: cpu_affinity2str_def)
  with assms(5) have "str = t" by simp
  with cpu_affinity_parse [OF assms(1,3,2) t(1)] show ?thesis by simp
qed

theorem cpu_affinity_roundtrip_witness:
  "one_run {0, 2, 5, 6, 7} \<and> cpu_affinity2str {0, 2, 5, 6, 7} 128 = Some ''0,2,5-7'' \<and>
   str2cpu_affinity ''0,2,5-7'' = Some (0, {0, 2, 5, 6, 7})"
proof -
  have one: "one_run {0, 2, 5, 6, 7}"
    by (auto simp: one_run_def atLeastAtMost_insertL [symmetric] numeral_eq_Suc)
  have sub: "{0, 2, 5, 6, 7} \<subseteq> {..<CPU_SETSIZE}" by (simp add: CPU_SETSIZE_def)
  from cpu_affinity_roundtrip [OF sub _ one print_0_2_57] one print_0_2_57 show ?thesis by simp
qed

text \<open>
  two adjacent CPUs followed by a single one are misprinted. The counter of the run is not reset
  between groups, so the single CPU 3 after the pair 0, 1 is printed as the pair 3, 4, and parsing the
  text yields a set with a CPU that was not there.
\<close>

theorem cpu_affinity_misprints:
  "cpu_affinity2str {0, 1, 3} 128 = Some ''0,1,3,4'' \<and> str2cpu_affinity ''0,1,3,4'' = Some (0, {0, 1, 3, 4})"
proof -
  let ?rs = "[(0, 0), (1, 1), (3, 3), (4, 4)] :: (nat \<times> nat) list"
  have "ranges_text ?rs = ''0,1,3,4''" by (simp add: range_text_def show_nat_small digits)
  moreover have "\<forall>r \<in> set ?rs. range_ok r" by (simp add: range_ok_def CPU_SETSIZE_def)
  ultimately have "str2cpu_affinity ''0,1,3,4'' = Some (0, {0, 1, 3, 4})"
    using str2cpu_ranges [of ?rs "{}"] by (simp add: str2cpu_affinity_def insert_commute)
  with print_013 show ?thesis by simp
qed

text \<open>
  C21: when the parser comes back from a range. With a positive stride and no wrap-around past the end
  it sets exactly the CPUs of the range, every stride; with stride 0, or with the largest number as
  the end of the range, it never returns.
\<close>

theorem cpu_set_range_terminates:
  "(s \<noteq> 0 \<and> unat b + unat s < 2 ^ 32 \<longrightarrow>
      cpu_set_range a b s m = Some (m \<union> {x. \<exists>i. x = unat a + i * unat s \<and> x \<le> unat b \<and> x < CPU_SETSIZE})) \<and>
   ((s = 0 \<or> b = - 1) \<and> a \<le> b \<longrightarrow> cpu_set_range a b s m = None)"
  using cpu_set_range_ok [of s b a m] cpu_set_range_diverges [of s b a m] by (auto simp: unat_eq_zero)

theorem cpu_set_range_terminates_witness:
  "cpu_set_range 2 7 0 {} = None \<and>
   cpu_set_range 2 7 3 {} = Some {x. \<exists>i. x = 2 + i * 3 \<and> x \<le> 7 \<and> x < CPU_SETSIZE}"
  using cpu_set_range_terminates [of 0 7 2 "{}"] cpu_set_range_terminates [of 3 7 2 "{}"] by simp

end
