(* ===== verification/Rpc_List.thy ===== *)
theory Rpc_List
  imports Posix
begin

text \<open>
  The memory of a list reply. The handlers that report threads, captures and replays
  (\<^verbatim>\<open>src/dabbad/thread.c\<close>, \<^verbatim>\<open>capture.c\<close>, \<^verbatim>\<open>replay.c\<close>) build it alike: a zeroed array of pointers, then
  for each element one block for the element and one for each of its \<open>np\<close> parts. All parts are allocated before
  they are checked; the loop is left at the first element that is not complete. After the reply is
  sent, every element that is not NULL is released with its parts. The blocks are exactly those allocated, so a
  handler that goes through both leaves the heap as it was.
\<close>

fun malloc_each :: "nat \<Rightarrow> os \<Rightarrow> nat option list \<times> os" where
  "malloc_each 0 s = ([], s)"
| "malloc_each (Suc np) s = (let (b, s1) = malloc s; (bs, s2) = malloc_each np s1 in (b # bs, s2))"

type_synonym rpc_entry = "(nat \<times> nat option list) option"

text \<open>The flag tells whether the loop ran to its end.\<close>

fun list_alloc :: "nat \<Rightarrow> nat \<Rightarrow> os \<Rightarrow> (bool \<times> rpc_entry list) \<times> os" where
  "list_alloc np 0 s = ((True, []), s)"
| "list_alloc np (Suc n) s =
     (let (b, s1) = malloc s in
      case b of
        None \<Rightarrow> ((False, replicate (Suc n) None), s1)
      | Some b \<Rightarrow>
          let (parts, s2) = malloc_each np s1 in
          if None \<in> set parts then ((False, Some (b, parts) # replicate n None), s2)
          else let ((ok, es), s3) = list_alloc np n s2 in ((ok, Some (b, parts) # es), s3))"

fun free_each :: "nat option list \<Rightarrow> os \<Rightarrow> os option" where
  "free_each [] s = Some s"
| "free_each (b # bs) s = do { s1 \<leftarrow> free b s; free_each bs s1 }"

fun list_free :: "rpc_entry list \<Rightarrow> os \<Rightarrow> os option" where
  "list_free [] s = Some s"
| "list_free (None # es) s = list_free es s"
| "list_free (Some (b, parts) # es) s =
     do { s1 \<leftarrow> free_each parts s; s2 \<leftarrow> free (Some b) s1; list_free es s2 }"

section \<open>Blocks\<close>

definition somes :: "'a option list \<Rightarrow> 'a list" where
  "somes xs = concat (map (\<lambda>x. case x of None \<Rightarrow> [] | Some y \<Rightarrow> [y]) xs)"

lemma somes_simps [simp]:
  "somes [] = []" "somes (None # xs) = somes xs" "somes (Some x # xs) = x # somes xs"
  "somes (replicate n None) = []" "somes (xs @ ys) = somes xs @ somes ys"
  by (simp_all add: somes_def)

fun entry_blocks :: "rpc_entry \<Rightarrow> nat list" where
  "entry_blocks None = []"
| "entry_blocks (Some (b, parts)) = b # somes parts"

definition list_blocks :: "rpc_entry list \<Rightarrow> nat list" where
  "list_blocks es = concat (map entry_blocks es)"

lemma list_blocks_simps [simp]:
  "list_blocks [] = []" "list_blocks (e # es) = entry_blocks e @ list_blocks es"
  "list_blocks (replicate n None) = []"
  by (simp_all add: list_blocks_def)

text \<open>A call that touches nothing but the heap, the error number and the count of calls.\<close>

definition mem_only :: "os \<Rightarrow> os \<Rightarrow> bool" where
  "mem_only s s' \<longleftrightarrow>
     os_fd s' = os_fd s \<and> os_dir s' = os_dir s \<and> os_data s' = os_data s \<and> os_inodes s' = os_inodes s \<and>
     os_maps s' = os_maps s \<and> os_vm s' = os_vm s \<and> os_threads s' = os_threads s \<and> os_sched s' = os_sched s \<and>
     os_nofile s' = os_nofile s \<and> os_endian s' = os_endian s \<and> os_online s' = os_online s \<and> os_hist s' = os_hist s \<and>
     os_ioctl s' = os_ioctl s \<and> os_names s' = os_names s \<and> os_tids s' = os_tids s \<and> os_junk s' = os_junk s"

lemma mem_only_refl [simp]: "mem_only s s"
  by (simp add: mem_only_def)

lemma mem_only_trans: "mem_only s s1 \<Longrightarrow> mem_only s1 s2 \<Longrightarrow> mem_only s s2"
  by (simp add: mem_only_def)

lemma mem_only_heap [simp]: "mem_only s (s'\<lparr>os_heap := h\<rparr>) = mem_only s s'"
  by (simp add: mem_only_def)

lemma mem_only_malloc: "mem_only s (snd (malloc s))"
  by (simp add: mem_only_def malloc_def tick_def errno_def split: outcome.split)

text \<open>What an allocation of the blocks \<open>bs\<close> does to the heap.\<close>

definition allocs :: "os \<Rightarrow> nat list \<Rightarrow> os \<Rightarrow> bool" where
  "allocs s bs s' \<longleftrightarrow> mem_only s s' \<and> heap_wf s' \<and> distinct bs \<and> set bs \<inter> os_heap s = {} \<and>
     os_heap s' = os_heap s \<union> set bs"

lemma allocs_refl: "heap_wf s \<Longrightarrow> allocs s [] s"
  by (simp add: allocs_def)

lemma allocs_trans: "allocs s bs s1 \<Longrightarrow> allocs s1 cs s2 \<Longrightarrow> allocs s (bs @ cs) s2"
  by (auto simp: allocs_def intro: mem_only_trans)

lemma allocs_malloc:
  assumes "malloc s = (b, s')" and "heap_wf s"
  shows "allocs s (somes [b]) s'"
proof -
  have "mem_only s s'" using mem_only_malloc [of s] assms by simp
  with assms malloc_NoneD [of s s'] malloc_SomeD [of s _ s'] show ?thesis
    by (cases b) (auto simp: allocs_def heap_wf_def)
qed

lemma allocs_malloc_each:
  assumes "malloc_each np s = (bs, s')" and "heap_wf s"
  shows "allocs s (somes bs) s' \<and> length bs = np"
  using assms
proof (induction np arbitrary: s bs s')
  case 0
  then show ?case by (simp add: allocs_refl)
next
  case (Suc np)
  obtain b s1 where m: "malloc s = (b, s1)" by force
  obtain cs s2 where r: "malloc_each np s1 = (cs, s2)" by force
  have a: "allocs s (somes [b]) s1" using allocs_malloc [OF m Suc.prems(2)] .
  then have "heap_wf s1" by (simp add: allocs_def)
  with Suc.IH [OF r] Suc.prems m r have "bs = b # cs" "s' = s2" "allocs s1 (somes cs) s2" "length cs = np" by auto
  with allocs_trans [OF a] show ?case by (cases b) auto
qed

definition complete :: "nat \<Rightarrow> rpc_entry \<Rightarrow> bool" where
  "complete np e \<longleftrightarrow> (\<exists>b parts. e = Some (b, parts) \<and> length parts = np \<and> None \<notin> set parts)"

lemma allocs_list_alloc:
  assumes "list_alloc np n s = ((ok, es), s')" and "heap_wf s"
  shows "allocs s (list_blocks es) s' \<and> length es = n \<and> (ok \<longrightarrow> list_all (complete np) es)"
  using assms
proof (induction n arbitrary: s ok es s')
  case 0
  then show ?case by (simp add: allocs_refl)
next
  case (Suc n)
  obtain b s1 where m: "malloc s = (b, s1)" by force
  have a: "allocs s (somes [b]) s1" using allocs_malloc [OF m Suc.prems(2)] .
  show ?case
  proof (cases b)
    case None
    with Suc.prems m a show ?thesis by auto
  next
    case (Some c)
    obtain parts s2 where p: "malloc_each np s1 = (parts, s2)" by force
    have w1: "heap_wf s1" using a by (simp add: allocs_def)
    from allocs_malloc_each [OF p w1] have ap: "allocs s (c # somes parts) s2" "length parts = np"
      using allocs_trans [OF a] Some by auto
    show ?thesis
    proof (cases "None \<in> set parts")
      case True
      with Suc.prems m Some p ap show ?thesis by auto
    next
      case False
      obtain ok' es' s3 where r: "list_alloc np n s2 = ((ok', es'), s3)" by (metis surj_pair)
      have "heap_wf s2" using ap by (simp add: allocs_def)
      from Suc.IH [OF r this] allocs_trans [OF ap(1)] Suc.prems m Some p False r ap(2) show ?thesis
        by (auto simp: complete_def)
    qed
  qed
qed

lemma free_each_ok:
  "distinct (somes bs) \<Longrightarrow> set (somes bs) \<subseteq> os_heap s \<Longrightarrow>
   free_each bs s = Some (s\<lparr>os_heap := os_heap s - set (somes bs)\<rparr>)"
proof (induction bs arbitrary: s)
  case Nil
  then show ?case by simp
next
  case (Cons b bs)
  show ?case
  proof (cases b)
    case None
    with Cons show ?thesis by (simp add: free_def)
  next
    case (Some c)
    have "os_heap s - {c} - set (somes bs) = os_heap s - set (somes (b # bs))" using Some by auto
    moreover have "set (somes bs) \<subseteq> os_heap s - {c}" using Cons.prems Some by auto
    ultimately show ?thesis
      using Some Cons.prems Cons.IH [of "s\<lparr>os_heap := os_heap s - {c}\<rparr>"] by (simp add: free_def)
  qed
qed

lemma list_free_ok:
  "distinct (list_blocks es) \<Longrightarrow> set (list_blocks es) \<subseteq> os_heap s \<Longrightarrow>
   list_free es s = Some (s\<lparr>os_heap := os_heap s - set (list_blocks es)\<rparr>)"
proof (induction es arbitrary: s)
  case Nil
  then show ?case by simp
next
  case (Cons e es)
  show ?case
  proof (cases e)
    case None
    with Cons show ?thesis by simp
  next
    case (Some x)
    obtain b parts where x: "x = (b, parts)" by force
    let ?h = "os_heap s - set (somes parts) - {b}"
    have "free_each parts s = Some (s\<lparr>os_heap := os_heap s - set (somes parts)\<rparr>)"
      using Cons.prems Some x by (intro free_each_ok) auto
    moreover have "free (Some b) (s\<lparr>os_heap := os_heap s - set (somes parts)\<rparr>) = Some (s\<lparr>os_heap := ?h\<rparr>)"
      using Cons.prems Some x by (simp add: free_def)
    moreover have "?h - set (list_blocks es) = os_heap s - set (list_blocks (e # es))" using Some x by auto
    ultimately show ?thesis using Cons.IH [of "s\<lparr>os_heap := ?h\<rparr>"] Cons.prems Some x by auto
  qed
qed

text \<open>Allocating and releasing, with anything in between that keeps the heap, is neutral for the heap.\<close>

lemma allocs_list_free:
  assumes "allocs s (list_blocks es) s1" and "os_heap s2 = os_heap s1"
  shows "list_free es s2 = Some (s2\<lparr>os_heap := os_heap s\<rparr>)"
proof -
  have "os_heap s1 - set (list_blocks es) = os_heap s" using assms by (auto simp: allocs_def)
  with assms list_free_ok [of es s2] show ?thesis by (auto simp: allocs_def)
qed

end
