(* ===== verification/Threads.thy ===== *)
theory Threads
  imports Tailq Rpc_List Cpu_Affinity
begin

text \<open>
  The daemon's packet threads, \<^verbatim>\<open>src/dabbad/thread.c\<close> and \<^verbatim>\<open>src/dabbad/include/dabbad/thread.h\<close>: the queue of
  running threads, their scheduling parameters, starting and stopping, and the remote procedures
  \<open>thread_get\<close>, \<open>thread_modify\<close> and \<open>thread_capabilities_get\<close>. A thread structure is part of the capture or
  replay it belongs to; its address is that heap block. A thread identifier is an opaque number, the same in
  messages (\<^verbatim>\<open>uint64\<close>) and in the daemon (\<^verbatim>\<open>pthread_t\<close>). The queue is passed beside the state of the operating system.
\<close>

section \<open>The queue\<close>

datatype packet_thread_type = CAPTURE_THREAD | REPLAY_THREAD

fun type_code :: "packet_thread_type \<Rightarrow> int" where
  "type_code CAPTURE_THREAD = 0"
| "type_code REPLAY_THREAD = 1"

record packet_thread =
  pt_node :: nat
  pt_id :: nat
  pt_type :: packet_thread_type

type_synonym thread_queue = "packet_thread tailq"

definition dabbad_thread_length_get :: "thread_queue \<Rightarrow> nat" where
  "dabbad_thread_length_get q = tq_length q"

definition dabbad_thread_insert :: "packet_thread \<Rightarrow> thread_queue \<Rightarrow> thread_queue" where
  "dabbad_thread_insert node q = tailq_insert node q"

definition dabbad_thread_remove :: "packet_thread \<Rightarrow> thread_queue \<Rightarrow> thread_queue option" where
  "dabbad_thread_remove node q = tailq_remove pt_node (pt_node node) q"

definition dabbad_thread_find :: "nat \<Rightarrow> thread_queue \<Rightarrow> packet_thread option" where
  "dabbad_thread_find i q = find (\<lambda>node. pt_id node = i) (tq_head q)"

interpretation tq: node_queue dabbad_thread_insert dabbad_thread_remove dabbad_thread_find
  dabbad_thread_length_get tq_head pt_node pt_id
  by unfold_locales
    (auto simp: dabbad_thread_insert_def dabbad_thread_remove_def dabbad_thread_find_def
      dabbad_thread_length_get_def tailq_remove_some)

section \<open>Scheduling\<close>

definition dabbad_thread_sched_param_set :: "packet_thread \<Rightarrow> 16 word \<Rightarrow> 16 word \<Rightarrow> os \<Rightarrow> int \<times> os" where
  "dabbad_thread_sched_param_set t sched_prio sched_policy s =
     pthread_setschedparam (pt_id t) (sint sched_policy) (sint sched_prio) s"

text \<open>
  The result code, priority and policy. On a failure the policy is the uninitialised local variable, and
  the priority that of the zeroed structure; both are stored all the same.
\<close>

definition dabbad_thread_sched_param_get :: "packet_thread \<Rightarrow> os \<Rightarrow> (int \<times> 16 word \<times> 16 word) \<times> os" where
  "dabbad_thread_sched_param_get t s =
     (let ((rc, got), s1) = pthread_getschedparam (pt_id t) s;
          (policy, prio) = (case got of Some p \<Rightarrow> p | None \<Rightarrow> (os_junk s (os_tick s), 0))
      in ((rc, of_int prio, of_int policy), s1))"

definition dabbad_thread_sched_affinity_set :: "packet_thread \<Rightarrow> nat set \<Rightarrow> os \<Rightarrow> int \<times> os" where
  "dabbad_thread_sched_affinity_set t run_on s = pthread_setaffinity (pt_id t) run_on s"

text \<open>The set keeps what the caller's variable held when the call fails.\<close>

definition dabbad_thread_sched_affinity_get :: "packet_thread \<Rightarrow> nat set \<Rightarrow> os \<Rightarrow> (int \<times> nat set) \<times> os" where
  "dabbad_thread_sched_affinity_get t run_on s =
     (let ((rc, got), s1) = pthread_getaffinity (pt_id t) s
      in ((rc, case got of Some cpus \<Rightarrow> cpus | None \<Rightarrow> run_on), s1))"

text \<open>The contents of an uninitialised \<^verbatim>\<open>cpu_set_t\<close>.\<close>

definition junk_cpus :: "os \<Rightarrow> nat set" where
  "junk_cpus s = set (filter (bit (os_junk s (os_tick s))) [0..<CPU_SETSIZE])"

section \<open>Starting and stopping\<close>

definition dabbad_thread_start ::
  "packet_thread \<Rightarrow> thread_fn \<Rightarrow> nat \<Rightarrow> thread_queue \<Rightarrow> os \<Rightarrow> (int \<times> packet_thread) \<times> thread_queue \<times> os" where
  "dabbad_thread_start pkt_thread fn arg q s =
     (let ((rc, i), s1) = pthread_create fn arg s in
      if rc \<noteq> 0 then ((rc, pkt_thread), q, s1) else
      let pkt_thread = pkt_thread\<lparr>pt_id := i\<rparr>;
          (rc, s2) = pthread_detach (pt_id pkt_thread) s1
      in if rc \<noteq> 0 then ((rc, pkt_thread), q, s2)
         else ((rc, pkt_thread), dabbad_thread_insert pkt_thread q, s2))"

definition dabbad_thread_stop :: "packet_thread \<Rightarrow> thread_queue \<Rightarrow> os \<Rightarrow> (int \<times> thread_queue \<times> os) option" where
  "dabbad_thread_stop pkt_thread q s =
     (case find (\<lambda>node. pt_id pkt_thread = pt_id node) (tq_head q) of
        None \<Rightarrow> Some (EINVAL, q, s)
      | Some node \<Rightarrow>
          let (rc, s1) = pthread_cancel (pt_id node) s in
          if rc \<noteq> 0 then Some (rc, q, s1)
          else do { q1 \<leftarrow> dabbad_thread_remove node q; Some (rc, q1, s1) })"

section \<open>Remote procedures\<close>

text \<open>The message \<^verbatim>\<open>thread\<close> as a request; a field is \<open>None\<close> when it is absent.\<close>

record thread_request =
  tm_id :: nat
  tm_cpu_set :: "string option"
  tm_sched_policy :: "32 word option"
  tm_sched_priority :: "32 word option"

text \<open>The result of the parser of CPU lists is ignored; the set it leaves behind is used.\<close>

definition dabbad_thread_modify :: "thread_request \<Rightarrow> thread_queue \<Rightarrow> os \<Rightarrow> (int \<times> os) option" where
  "dabbad_thread_modify m q s =
     (case dabbad_thread_find (tm_id m) q of
        None \<Rightarrow> Some (0, s)
      | Some t \<Rightarrow>
          let ((_, sched_prio, sched_policy), s1) = dabbad_thread_sched_param_get t s;
              ((_, run_on), s2) = dabbad_thread_sched_affinity_get t (junk_cpus s) s1;
              sched_policy = (case tm_sched_policy m of Some p \<Rightarrow> ucast p | None \<Rightarrow> sched_policy);
              sched_prio = (case tm_sched_priority m of Some p \<Rightarrow> ucast p | None \<Rightarrow> sched_prio)
          in do {
            run_on \<leftarrow> (case tm_cpu_set m of
                Some str \<Rightarrow> map_option snd (str2cpu_affinity str) | None \<Rightarrow> Some run_on);
            let (rc, s3) = dabbad_thread_sched_param_set t sched_prio sched_policy s2 in
            if rc \<noteq> 0 then Some (rc, s3) else Some (dabbad_thread_sched_affinity_set t run_on s3)
          })"

text \<open>The message \<^verbatim>\<open>thread\<close> as a reply.\<close>

record thread_info =
  ti_code :: int
  ti_id :: nat
  ti_cpu_set :: string
  ti_type :: int
  ti_sched_policy :: "32 word"
  ti_sched_priority :: "32 word"

definition dabba__thread__init :: thread_info where
  "dabba__thread__init = \<lparr>ti_code = 0, ti_id = 0, ti_cpu_set = [], ti_type = 0, ti_sched_policy = 0,
     ti_sched_priority = 0\<rparr>"

text \<open>A zeroed 32-bit field after a 16-bit store at its address.\<close>

definition store16 :: "endian \<Rightarrow> 16 word \<Rightarrow> 32 word" where
  "store16 e w = (case e of Little \<Rightarrow> ucast w | Big \<Rightarrow> push_bit 16 (ucast w))"

text \<open>
  The second loop of \<open>dabbad_thread_get\<close>; the CPU set is one variable for all threads. More threads than elements would
  be a store outside of the list.
\<close>

definition cs_len :: nat where "cs_len = 128"

fun thread_get_fill ::
  "packet_thread list \<Rightarrow> rpc_entry list \<Rightarrow> nat set \<Rightarrow> os \<Rightarrow> (thread_info list \<times> os) option" where
  "thread_get_fill [] es run_on s = Some (map (\<lambda>_. dabba__thread__init) es, s)"
| "thread_get_fill (t # ts) [] run_on s = None"
| "thread_get_fill (t # ts) (e # es) run_on s =
     (let ((_, sched_prio, sched_policy), s1) = dabbad_thread_sched_param_get t s;
          ((rc, run_on), s2) = dabbad_thread_sched_affinity_get t run_on s1
      in do {
        str \<leftarrow> cpu_affinity2str run_on cs_len;
        (rest, s3) \<leftarrow> thread_get_fill ts es run_on s2;
        Some (\<lparr>ti_code = rc, ti_id = pt_id t, ti_cpu_set = str, ti_type = type_code (pt_type t),
               ti_sched_policy = store16 (os_endian s) sched_policy,
               ti_sched_priority = store16 (os_endian s) sched_prio\<rparr> # rest, s3)
      })"

text \<open>The reply is \<open>None\<close> for the NULL message.\<close>

definition dabbad_thread_get :: "thread_queue \<Rightarrow> os \<Rightarrow> (thread_info list option \<times> os) option" where
  "dabbad_thread_get q s =
     (let a = dabbad_thread_length_get q in
      if a = 0 then Some (None, s) else
      let (lst, s1) = malloc s in
      if lst = None then Some (None, s1) else
      let ((ok, es), s2) = list_alloc 3 a s1 in
      do {
        (reply, s3) \<leftarrow>
          (if ok then do { (r, s3) \<leftarrow> thread_get_fill (tq_head q) es (junk_cpus s2) s2; Some (Some r, s3) }
           else Some (None, s2));
        s4 \<leftarrow> list_free es s3;
        s5 \<leftarrow> free lst s4;
        Some (reply, s5)
      })"

record thread_capabilities =
  tc_code :: int
  tc_policy :: int
  tc_prio_min :: int
  tc_prio_max :: int

fun thread_capabilities_fill :: "int list \<Rightarrow> os \<Rightarrow> thread_capabilities list \<times> os" where
  "thread_capabilities_fill [] s = ([], s)"
| "thread_capabilities_fill (p # ps) s =
     (let (lo, s1) = sched_get_priority_min p s;
          c = (if lo < 0 then os_errno s1 else 0);
          (hi, s2) = sched_get_priority_max p s1;
          c = (if hi < 0 then os_errno s2 else c);
          (rest, s3) = thread_capabilities_fill ps s2
      in (\<lparr>tc_code = c, tc_policy = p, tc_prio_min = lo, tc_prio_max = hi\<rparr> # rest, s3))"

text \<open>
  When the list cannot be allocated, the release loop reads the elements of the NULL list: \<open>None\<close>.
\<close>

definition dabbad_thread_capabilities_get :: "os \<Rightarrow> (thread_capabilities list option \<times> os) option" where
  "dabbad_thread_capabilities_get s =
     (let policy = [SCHED_FIFO, SCHED_RR, SCHED_OTHER];
          (lst, s1) = malloc s
      in if lst = None then None else
      let ((ok, es), s2) = list_alloc 1 (length policy) s1;
          (reply, s3) = (if ok then let (r, s3) = thread_capabilities_fill policy s2 in (Some r, s3) else (None, s2))
      in do {
        s4 \<leftarrow> list_free es s3;
        s5 \<leftarrow> free lst s4;
        Some (reply, s5)
      })"

section \<open>Modifying a thread\<close>

text \<open>The value a request asks for, after the narrowing to the 16 bits of the local variable.\<close>

definition wanted16 :: "32 word option \<Rightarrow> int \<Rightarrow> int" where
  "wanted16 field now = sint (case field of Some x \<Rightarrow> ucast x | None \<Rightarrow> (of_int now :: 16 word))"

lemma upd_thr_twice: "(\<And>t. t_id (f t) = t_id t) \<Longrightarrow> os_threads (upd_thr i g (tick (upd_thr i f s))) =
   map (\<lambda>t. if t_id t = i then g (f t) else t) (os_threads s)"
  by (simp add: upd_thr_def)

lemma find_thr_upd_tick [simp]: "(\<And>t. t_id (f t) = t_id t) \<Longrightarrow> find_thr j (upd_thr i f s) = None \<longleftrightarrow> find_thr j s = None"
  by (simp add: find_thr_None)

lemma find_thr_tick [simp]: "find_thr i (tick s) = find_thr i s"
  by (simp add: find_thr_def)

text \<open>What \<open>pthread_setschedparam\<close> refuses.\<close>

definition bad_param :: "int \<Rightarrow> int \<Rightarrow> bool" where
  "bad_param pol prio \<longleftrightarrow> (case prio_range pol of None \<Rightarrow> True | Some (lo, hi) \<Rightarrow> prio < lo \<or> hi < prio)"

lemma setschedparam_faultless:
  assumes "faultless s" and "find_thr i s \<noteq> None"
  shows "pthread_setschedparam i pol prio s = (if bad_param pol prio then (EINVAL, tick s)
    else (0, upd_thr i (\<lambda>t. t\<lparr>t_policy := pol, t_prio := prio\<rparr>) (tick s)))"
  using assms by (auto simp: pthread_setschedparam_def bad_param_def on_thr_def faultlessD split: option.splits)

lemma setaffinity_faultless:
  assumes "faultless s" and "find_thr i s \<noteq> None"
  shows "pthread_setaffinity i cpus s = (if cpus \<inter> os_online s = {} then (EINVAL, tick s)
    else (0, upd_thr i (\<lambda>t. t\<lparr>t_cpus := cpus \<inter> os_online s\<rparr>) (tick s)))"
  using assms by (auto simp: pthread_setaffinity_def on_thr_def faultlessD)

text \<open>
  C37: what \<open>thread_modify\<close> does to the thread it names. Policy and priority are the low 16 bits of the numbers
  asked for, sign included (so 65537 asks for policy 1), or the thread's present ones. If the kernel refuses the pair,
  nothing changes; if it refuses the CPU set, policy and priority have been changed already; otherwise all three are in
  force. No other thread changes.
\<close>

theorem thread_modify_spec:
  assumes ok: "faultless s" and t: "dabbad_thread_find (tm_id m) q = Some t" and th: "find_thr (pt_id t) s = Some th"
    and cpus: "(case tm_cpu_set m of None \<Rightarrow> Some (t_cpus th) | Some str \<Rightarrow> map_option snd (str2cpu_affinity str)) = Some cpus"
    and pol: "pol = wanted16 (tm_sched_policy m) (t_policy th)" and prio: "prio = wanted16 (tm_sched_priority m) (t_prio th)"
  shows "\<exists>rc s'. dabbad_thread_modify m q s = Some (rc, s') \<and>
    (if bad_param pol prio then rc = EINVAL \<and> os_threads s' = os_threads s
     else if cpus \<inter> os_online s = {} then rc = EINVAL \<and> os_threads s' =
       map (\<lambda>u. if t_id u = pt_id t then u\<lparr>t_policy := pol, t_prio := prio\<rparr> else u) (os_threads s)
     else rc = 0 \<and> os_threads s' = map (\<lambda>u. if t_id u = pt_id t then
       u\<lparr>t_policy := pol, t_prio := prio, t_cpus := cpus \<inter> os_online s\<rparr> else u) (os_threads s))"
proof -
  let ?s2 = "tick (tick s)"
  let ?p16 = "case tm_sched_policy m of Some p \<Rightarrow> ucast p | None \<Rightarrow> (of_int (t_policy th) :: 16 word)"
  let ?r16 = "case tm_sched_priority m of Some p \<Rightarrow> ucast p | None \<Rightarrow> (of_int (t_prio th) :: 16 word)"
  have g: "dabbad_thread_sched_param_get t s = ((0, of_int (t_prio th), of_int (t_policy th)), tick s)"
    using ok th by (simp add: dabbad_thread_sched_param_get_def pthread_getschedparam_def faultlessD)
  have a: "dabbad_thread_sched_affinity_get t r (tick s) = ((0, t_cpus th), ?s2)" for r
    using ok th by (simp add: dabbad_thread_sched_affinity_get_def pthread_getaffinity_def faultlessD)
  have m: "dabbad_thread_modify m q s = (let (rc, s3) = pthread_setschedparam (pt_id t) pol prio ?s2 in
      if rc \<noteq> 0 then Some (rc, s3) else Some (pthread_setaffinity (pt_id t) cpus s3))"
    using t g a cpus pol prio unfolding dabbad_thread_modify_def dabbad_thread_sched_affinity_set_def wanted16_def
    by (simp add: dabbad_thread_sched_param_set_def split: option.splits)
  have "EINVAL \<noteq> 0" by (simp add: EINVAL_def)
  moreover have "faultless ?s2" "find_thr (pt_id t) ?s2 \<noteq> None" using ok th by (simp_all add: faultless_def)
  moreover have "faultless (upd_thr i f (tick ?s2))" for i f using ok by (simp add: faultless_def)
  ultimately show ?thesis using upd_thr_twice [of "\<lambda>t. t\<lparr>t_policy := pol, t_prio := prio\<rparr>"]
    by (simp add: m setschedparam_faultless setaffinity_faultless) (simp add: upd_thr_def)
qed


definition demo_thr :: thr where
  "demo_thr = \<lparr>t_id = 7, t_fn = Fn_Packet_Rx, t_arg = 1, t_cancel = False, t_policy = 0, t_prio = 0, t_cpus = {0}\<rparr>"

definition demo_modify :: thread_request where
  "demo_modify = \<lparr>tm_id = 7, tm_cpu_set = None, tm_sched_policy = Some 65537, tm_sched_priority = Some 50\<rparr>"

theorem thread_modify_spec_witness:
  "\<exists>s'. dabbad_thread_modify demo_modify (tailq_insert \<lparr>pt_node = 1, pt_id = 7, pt_type = CAPTURE_THREAD\<rparr> empty_tailq)
      ((boot (\<lambda>_. Succeed))\<lparr>os_threads := [demo_thr]\<rparr>) = Some (0, s') \<and>
     os_threads s' = [demo_thr\<lparr>t_policy := SCHED_FIFO, t_prio := 50\<rparr>]"
proof -
  let ?s = "(boot (\<lambda>_. Succeed))\<lparr>os_threads := [demo_thr]\<rparr>" and ?t = "\<lparr>pt_node = 1, pt_id = 7, pt_type = CAPTURE_THREAD\<rparr>"
  have a: "faultless ?s" by (simp add: faultless_def)
  have b: "dabbad_thread_find (tm_id demo_modify) (tailq_insert ?t empty_tailq) = Some ?t"
    by (simp add: dabbad_thread_find_def demo_modify_def empty_tailq_def)
  have c: "find_thr (pt_id ?t) ?s = Some demo_thr" by (simp add: find_thr_def demo_thr_def)
  have d: "(case tm_cpu_set demo_modify of None \<Rightarrow> Some (t_cpus demo_thr) | Some str \<Rightarrow> map_option snd (str2cpu_affinity str)) = Some {0}"
    by (simp add: demo_modify_def demo_thr_def)
  have p: "wanted16 (tm_sched_policy demo_modify) (t_policy demo_thr) = 1" "wanted16 (tm_sched_priority demo_modify) (t_prio demo_thr) = 50"
    by (simp_all add: wanted16_def demo_modify_def)
  have e: "\<not> bad_param 1 50" by (simp add: bad_param_def prio_range_def SCHED_FIFO_def)
  from thread_modify_spec [OF a b c d refl refl] show ?thesis
    unfolding p using e by (auto simp: demo_thr_def SCHED_FIFO_def)
qed

end
