(* ===== verification/Misc.thy ===== *)
theory Misc
  imports Posix Text
begin

text \<open>
  The daemon's helpers, \<^verbatim>\<open>src/dabbad/misc.c\<close>: the path of an open descriptor (\<open>fd_to_path\<close>), the file with the
  process number (\<open>create_pidfile\<close>) and core dumps (\<open>core_enable\<close>). The directory \<^verbatim>\<open>/proc/self/fd\<close> has one
  entry for each open descriptor, which resolves to the path of the file as long as that path still leads to it.
\<close>

section \<open>The directory of descriptors\<close>

definition opendir :: "os \<Rightarrow> int \<times> os" where
  [os_defs]: "opendir = syscall (-1) (\<lambda>_. install_fd Fd_Dir)"

definition dir_entries :: "os \<Rightarrow> string list" where
  "dir_entries s = [''.'', ''..''] @ map show_nat (filter (\<lambda>n. os_fd s n \<noteq> None) [0..<os_nofile s])"

text \<open>The device and inode number a descriptor, or its link in the directory, leads to.\<close>

definition stat_ino :: "ofd \<Rightarrow> nat \<times> nat" where
  "stat_ino d = (case d of Reg ino _ _ _ _ \<Rightarrow> (0, ino) | Sock _ \<Rightarrow> (1, 0) | Fd_Dir \<Rightarrow> (2, 0))"

definition fstat :: "int \<Rightarrow> os \<Rightarrow> (int \<times> nat \<times> nat) \<times> os" where
  [os_defs]: "fstat fd =
     syscall (-1, 0, 0) (\<lambda>_ s. case fd_of s fd of
        None \<Rightarrow> ((-1, 0, 0), errno EBADF s) | Some d \<Rightarrow> ((0, stat_ino d), s))"

text \<open>\<open>stat\<close> and \<open>realpath\<close> of the entry of a descriptor; the resolved path is a new heap block.\<close>

definition stat_link :: "int \<Rightarrow> os \<Rightarrow> (int \<times> nat \<times> nat) \<times> os" where
  [os_defs]: "stat_link fd =
     syscall (-1, 0, 0) (\<lambda>_ s. case fd_of s fd of
        None \<Rightarrow> ((-1, 0, 0), errno ENOENT s) | Some d \<Rightarrow> ((0, stat_ino d), s))"

definition link_target :: "ofd option \<Rightarrow> os \<Rightarrow> string option" where
  "link_target d s =
     (case d of
        Some (Reg ino _ _ _ _) \<Rightarrow> (if os_dir s (os_names s ino) = Some ino then Some (os_names s ino) else None)
      | Some Fd_Dir \<Rightarrow> Some ''/proc/self/fd''
      | _ \<Rightarrow> None)"

definition realpath_link :: "int \<Rightarrow> os \<Rightarrow> (nat \<times> string) option \<times> os" where
  [os_defs]: "realpath_link fd =
     syscall None (\<lambda>_ s. case link_target (fd_of s fd) s of
        None \<Rightarrow> (None, errno ENOENT s)
      | Some p \<Rightarrow> (let (b, s1) = malloc s in (map_option (\<lambda>b. (b, p)) b, s1)))"

section \<open>Operations\<close>

text \<open>The result code and the path when one is stored; the search and the checks before \<open>out\<close> first.\<close>

definition fd_path_checked :: "int \<Rightarrow> nat \<Rightarrow> os \<Rightarrow> ((int \<times> string option) \<times> os) option" where
  "fd_path_checked fd path_len s =
     (case find (\<lambda>d_name. d_name = show_nat (nat fd)) (dir_entries s) of
        None \<Rightarrow> Some ((ENOENT, None), s)
      | Some _ \<Rightarrow>
          let ((r1, fd_stat), s1) = fstat fd s in
          if r1 < 0 then Some ((os_errno s1, None), s1) else
          let ((r2, path_stat), s2) = stat_link fd s1 in
          if r2 < 0 then Some ((os_errno s2, None), s2) else
          if fd_stat \<noteq> path_stat then Some ((EINVAL, None), s2) else
          let (resolved_path, s3) = realpath_link fd s2 in
          case resolved_path of
            None \<Rightarrow> Some ((os_errno s3, None), s3)
          | Some (b, p) \<Rightarrow> do { s4 \<leftarrow> free (Some b) s3; Some ((0, Some (take (path_len - 1) p)), s4) })"

definition fd_to_path :: "int \<Rightarrow> nat \<Rightarrow> os \<Rightarrow> ((int \<times> string option) \<times> os) option" where
  "fd_to_path fd path_len s =
     (if \<not> fd > 0 \<or> path_len = 0 then None else
      let (dir, s1) = opendir s in
      if dir < 0 then Some ((os_errno s1, None), s1) else
      do {
        (r, s2) \<leftarrow> fd_path_checked fd path_len s1;
        Some (r, snd (close_fd dir s2))
      })"

text \<open>
  The number is printed into a buffer of eight bytes, and as many bytes as the whole number has digits
  are written from it.
\<close>

definition create_pidfile :: "string \<Rightarrow> nat \<Rightarrow> os \<Rightarrow> (int \<times> os) option" where
  "create_pidfile pidfile pid s =
     (let (pidfd, s1) = open_file pidfile (O_WRONLY OR O_CREAT) s in
      if pidfd < 0 then Some (os_errno s1, s1) else
      let pidstr = map (of_char :: char \<Rightarrow> byte) (take 7 (show_nat pid)) @ [0];
          n = length (show_nat pid)
      in if length pidstr < n then None else
      let (r, s2) = write_fd pidfd (take n pidstr) s1;
          rc = (if r \<noteq> int n then os_errno s2 else 0)
      in Some (rc, snd (close_fd pidfd s2)))"

definition getrlimit :: "os \<Rightarrow> (int \<times> (nat \<times> nat) option) \<times> os" where
  [os_defs]: "getrlimit = syscall (-1, None) (\<lambda>_ s. ((0, Some (os_core s)), s))"

text \<open>The soft limit must not exceed the hard one, and the hard one may only be lowered.\<close>

definition setrlimit :: "nat \<times> nat \<Rightarrow> os \<Rightarrow> int \<times> os" where
  [os_defs]: "setrlimit lim =
     syscall (-1) (\<lambda>_ s. if fst lim > snd lim then (-1, errno EINVAL s)
        else if snd lim > snd (os_core s) then (-1, errno 1 s) else (0, s\<lparr>os_core := lim\<rparr>))"

definition prctl_dumpable :: "os \<Rightarrow> int \<times> os" where
  [os_defs]: "prctl_dumpable = syscall (-1) (\<lambda>_ s. (0, s\<lparr>os_dumpable := True\<rparr>))"

definition core_rlimit_get :: "os \<Rightarrow> (int \<times> (nat \<times> nat) option) \<times> os" where
  "core_rlimit_get s = (let ((r, lim), s1) = getrlimit s in ((if r \<noteq> 0 then os_errno s1 else 0, lim), s1))"

definition core_rlimit_set :: "nat \<times> nat \<Rightarrow> os \<Rightarrow> int \<times> os" where
  "core_rlimit_set lim s = (let (r, s1) = setrlimit lim s in (if r \<noteq> 0 then os_errno s1 else 0, s1))"

text \<open>The result of reading the limits is ignored; on a failure the structure is uninitialised.\<close>

definition core_enable :: "os \<Rightarrow> int \<times> os" where
  "core_enable s =
     (let ((_, lim), s1) = core_rlimit_get s;
          rlim_max = (case lim of Some l \<Rightarrow> snd l | None \<Rightarrow> nat (os_junk s (os_tick s)));
          (r, s2) = core_rlimit_set (rlim_max, rlim_max) s1
      in if r \<noteq> 0 then (os_errno s2, s2) else
      let (p, s3) = prctl_dumpable s2 in (if p \<noteq> 0 then os_errno s3 else 0, s3))"

section \<open>The process identifier file\<close>

text \<open>
  writing the process identifier over an existing file succeeds, gives the descriptor back and replaces only the
  bytes the number needs: the file is not truncated, so the end of a longer old identifier stays behind it.
\<close>

theorem create_pidfile_spec:
  assumes ok: "faultless s" and fds: "free_fds s = n # fs" and dir: "os_dir s path = Some ino" and pid: "length (show_nat pid) \<le> 7"
  shows "\<exists>s'. create_pidfile path pid s = Some (0, s') \<and> os_fd s' = os_fd s \<and> os_dir s' = os_dir s \<and>
    os_data s' = (os_data s)(ino := map of_char (show_nat pid) @ drop (length (show_nat pid)) (os_data s ino))"
proof -
  let ?s1 = "set_fd (int n) (Some (Reg ino 0 False True False)) (tick s)"
  let ?bs = "map of_char (show_nat pid) :: byte list"
  have free: "os_fd s n = None" using arg_cong [OF fds, of set] by (auto simp: free_fds_def)
  have o: "open_file path (O_WRONLY OR O_CREAT) s = (int n, ?s1)"
    using ok dir fds
    by (simp add: open_file_def syscall_def faultlessD find_free_fd [of "tick s", simplified] open_flag_defs)
  have w: "write_fd (int n) ?bs ?s1 = (int (length ?bs), set_fd (int n) (Some (Reg ino (length ?bs) False True False))
      ((tick ?s1)\<lparr>os_data := (os_data s)(ino := write_at 0 ?bs (os_data s ino))\<rparr>))" (is "_ = (_, ?s2)")
    using ok by (simp add: write_fd_def syscall_def faultlessD fd_of_def set_fd_def)
  have e: "create_pidfile path pid s = Some (0, snd (close_fd (int n) ?s2))"
    using o w pid by (simp add: create_pidfile_def take_map)
  have "os_fd ?s2 = (os_fd s)(n \<mapsto> Reg ino (length ?bs) False True False)" by (simp add: set_fd_def)
  then have "os_fd (snd (close_fd (int n) ?s2)) = os_fd s" using free by (simp add: fun_upd_idem)
  moreover have "write_at 0 ?bs (os_data s ino) = ?bs @ drop (length (show_nat pid)) (os_data s ino)" by (simp add: write_at_def)
  ultimately show ?thesis using e by simp
qed

theorem create_pidfile_spec_witness:
  "\<exists>s'. create_pidfile ''p'' 42 ((boot (\<lambda>_. Succeed))\<lparr>os_dir := [''p'' \<mapsto> 0], os_data := (\<lambda>_. [49, 50, 51, 52])\<rparr>) = Some (0, s') \<and>
     os_data s' 0 = [52, 50, 51, 52]"
proof -
  let ?s = "(boot (\<lambda>_. Succeed))\<lparr>os_dir := [''p'' \<mapsto> 0], os_data := (\<lambda>_. [49, 50, 51, 52])\<rparr>"
  have p: "show_nat 42 = ''42''" by code_simp
  have "faultless ?s" "free_fds ?s = 3 # [4, 5, 6, 7]" "os_dir ?s ''p'' = Some 0" by (simp_all add: faultless_def free_fds_def upt_rec)
  from create_pidfile_spec [OF this, of 42] show ?thesis by (auto simp: p)
qed

end
