(* ===== verification/Capture.thy ===== *)
theory Capture
  imports Threads Misc Packet_Rx Packet_Tx
begin

text \<open>
  Captures, \<^verbatim>\<open>src/dabbad/capture.c\<close> and \<^verbatim>\<open>src/dabbad/include/dabbad/capture.h\<close>: the queue of running captures
  and the remote procedures that start, stop and list them. The state of the daemon is the operating system with the
  three queues; captures and replays share the queue of threads. A handler returns the error code of its reply and
  the new state, or \<open>None\<close> when the process aborts or corrupts its memory.
\<close>

section \<open>State\<close>

text \<open>\<^verbatim>\<open>struct packet_capture\<close> and \<^verbatim>\<open>struct packet_replay\<close>, with the heap block each lives in.\<close>

record packet_capture =
  pc_blk :: nat
  pc_rx :: packet_rx
  pc_thread :: packet_thread

record packet_replay =
  pr_blk :: nat
  pr_tx :: packet_tx
  pr_thread :: packet_thread

record daemon =
  d_os :: os
  d_threads :: thread_queue
  d_captures :: "packet_capture tailq"
  d_replays :: "packet_replay tailq"

abbreviation captures :: "daemon \<Rightarrow> packet_capture list" where "captures d \<equiv> tq_head (d_captures d)"
abbreviation replays :: "daemon \<Rightarrow> packet_replay list" where "replays d \<equiv> tq_head (d_replays d)"

section \<open>The queue\<close>

definition dabbad_capture_length_get :: "packet_capture tailq \<Rightarrow> nat" where
  "dabbad_capture_length_get q = tq_length q"

definition dabbad_capture_insert :: "packet_capture \<Rightarrow> packet_capture tailq \<Rightarrow> packet_capture tailq" where
  "dabbad_capture_insert node q = tailq_insert node q"

definition dabbad_capture_remove :: "packet_capture \<Rightarrow> packet_capture tailq \<Rightarrow> packet_capture tailq option" where
  "dabbad_capture_remove node q = tailq_remove pc_blk (pc_blk node) q"

definition capture_id :: "packet_capture \<Rightarrow> nat" where "capture_id c = pt_id (pc_thread c)"

definition dabbad_capture_find :: "nat \<Rightarrow> packet_capture tailq \<Rightarrow> packet_capture option" where
  "dabbad_capture_find i q = find (\<lambda>node. capture_id node = i) (tq_head q)"

interpretation cq: node_queue dabbad_capture_insert dabbad_capture_remove dabbad_capture_find
  dabbad_capture_length_get tq_head pc_blk capture_id
  by unfold_locales
    (auto simp: dabbad_capture_insert_def dabbad_capture_remove_def dabbad_capture_find_def
      dabbad_capture_length_get_def tailq_remove_some)

section \<open>Starting\<close>

text \<open>The message \<^verbatim>\<open>capture\<close> as a request; absent numbers are 0, absent strings NULL.\<close>

record capture_request =
  cr_pcap :: "string option"
  cr_interface :: "string option"
  cr_frame_nr :: u64
  cr_frame_size :: u64
  cr_append :: bool
  cr_sfp :: "pbuf_sock_fprog option"

definition capture_settings_are_valid :: "capture_request \<Rightarrow> bool" where
  "capture_settings_are_valid m =
     (if cr_interface m = None \<or> length (the (cr_interface m)) = 0 then False
      else if cr_pcap m = None \<or> length (the (cr_pcap m)) = 0 then False
      else if \<not> packet_mmap_frame_size_is_valid (cr_frame_size m) then False
      else if cr_frame_nr m = 0 then False
      else True)"

text \<open>The filter block of the zeroed structure.\<close>

definition zero_sfp :: sock_fprog where
  "zero_sfp = \<lparr>fp_len = 0, fp_filter = [], fp_blk = None\<rparr>"

text \<open>The conditional block that converts and attaches a filter.\<close>

definition capture_filter :: "capture_request \<Rightarrow> int \<Rightarrow> os \<Rightarrow> ((int \<times> sock_fprog) \<times> os) option" where
  "capture_filter m sock s =
     (case cr_sfp m of
        None \<Rightarrow> Some ((0, zero_sfp), s)
      | Some p \<Rightarrow>
          if pb_filter p = [] then Some ((0, zero_sfp), s) else
          do {
            ((rc, sfp), s1) \<leftarrow> dabbad_pbuf_sfp_2_sfp p zero_sfp s;
            if rc \<noteq> 0 then Some ((rc, sfp), s1) else
            let (rc, s2) = ldab_sock_filter_attach sock sfp s1 in
            if rc \<noteq> 0 then do { (sfp, s3) \<leftarrow> dabbad_sfp_destroy sfp s2; Some ((rc, sfp), s3) }
            else Some ((0, sfp), s2)
          })"

text \<open>\<open>free(pkt_capture); close(sock);\<close>, the end of every error path.\<close>

definition release :: "nat \<Rightarrow> int \<Rightarrow> os \<Rightarrow> os option" where
  "release blk sock s = do { s1 \<leftarrow> free (Some blk) s; Some (snd (close_fd sock s1)) }"

definition capture_pcap :: "capture_request \<Rightarrow> os \<Rightarrow> (int \<times> os) option" where
  "capture_pcap m s =
     (if cr_append m then Some (ldab_pcap_open (the (cr_pcap m)) (O_RDWR OR O_APPEND) s)
      else ldab_pcap_create (the (cr_pcap m)) LINKTYPE_EN10MB s)"

text \<open>The last step, on a ring that is ready: the thread.\<close>

definition capture_start_thread ::
  "daemon \<Rightarrow> int \<Rightarrow> nat \<Rightarrow> int \<Rightarrow> sock_fprog \<Rightarrow> packet_mmap \<Rightarrow> os \<Rightarrow> (int \<times> daemon) option" where
  "capture_start_thread d sock blk pcap_fd sfp pm s =
     (let ((rc, t), q, s1) = dabbad_thread_start
         \<lparr>pt_node = blk, pt_id = 0, pt_type = CAPTURE_THREAD\<rparr> Fn_Packet_Rx blk (d_threads d) s in
      if rc \<noteq> 0 then do {
        (_, s2) \<leftarrow> ldab_packet_mmap_destroy pm s1;
        (_, s3) \<leftarrow> dabbad_sfp_destroy sfp s2;
        s4 \<leftarrow> release blk sock s3;
        Some (rc, d\<lparr>d_os := s4, d_threads := q\<rparr>) }
      else
        Some (rc, d\<lparr>d_os := s1, d_threads := q, d_captures := dabbad_capture_insert
           \<lparr>pc_blk = blk, pc_rx = \<lparr>rx_mmap = pm, rx_sfp = sfp, rx_pcap_fd = pcap_fd\<rparr>, pc_thread = t\<rparr>
           (d_captures d)\<rparr>))"

text \<open>The steps before it, on an open file: the filter and the ring.\<close>

definition capture_start_ring ::
  "capture_request \<Rightarrow> daemon \<Rightarrow> int \<Rightarrow> nat \<Rightarrow> int \<Rightarrow> os \<Rightarrow> (int \<times> daemon) option" where
  "capture_start_ring m d sock blk pcap_fd s =
     do {
       ((rc, sfp), s1) \<leftarrow> capture_filter m sock s;
       if rc \<noteq> 0 then do { s2 \<leftarrow> release blk sock s1; Some (rc, d\<lparr>d_os := s2\<rparr>) }
       else do {
         ((rc, pm), s2) \<leftarrow> ldab_packet_mmap_create zero_mmap (the (cr_interface m)) sock PACKET_MMAP_RX
            (ucast (cr_frame_size m)) (cr_frame_nr m) s1;
         if rc \<noteq> 0 then do {
           (_, s3) \<leftarrow> dabbad_sfp_destroy sfp s2;
           s4 \<leftarrow> release blk sock s3;
           Some (rc, d\<lparr>d_os := s4\<rparr>) }
         else capture_start_thread d sock blk pcap_fd sfp pm s2
       }
     }"

definition dabbad_capture_start :: "capture_request \<Rightarrow> daemon \<Rightarrow> (int \<times> daemon) option" where
  "dabbad_capture_start m d =
     (if \<not> capture_settings_are_valid m then Some (EINVAL, d) else
      let (sock, s1) = socket (d_os d) in
      if sock < 0 then Some (os_errno s1, d\<lparr>d_os := s1\<rparr>) else
      let (b, s2) = malloc s1 in
      case b of
        None \<Rightarrow> Some (ENOMEM, d\<lparr>d_os := snd (close_fd sock s2)\<rparr>)
      | Some blk \<Rightarrow>
          do {
            (pcap_fd, s3) \<leftarrow> capture_pcap m s2;
            if pcap_fd < 0 then do { s4 \<leftarrow> release blk sock s3; Some (os_errno s3, d\<lparr>d_os := s4\<rparr>) }
            else capture_start_ring m d sock blk pcap_fd s3
          })"

section \<open>Stopping\<close>

text \<open>The block after a successful \<open>dabbad_thread_stop\<close>, the same in both procedures.\<close>

definition capture_teardown :: "packet_capture \<Rightarrow> daemon \<Rightarrow> daemon option" where
  "capture_teardown c d =
     do {
       q \<leftarrow> dabbad_capture_remove c (d_captures d);
       let (_, s1) = ldab_sock_filter_detach (pf_sock (rx_mmap (pc_rx c))) (d_os d);
       (_, s2) \<leftarrow> dabbad_sfp_destroy (rx_sfp (pc_rx c)) s1;
       let (_, s3) = close_fd (rx_pcap_fd (pc_rx c)) s2;
       (_, s4) \<leftarrow> ldab_packet_mmap_destroy (rx_mmap (pc_rx c)) s3;
       s5 \<leftarrow> free (Some (pc_blk c)) s4;
       Some (d\<lparr>d_os := s5, d_captures := q\<rparr>)
     }"

definition dabbad_capture_stop :: "nat \<Rightarrow> daemon \<Rightarrow> (int \<times> daemon) option" where
  "dabbad_capture_stop i d =
     (case dabbad_capture_find i (d_captures d) of
        None \<Rightarrow> Some (EINVAL, d)
      | Some c \<Rightarrow>
          do {
            (rc, q, s) \<leftarrow> dabbad_thread_stop (pc_thread c) (d_threads d) (d_os d);
            let d1 = d\<lparr>d_os := s, d_threads := q\<rparr>;
            if rc \<noteq> 0 then Some (rc, d1) else do { d2 \<leftarrow> capture_teardown c d1; Some (rc, d2) }
          })"

text \<open>The loop: the successor of a node is read before the node is released.\<close>

fun capture_stop_loop :: "packet_capture list \<Rightarrow> daemon \<Rightarrow> (int \<times> daemon) option" where
  "capture_stop_loop [] d = Some (0, d)"
| "capture_stop_loop (c # cs) d =
     do {
       (rc, q, s) \<leftarrow> dabbad_thread_stop (pc_thread c) (d_threads d) (d_os d);
       let d1 = d\<lparr>d_os := s, d_threads := q\<rparr>;
       if rc \<noteq> 0 then Some (rc, d1) else do { d2 \<leftarrow> capture_teardown c d1; capture_stop_loop cs d2 }
     }"

definition dabbad_capture_stop_all :: "daemon \<Rightarrow> (int \<times> daemon) option" where
  "dabbad_capture_stop_all d = capture_stop_loop (captures d) d"

section \<open>Listing\<close>

text \<open>The message \<^verbatim>\<open>capture\<close> as a reply.\<close>

record capture_info =
  ci_code :: int
  ci_id :: nat
  ci_pcap :: string
  ci_interface :: string
  ci_frame_nr :: u64
  ci_frame_size :: u64
  ci_sfp :: pbuf_sock_fprog

definition dabba__capture__init :: capture_info where
  "dabba__capture__init = \<lparr>ci_code = 0, ci_id = 0, ci_pcap = [], ci_interface = [], ci_frame_nr = 0,
     ci_frame_size = 0, ci_sfp = dabba__sock_fprog__init\<rparr>"

definition NAME_MAX :: nat where "NAME_MAX = 255"

text \<open>The second loop; a string that is not stored stays empty. The results of the three calls are ignored.\<close>

fun capture_get_fill :: "packet_capture list \<Rightarrow> rpc_entry list \<Rightarrow> os \<Rightarrow> (capture_info list \<times> os) option" where
  "capture_get_fill [] es s = Some (map (\<lambda>_. dabba__capture__init) es, s)"
| "capture_get_fill (c # cs) [] s = None"
| "capture_get_fill (c # cs) (e # es) s =
     do {
       ((_, path), s1) \<leftarrow> fd_to_path (rx_pcap_fd (pc_rx c)) NAME_MAX s;
       ((_, name), s2) \<leftarrow> ldab_ifindex_to_devname (ifindex (rx_mmap (pc_rx c))) IFNAMSIZ s1;
       ((_, sfp), s3) \<leftarrow> dabbad_sfp_2_pbuf_sfp (rx_sfp (pc_rx c)) dabba__sock_fprog__init s2;
       (rest, s4) \<leftarrow> capture_get_fill cs es s3;
       Some (\<lparr>ci_code = 0, ci_id = capture_id c,
              ci_pcap = (case path of Some p \<Rightarrow> p | None \<Rightarrow> []),
              ci_interface = (case name of Some n \<Rightarrow> n | None \<Rightarrow> []),
              ci_frame_nr = ucast (tp_frame_nr (layout (rx_mmap (pc_rx c)))),
              ci_frame_size = ucast (tp_frame_size (layout (rx_mmap (pc_rx c)))),
              ci_sfp = sfp\<rparr> # rest, s4)
     }"

text \<open>
  The release loop. The filter message of an element whose parts were not all allocated is NULL or has never been
  initialised, and is released all the same: \<open>None\<close>. The order of the other releases of an element does not matter.
\<close>

fun capture_get_free :: "rpc_entry list \<Rightarrow> capture_info list \<Rightarrow> os \<Rightarrow> os option" where
  "capture_get_free [] is s = Some s"
| "capture_get_free (None # es) is s = capture_get_free es (tl is) s"
| "capture_get_free (Some (b, parts) # es) is s =
     (if None \<in> set parts then None else
      do {
        (_, s1) \<leftarrow> dabbad_pbuf_sfp_destroy (ci_sfp (hd is)) s;
        s2 \<leftarrow> free_each parts s1;
        s3 \<leftarrow> free (Some b) s2;
        capture_get_free es (tl is) s3
      })"

text \<open>The identifiers of the request are not looked at.\<close>

definition dabbad_capture_get :: "daemon \<Rightarrow> (capture_info list option \<times> daemon) option" where
  "dabbad_capture_get d =
     (let a = dabbad_capture_length_get (d_captures d) in
      if a = 0 then Some (None, d) else
      let (lst, s1) = malloc (d_os d) in
      if lst = None then Some (None, d\<lparr>d_os := s1\<rparr>) else
      let ((ok, es), s2) = list_alloc 5 a s1 in
      do {
        (is, s3) \<leftarrow> (if ok then capture_get_fill (captures d) es s2
                     else Some (map (\<lambda>_. dabba__capture__init) es, s2));
        s4 \<leftarrow> capture_get_free es is s3;
        s5 \<leftarrow> free lst s4;
        Some (if ok then Some is else None, d\<lparr>d_os := s5\<rparr>)
      })"

end
