(* ===== verification/Replay.thy ===== *)
theory Replay
  imports Capture
begin

text \<open>
  Replays, \<^verbatim>\<open>src/dabbad/replay.c\<close> and \<^verbatim>\<open>src/dabbad/include/dabbad/replay.h\<close>: the queue of running replays and the
  remote procedures that start, stop and list them, over the state of the daemon.
\<close>

section \<open>The queue\<close>

definition dabbad_replay_length_get :: "packet_replay tailq \<Rightarrow> nat" where
  "dabbad_replay_length_get q = tq_length q"

definition dabbad_replay_insert :: "packet_replay \<Rightarrow> packet_replay tailq \<Rightarrow> packet_replay tailq" where
  "dabbad_replay_insert node q = tailq_insert node q"

definition dabbad_replay_remove :: "packet_replay \<Rightarrow> packet_replay tailq \<Rightarrow> packet_replay tailq option" where
  "dabbad_replay_remove node q = tailq_remove pr_blk (pr_blk node) q"

definition replay_id :: "packet_replay \<Rightarrow> nat" where "replay_id r = pt_id (pr_thread r)"

definition dabbad_replay_find :: "nat \<Rightarrow> packet_replay tailq \<Rightarrow> packet_replay option" where
  "dabbad_replay_find i q = find (\<lambda>node. replay_id node = i) (tq_head q)"

interpretation rq: node_queue dabbad_replay_insert dabbad_replay_remove dabbad_replay_find
  dabbad_replay_length_get tq_head pr_blk replay_id
  by unfold_locales
    (auto simp: dabbad_replay_insert_def dabbad_replay_remove_def dabbad_replay_find_def
      dabbad_replay_length_get_def tailq_remove_some)

section \<open>Starting\<close>

record replay_request =
  rr_pcap :: "string option"
  rr_interface :: "string option"
  rr_frame_nr :: u64
  rr_frame_size :: u64

definition replay_settings_are_valid :: "replay_request \<Rightarrow> bool" where
  "replay_settings_are_valid m =
     (if rr_interface m = None \<or> length (the (rr_interface m)) = 0 then False
      else if rr_pcap m = None \<or> length (the (rr_pcap m)) = 0 then False
      else if \<not> packet_mmap_frame_size_is_valid (rr_frame_size m) then False
      else if rr_frame_nr m = 0 then False
      else True)"

text \<open>The ring and the thread, on an open file.\<close>

definition replay_start_ring ::
  "replay_request \<Rightarrow> daemon \<Rightarrow> int \<Rightarrow> nat \<Rightarrow> int \<Rightarrow> os \<Rightarrow> (int \<times> daemon) option" where
  "replay_start_ring m d sock blk pcap_fd s =
     do {
       ((rc, pm), s1) \<leftarrow> ldab_packet_mmap_create zero_mmap (the (rr_interface m)) sock PACKET_MMAP_TX
          (ucast (rr_frame_size m)) (rr_frame_nr m) s;
       if rc \<noteq> 0 then do { s2 \<leftarrow> release blk sock s1; Some (rc, d\<lparr>d_os := s2\<rparr>) }
       else
         let ((rc, t), q, s2) = dabbad_thread_start
            \<lparr>pt_node = blk, pt_id = 0, pt_type = REPLAY_THREAD\<rparr> Fn_Packet_Tx blk (d_threads d) s1 in
         if rc \<noteq> 0 then do {
           (_, s3) \<leftarrow> ldab_packet_mmap_destroy pm s2;
           s4 \<leftarrow> release blk sock s3;
           Some (rc, d\<lparr>d_os := s4, d_threads := q\<rparr>) }
         else
           Some (rc, d\<lparr>d_os := s2, d_threads := q, d_replays := dabbad_replay_insert
              \<lparr>pr_blk = blk, pr_tx = \<lparr>tx_mmap = pm, tx_pcap_fd = pcap_fd\<rparr>, pr_thread = t\<rparr> (d_replays d)\<rparr>)
     }"

definition dabbad_replay_start :: "replay_request \<Rightarrow> daemon \<Rightarrow> (int \<times> daemon) option" where
  "dabbad_replay_start m d =
     (if \<not> replay_settings_are_valid m then Some (EINVAL, d) else
      let (sock, s1) = socket (d_os d) in
      if sock < 0 then Some (os_errno s1, d\<lparr>d_os := s1\<rparr>) else
      let (b, s2) = malloc s1 in
      case b of
        None \<Rightarrow> Some (ENOMEM, d\<lparr>d_os := snd (close_fd sock s2)\<rparr>)
      | Some blk \<Rightarrow>
          let (pcap_fd, s3) = ldab_pcap_open (the (rr_pcap m)) O_RDONLY s2 in
          if pcap_fd < 0 then do { s4 \<leftarrow> release blk sock s3; Some (os_errno s3, d\<lparr>d_os := s4\<rparr>) }
          else replay_start_ring m d sock blk pcap_fd s3)"

section \<open>Stopping\<close>

definition replay_teardown :: "packet_replay \<Rightarrow> daemon \<Rightarrow> daemon option" where
  "replay_teardown r d =
     do {
       q \<leftarrow> dabbad_replay_remove r (d_replays d);
       let (_, s1) = close_fd (tx_pcap_fd (pr_tx r)) (d_os d);
       (_, s2) \<leftarrow> ldab_packet_mmap_destroy (tx_mmap (pr_tx r)) s1;
       s3 \<leftarrow> free (Some (pr_blk r)) s2;
       Some (d\<lparr>d_os := s3, d_replays := q\<rparr>)
     }"

definition dabbad_replay_stop :: "nat \<Rightarrow> daemon \<Rightarrow> (int \<times> daemon) option" where
  "dabbad_replay_stop i d =
     (case dabbad_replay_find i (d_replays d) of
        None \<Rightarrow> Some (EINVAL, d)
      | Some r \<Rightarrow>
          do {
            (rc, q, s) \<leftarrow> dabbad_thread_stop (pr_thread r) (d_threads d) (d_os d);
            let d1 = d\<lparr>d_os := s, d_threads := q\<rparr>;
            if rc \<noteq> 0 then Some (rc, d1) else do { d2 \<leftarrow> replay_teardown r d1; Some (rc, d2) }
          })"

fun replay_stop_loop :: "packet_replay list \<Rightarrow> daemon \<Rightarrow> (int \<times> daemon) option" where
  "replay_stop_loop [] d = Some (0, d)"
| "replay_stop_loop (r # rs) d =
     do {
       (rc, q, s) \<leftarrow> dabbad_thread_stop (pr_thread r) (d_threads d) (d_os d);
       let d1 = d\<lparr>d_os := s, d_threads := q\<rparr>;
       if rc \<noteq> 0 then Some (rc, d1) else do { d2 \<leftarrow> replay_teardown r d1; replay_stop_loop rs d2 }
     }"

definition dabbad_replay_stop_all :: "daemon \<Rightarrow> (int \<times> daemon) option" where
  "dabbad_replay_stop_all d = replay_stop_loop (replays d) d"

section \<open>Listing\<close>

record replay_info =
  ri_code :: int
  ri_id :: nat
  ri_pcap :: string
  ri_interface :: string
  ri_frame_nr :: u64
  ri_frame_size :: u64

definition dabba__replay__init :: replay_info where
  "dabba__replay__init = \<lparr>ri_code = 0, ri_id = 0, ri_pcap = [], ri_interface = [], ri_frame_nr = 0, ri_frame_size = 0\<rparr>"

fun replay_get_fill :: "packet_replay list \<Rightarrow> rpc_entry list \<Rightarrow> os \<Rightarrow> (replay_info list \<times> os) option" where
  "replay_get_fill [] es s = Some (map (\<lambda>_. dabba__replay__init) es, s)"
| "replay_get_fill (r # rs) [] s = None"
| "replay_get_fill (r # rs) (e # es) s =
     do {
       ((_, path), s1) \<leftarrow> fd_to_path (tx_pcap_fd (pr_tx r)) NAME_MAX s;
       ((_, name), s2) \<leftarrow> ldab_ifindex_to_devname (ifindex (tx_mmap (pr_tx r))) IFNAMSIZ s1;
       (rest, s3) \<leftarrow> replay_get_fill rs es s2;
       Some (\<lparr>ri_code = 0, ri_id = replay_id r,
              ri_pcap = (case path of Some p \<Rightarrow> p | None \<Rightarrow> []),
              ri_interface = (case name of Some n \<Rightarrow> n | None \<Rightarrow> []),
              ri_frame_nr = ucast (tp_frame_nr (layout (tx_mmap (pr_tx r)))),
              ri_frame_size = ucast (tp_frame_size (layout (tx_mmap (pr_tx r))))\<rparr> # rest, s3)
     }"

definition dabbad_replay_get :: "daemon \<Rightarrow> (replay_info list option \<times> daemon) option" where
  "dabbad_replay_get d =
     (let a = dabbad_replay_length_get (d_replays d) in
      if a = 0 then Some (None, d) else
      let (lst, s1) = malloc (d_os d) in
      if lst = None then Some (None, d\<lparr>d_os := s1\<rparr>) else
      let ((ok, es), s2) = list_alloc 4 a s1 in
      do {
        (reply, s3) \<leftarrow>
          (if ok then do { (is, s3) \<leftarrow> replay_get_fill (replays d) es s2; Some (Some is, s3) }
           else Some (None, s2));
        s4 \<leftarrow> list_free es s3;
        s5 \<leftarrow> free lst s4;
        Some (reply, d\<lparr>d_os := s5\<rparr>)
      })"

end
