(* ===== verification/Sessions.thy ===== *)
theory Sessions
  imports Replay
begin

text \<open>
  What a capture or replay owns, the same for both: heap blocks, a ring with its socket and its memory map, the
  descriptor of its file, and a thread. The predicate \<open>owned\<close> says that a list of sessions owns exactly
  the heap and the memory maps, each its own part, and that every ring is ready and every file open; \<open>live\<close> that
  their threads are running and are the threads of the queue. The rest of the theory follows the resources through the
  steps of a start (\<open>acq\<close>, \<open>acq_ring\<close>) whatever fails on the way.
\<close>

section \<open>What the operations leave alone\<close>

text \<open>
  Threads may be added, and the scheduling of threads may change; identifier, routine, argument and
  cancellation of the others do not.
\<close>

definition thr_key :: "thr \<Rightarrow> nat \<times> thread_fn \<times> nat \<times> bool" where
  "thr_key t = (t_id t, t_fn t, t_arg t, t_cancel t)"

definition thr_ext :: "os \<Rightarrow> os \<Rightarrow> bool" where
  "thr_ext s s' \<longleftrightarrow> (\<exists>ts. map thr_key (os_threads s') = map thr_key (os_threads s) @ ts) \<and>
     (distinct (thread_ids s) \<longrightarrow> distinct (thread_ids s'))"

lemma thr_ext_same: "os_threads s' = os_threads s \<Longrightarrow> thr_ext s s'"
  by (simp add: thr_ext_def thread_ids_def)

lemma thr_ext_trans: "thr_ext s s1 \<Longrightarrow> thr_ext s1 s2 \<Longrightarrow> thr_ext s s2"
  by (auto simp: thr_ext_def)

lemma thr_ext_mem:
  assumes "thr_ext s s'" and "t \<in> set (os_threads s)"
  shows "\<exists>t' \<in> set (os_threads s'). thr_key t' = thr_key t"
proof -
  from assms(1) obtain ts where "map thr_key (os_threads s') = map thr_key (os_threads s) @ ts" by (auto simp: thr_ext_def)
  then have "thr_key ` set (os_threads s) \<subseteq> thr_key ` set (os_threads s')" by (metis list.set_map set_append Un_upper1)
  with assms(2) show ?thesis by (metis image_eqI image_iff subsetD)
qed

definition kept :: "os \<Rightarrow> os \<Rightarrow> bool" where
  "kept s s' \<longleftrightarrow> os_endian s' = os_endian s \<and> os_sched s' = os_sched s \<and> os_nofile s' = os_nofile s \<and>
     os_online s' = os_online s \<and> os_ioctl s' = os_ioctl s \<and> thr_ext s s' \<and>
     (heap_wf s \<longrightarrow> heap_wf s') \<and> (maps_wf s \<longrightarrow> maps_wf s')"

lemma kept_refl [simp]: "kept s s"
  by (simp add: kept_def thr_ext_same)

lemma kept_trans: "kept s s1 \<Longrightarrow> kept s1 s2 \<Longrightarrow> kept s s2"
  by (auto simp: kept_def intro: thr_ext_trans)

lemma kept_socket: "kept s (snd (socket s))"
  by (simp add: kept_def thr_ext_same heap_wf_def maps_wf_def)

lemma kept_malloc: "kept s (snd (malloc s))"
  by (auto simp: kept_def thr_ext_same heap_wf_def maps_wf_def malloc_def tick_def errno_def less_Suc_eq split: outcome.split)

lemma kept_free: "free b s = Some s' \<Longrightarrow> kept s s'"
  by (auto simp: kept_def thr_ext_same free_def heap_wf_def maps_wf_def split: option.splits if_splits)

lemma kept_close: "kept s (snd (close_fd n s))"
  by (simp add: kept_def thr_ext_same heap_wf_def maps_wf_def)

lemma kept_open: "kept s (snd (ldab_pcap_open p f s))"
  by (simp add: kept_def thr_ext_same heap_wf_def maps_wf_def)

lemma kept_create: "ldab_pcap_create p lt s = Some (n, s') \<Longrightarrow> kept s s'"
  by (frule ldab_pcap_create_frame(1)) (auto simp: kept_def thr_ext_same heap_wf_def maps_wf_def ldab_pcap_create_frame)

lemma kept_on_sock: "kept s (snd (on_sock n f s))"
  by (simp add: kept_def thr_ext_same heap_wf_def maps_wf_def)

lemma kept_attach: "kept s (snd (ldab_sock_filter_attach n f s))"
  by (simp add: ldab_sock_filter_attach_def setsockopt_filter_def kept_on_sock)

lemma kept_detach: "kept s (snd (ldab_sock_filter_detach n s))"
  by (simp add: ldab_sock_filter_detach_def setsockopt_filter_def kept_on_sock)

lemma kept_mmap: "kept s (snd (mmap n fd s))"
proof -
  obtain a s' where m: "mmap n fd s = (a, s')" by force
  have "maps_wf s'" if w: "maps_wf s"
    unfolding maps_wf_def
  proof
    fix x assume x: "x \<in> dom (os_maps s')"
    from mmap_result [OF m] show "0 < x \<and> x \<le> int (os_vm s')"
    proof (elim disjE conjE)
      assume "os_maps s' = os_maps s" "os_vm s' = os_vm s"
      with x w show ?thesis by (simp add: maps_wf_def)
    next
      assume "a = int (Suc (os_vm s))" "os_maps s' = (os_maps s)(a \<mapsto> n)" "os_vm s' = Suc (os_vm s) + n"
      with x bspec [OF w [unfolded maps_wf_def], of x] show ?thesis by (cases "x = a") auto
    qed
  qed
  then show ?thesis using mmap_frame [of n fd s] m by (simp add: kept_def thr_ext_same heap_wf_def)
qed

lemma kept_munmap: "kept s (snd (munmap a n s))"
  by (auto simp: kept_def thr_ext_same heap_wf_def maps_wf_def munmap_def errno_def split: if_splits)

lemma kept_sfp_destroy: "dabbad_sfp_destroy f s = Some (f', s') \<Longrightarrow> kept s s'"
  by (auto simp: dabbad_sfp_destroy_def bind_eq_Some_conv dest: kept_free)


lemma kept_register: "kept s (snd (packet_mmap_register pm s))"
  using kept_on_sock by (auto simp: packet_mmap_register_def setsockopt_ring_def Let_def split_beta)

lemma kept_bind: "kept s (snd (packet_mmap_bind pm s))"
  using kept_on_sock by (auto simp: packet_mmap_bind_def bind_sock_def Let_def split_beta)

lemma kept_packet_mmap_mmap: "kept s (snd (packet_mmap_mmap pm s))"
  using kept_mmap by (auto simp: packet_mmap_mmap_def Let_def split_beta)

lemma kept_vector_create: "packet_mmap_vector_create pm s = Some (r, s') \<Longrightarrow> kept s s'"
  using kept_malloc [of s] by (auto simp: packet_mmap_vector_create_def Let_def split_beta split: if_splits option.splits)

lemma kept_mmap_destroy:
  assumes "ldab_packet_mmap_destroy pm s = Some (pm', s')"
  shows "kept s s'"
proof -
  from assms obtain s1 where f: "free (map_option fst (vec pm)) s = Some s1"
    and s': "s' = snd (packet_mmap_unregister (fst (packet_mmap_munmap pm s1)) (snd (packet_mmap_munmap pm s1)))"
    by (auto simp: ldab_packet_mmap_destroy_def packet_mmap_vector_destroy_def Let_def split_beta bind_eq_Some_conv)
  have "kept s1 (snd (packet_mmap_munmap pm s1))"
    using kept_munmap by (simp add: packet_mmap_munmap_def Let_def split_beta)
  moreover have "kept s2 (snd (packet_mmap_unregister pm2 s2))" for pm2 s2
    using kept_on_sock by (simp add: packet_mmap_unregister_def setsockopt_ring_def Let_def split_beta)
  ultimately show ?thesis using kept_free [OF f] s' kept_trans by blast
qed

lemma kept_run_mmap_fn:
  assumes "\<And>fn pm s r s'. fn \<in> set fns \<Longrightarrow> fn pm s = Some (r, s') \<Longrightarrow> kept s s'"
    and "run_mmap_fn fns pm s = Some (r, s')"
  shows "kept s s'"
  using assms
proof (induction fns arbitrary: pm s)
  case Nil
  then show ?case by simp
next
  case (Cons fn fns)
  from Cons.prems(2) obtain rc pm1 s1 where f: "fn pm s = Some ((rc, pm1), s1)"
    and rest: "(if rc \<noteq> 0 then do { (pm, s2) \<leftarrow> ldab_packet_mmap_destroy pm1 s1; Some ((rc, pm), s2) }
       else run_mmap_fn fns pm1 s1) = Some (r, s')"
    by (auto simp: bind_eq_Some_conv)
  have k: "kept s s1" using Cons.prems(1) [of fn pm s "(rc, pm1)" s1] f by simp
  show ?case
  proof (cases "rc \<noteq> 0")
    case True
    with rest k kept_trans kept_mmap_destroy show ?thesis by (auto simp: bind_eq_Some_conv)
  next
    case False
    have "kept s1 s'"
    proof (rule Cons.IH)
      show "kept s s'" if "f \<in> set fns" "f pm s = Some (r, s')" for f pm s r s' using that Cons.prems(1) [of f pm s r s'] by simp
      show "run_mmap_fn fns pm1 s1 = Some (r, s')" using rest False by simp
    qed
    with k kept_trans show ?thesis by blast
  qed
qed

lemma kept_mmap_create:
  assumes "ldab_packet_mmap_create pm dev sock ty fs n s = Some (r, s')"
  shows "kept s s'"
proof -
  obtain rc idx s1 where d: "ldab_devname_to_ifindex dev s = ((rc, idx), s1)" by (metis surj_pair)
  have k: "kept s s1" using ldab_devname_to_ifindex_frame [of dev s] d by (simp add: kept_def thr_ext_same heap_wf_def maps_wf_def)
  have "kept s' s''" if "fn \<in> set pkt_mmap_fn" "fn pm s' = Some (r, s'')" for fn pm s' r s''
    using that kept_register [of s' pm] kept_packet_mmap_mmap [of s' pm] kept_bind [of s' pm] kept_vector_create [of pm s' r s'']
    by (auto simp: pkt_mmap_fn_def)
  then have run: "run_mmap_fn pkt_mmap_fn pm1 s1 = Some (r, s') \<Longrightarrow> kept s1 s'" for pm1
    using kept_run_mmap_fn by metis
  from assms d k run kept_trans show ?thesis
    by (auto simp: ldab_packet_mmap_create_def Let_def split: if_splits)
qed


section \<open>Sessions\<close>

text \<open>What \<open>netdevice(7)\<close> documents of the kernel: the index it grants for an interface is not negative.\<close>

definition kernel_ok :: "os \<Rightarrow> bool" where
  "kernel_ok s \<longleftrightarrow> (\<forall>h r. (case fst (os_ioctl s h SIOCGIFINDEX r) of Fail _ \<Rightarrow> False | _ \<Rightarrow> True) \<longrightarrow>
     0 \<le> ifr_ifindex (snd (os_ioctl s h SIOCGIFINDEX r)))"

lemma devname_index_nonneg:
  assumes "kernel_ok s"
  shows "0 \<le> (case snd (fst (ldab_devname_to_ifindex dev s)) of Some i \<Rightarrow> i | None \<Rightarrow> 0)"
proof -
  obtain rc r s1 where k: "dev_kernel_request (set_name dev) SIOCGIFINDEX s = ((rc, r), s1)" by (metis surj_pair)
  have "rc = 0 \<Longrightarrow> 0 \<le> ifr_ifindex r"
    using dev_kernel_request_result [OF k] assms by (auto simp: granted_def kernel_ok_def)
  with k show ?thesis by (simp add: ldab_devname_to_ifindex_def)
qed

record session =
  ss_blocks :: "nat list"
  ss_ring :: packet_mmap
  ss_fd :: int
  ss_thread :: packet_thread

definition session_ok :: "os \<Rightarrow> session \<Rightarrow> bool" where
  "session_ok s x \<longleftrightarrow> ring_ready (ss_ring x) s \<and> fst ` set_option (vec (ss_ring x)) \<subseteq> set (ss_blocks x) \<and>
     pt_node (ss_thread x) \<in> set (ss_blocks x) \<and> 0 < ss_fd x \<and> 0 \<le> ifindex (ss_ring x) \<and>
     (\<exists>ino pos rd wr. fd_of s (ss_fd x) = Some (Reg ino pos rd wr False) \<and>
        (pt_type (ss_thread x) = CAPTURE_THREAD \<longrightarrow> wr) \<and> (pt_type (ss_thread x) = REPLAY_THREAD \<longrightarrow> rd))"

definition ss_fds :: "session \<Rightarrow> nat list" where
  "ss_fds x = [nat (pf_sock (ss_ring x)), nat (ss_fd x)]"

definition owned :: "os \<Rightarrow> session list \<Rightarrow> bool" where
  "owned s ss \<longleftrightarrow> heap_wf s \<and> maps_wf s \<and> distinct (concat (map ss_blocks ss)) \<and>
     os_heap s = set (concat (map ss_blocks ss)) \<and> distinct (map (buf \<circ> ss_ring) ss) \<and>
     dom (os_maps s) = (buf \<circ> ss_ring) ` set ss \<and> distinct (concat (map ss_fds ss)) \<and>
     (\<forall>x \<in> set ss. session_ok s x)"

lemma ring_ready_frame:
  assumes "ring_ready pm s" and "os_maps s' (buf pm) = os_maps s (buf pm)" and "fst ` set_option (vec pm) \<subseteq> os_heap s'"
    and "fd_of s' (pf_sock pm) = fd_of s (pf_sock pm)"
  shows "ring_ready pm s'"
  using assms by (auto simp: ring_ready_def Let_def)

lemma ring_ready_sock: "ring_ready pm s \<Longrightarrow> \<exists>sk. fd_of s (pf_sock pm) = Some (Sock sk) \<and> 0 \<le> pf_sock pm"
  by (auto simp: ring_ready_def Let_def dest: fd_of_Some_nonneg)

lemma ring_ready_map: "ring_ready pm s \<Longrightarrow> os_maps s (buf pm) = Some (map_len (layout pm))"
  by (auto simp: ring_ready_def Let_def)

lemma session_ok_frame:
  assumes "session_ok s x" and "os_maps s' (buf (ss_ring x)) = os_maps s (buf (ss_ring x))" and "set (ss_blocks x) \<subseteq> os_heap s'"
    and "\<And>n. n \<in> set (ss_fds x) \<Longrightarrow> os_fd s' n = os_fd s n"
  shows "session_ok s' x"
proof -
  have fd: "fd_of s' (pf_sock (ss_ring x)) = fd_of s (pf_sock (ss_ring x))" "fd_of s' (ss_fd x) = fd_of s (ss_fd x)"
    using assms(4) by (simp_all add: fd_of_def ss_fds_def)
  have "ring_ready (ss_ring x) s'"
    using assms(1-3) fd(1) by (intro ring_ready_frame [of "ss_ring x" s s']) (auto simp: session_ok_def)
  with assms(1) fd(2) show ?thesis by (simp add: session_ok_def)
qed

lemma owned_frame:
  assumes "owned s ss" and "heap_wf s'" "maps_wf s'" and "os_heap s' = os_heap s" and "os_maps s' = os_maps s"
    and "\<And>n. n \<in> set (concat (map ss_fds ss)) \<Longrightarrow> os_fd s' n = os_fd s n"
  shows "owned s' ss"
proof -
  have "session_ok s' x" if "x \<in> set ss" for x
    using that assms by (intro session_ok_frame [of s x s']) (auto simp: owned_def)
  with assms show ?thesis by (simp add: owned_def)
qed

lemma concat_perm:
  assumes "mset xs = mset ys"
  shows "mset (concat (map f xs)) = mset (concat (map f ys))"
proof -
  have "mset (concat (map f xs)) = sum_mset (image_mset (\<lambda>x. mset (f x)) (mset xs))" for xs
    by (induction xs) simp_all
  with assms show ?thesis by metis
qed

lemma owned_perm:
  assumes "owned s ss" and "mset ss = mset ss'"
  shows "owned s ss'"
proof -
  have st: "set ss' = set ss" using assms(2) by (metis set_mset_mset)
  have d: "distinct (concat (map f ss')) = distinct (concat (map f ss))" "set (concat (map f ss')) = set (concat (map f ss))"
    for f :: "session \<Rightarrow> nat list"
    using concat_perm [OF assms(2), of f] by (metis mset_eq_imp_distinct_iff, metis set_mset_mset)
  have "distinct (map (buf \<circ> ss_ring) ss') = distinct (map (buf \<circ> ss_ring) ss)"
    by (metis assms(2) mset_eq_imp_distinct_iff mset_map)
  then show ?thesis using assms(1) st d unfolding owned_def by simp
qed

lemma owned_fds: "owned s ss \<Longrightarrow> n \<in> set (concat (map ss_fds ss)) \<Longrightarrow> os_fd s n \<noteq> None"
  by (fastforce simp: owned_def session_ok_def ss_fds_def fd_of_def dest: ring_ready_sock split: if_splits)

lemma owned_add:
  assumes o: "owned s ss" and wf: "heap_wf s'" "maps_wf s'"
    and h: "os_heap s' = os_heap s \<union> set (ss_blocks x)" "distinct (ss_blocks x)" "set (ss_blocks x) \<inter> os_heap s = {}"
    and m: "os_maps s' = (os_maps s)(buf (ss_ring x) \<mapsto> n)" "buf (ss_ring x) \<notin> dom (os_maps s)"
    and f: "\<And>n. n \<in> dom (os_fd s) \<Longrightarrow> os_fd s' n = os_fd s n" "distinct (ss_fds x)" "set (ss_fds x) \<inter> dom (os_fd s) = {}"
    and ok: "session_ok s' x"
  shows "owned s' (x # ss)"
proof -
  have "session_ok s' y" if y: "y \<in> set ss" for y
  proof (rule session_ok_frame [of s y s'])
    show "session_ok s y" using o y by (simp add: owned_def)
    then have "buf (ss_ring y) \<in> dom (os_maps s)" using o y by (auto simp: owned_def)
    then show "os_maps s' (buf (ss_ring y)) = os_maps s (buf (ss_ring y))" using m by auto
    show "set (ss_blocks y) \<subseteq> os_heap s'" using o y h by (auto simp: owned_def)
    show "os_fd s' n = os_fd s n" if "n \<in> set (ss_fds y)" for n
      using f(1) owned_fds [OF o, of n] that y by auto
  qed
  moreover have "set (ss_fds x) \<inter> set (concat (map ss_fds ss)) = {}"
    using owned_fds [OF o] f(3) by blast
  moreover have "buf (ss_ring x) \<notin> (buf \<circ> ss_ring) ` set ss" using o m(2) by (simp add: owned_def)
  ultimately show ?thesis using o wf h m f(2) ok by (auto simp: owned_def)
qed

lemma owned_del:
  assumes o: "owned s (x # ss)" and wf: "heap_wf s'" "maps_wf s'"
    and h: "os_heap s' = os_heap s - set (ss_blocks x)" and m: "os_maps s' = (os_maps s)(buf (ss_ring x) := None)"
    and f: "\<And>n. n \<notin> set (ss_fds x) \<Longrightarrow> os_fd s' n = os_fd s n"
  shows "owned s' ss"
proof -
  have "session_ok s' y" if y: "y \<in> set ss" for y
  proof (rule session_ok_frame [of s y s'])
    show "session_ok s y" using o y by (simp add: owned_def)
    have "buf (ss_ring y) \<noteq> buf (ss_ring x)" using o y by (auto simp: owned_def image_iff)
    then show "os_maps s' (buf (ss_ring y)) = os_maps s (buf (ss_ring y))" using m by simp
    show "set (ss_blocks y) \<subseteq> os_heap s'" using o y h by (auto simp: owned_def)
    show "os_fd s' n = os_fd s n" if n: "n \<in> set (ss_fds y)" for n
    proof (rule f)
      show "n \<notin> set (ss_fds x)" using o y n by (fastforce simp: owned_def)
    qed
  qed
  moreover have "os_heap s' = set (concat (map ss_blocks ss))"
    using o h by (auto simp: owned_def)
  moreover have "dom (os_maps s') = (buf \<circ> ss_ring) ` set ss"
    using o m by (auto simp: owned_def)
  ultimately show ?thesis using o wf by (simp add: owned_def)
qed


section \<open>Acquiring resources\<close>

text \<open>From \<open>s\<close> to \<open>s'\<close> the blocks \<open>bs\<close> were allocated; maps and open descriptors are as before.\<close>

definition acq :: "os \<Rightarrow> nat list \<Rightarrow> os \<Rightarrow> bool" where
  "acq s bs s' \<longleftrightarrow> kept s s' \<and> distinct bs \<and> set bs \<inter> os_heap s = {} \<and> os_heap s' = os_heap s \<union> set bs \<and>
     os_maps s' = os_maps s \<and> (\<forall>n \<in> dom (os_fd s). os_fd s' n = os_fd s n)"

lemma acq_refl: "acq s [] s"
  by (simp add: acq_def)

lemma acq_owned:
  assumes "acq s [] s'" and "owned s ss"
  shows "owned s' ss"
proof (rule owned_frame [OF assms(2)])
  show "heap_wf s'" "maps_wf s'" "os_heap s' = os_heap s" "os_maps s' = os_maps s"
    using assms by (simp_all add: acq_def kept_def owned_def)
  show "os_fd s' n = os_fd s n" if "n \<in> set (concat (map ss_fds ss))" for n
    using owned_fds [OF assms(2) that] assms(1) by (auto simp: acq_def)
qed

text \<open>A step that leaves heap, maps and the descriptors open at the start alone.\<close>

lemma acq_step:
  assumes "acq s bs s1" and "kept s1 s2" and "os_heap s2 = os_heap s1" and "os_maps s2 = os_maps s1"
    and "\<And>n. n \<in> dom (os_fd s) \<Longrightarrow> os_fd s2 n = os_fd s1 n"
  shows "acq s bs s2"
  using assms kept_trans by (auto simp: acq_def)

lemma acq_fd: "acq s bs s1 \<Longrightarrow> os_fd s n = Some d \<Longrightarrow> os_fd s1 n = Some d"
  by (force simp: acq_def)

lemma acq_new_fd:
  assumes "acq s bs s1" and "kept s1 s2" and "os_heap s2 = os_heap s1" and "os_maps s2 = os_maps s1"
    and "os_fd s2 = os_fd s1 \<or> os_fd s1 n = None \<and> os_fd s2 = (os_fd s1)(n := d)"
  shows "acq s bs s2"
proof (rule acq_step [OF assms(1-4)])
  fix m assume "m \<in> dom (os_fd s)"
  then have "os_fd s1 m \<noteq> None" using acq_fd [OF assms(1)] by auto
  with assms(5) show "os_fd s2 m = os_fd s1 m" by auto
qed

lemma acq_malloc:
  assumes "acq s bs s1" and "malloc s1 = (Some b, s2)" and "heap_wf s"
  shows "acq s (b # bs) s2"
proof -
  have "heap_wf s1" using assms by (simp add: acq_def kept_def)
  with malloc_SomeD [OF assms(2)] kept_malloc [of s1] malloc_frame [of s1] assms show ?thesis
    by (auto simp: acq_def intro: kept_trans)
qed

lemma acq_free:
  assumes "acq s bs s1" and "b \<in> set bs"
  shows "\<exists>s2. free (Some b) s1 = Some s2 \<and> acq s (remove1 b bs) s2 \<and> os_fd s2 = os_fd s1 \<and> os_errno s2 = os_errno s1"
proof -
  have f: "free (Some b) s1 = Some (s1\<lparr>os_heap := os_heap s1 - {b}\<rparr>)" (is "_ = Some ?s2")
    using assms by (simp add: free_def acq_def)
  have "kept s ?s2" using kept_free [OF f] assms(1) kept_trans by (auto simp: acq_def)
  moreover have "os_heap s1 - {b} = os_heap s \<union> set (remove1 b bs)"
    using assms by (auto simp: acq_def)
  ultimately have "acq s (remove1 b bs) ?s2" using assms(1)
    by (auto simp: acq_def dest: notin_set_remove1 in_set_remove1)
  with f show ?thesis by simp
qed

lemma acq_close:
  assumes "acq s bs s1" and "os_fd s (nat n) = None" and "0 \<le> n"
  shows "acq s bs (snd (close_fd n s1))"
  using assms by (intro acq_step [OF assms(1) kept_close]) auto

lemma acq_on_sock:
  assumes "acq s bs s1" and "os_fd s (nat n) = None" and "0 \<le> n" and "kept s1 s2" and "os_heap s2 = os_heap s1"
    and "os_maps s2 = os_maps s1" and "sock_only n s1 s2"
  shows "acq s bs s2"
proof (rule acq_step [OF assms(1,4-6)])
  show "os_fd s2 m = os_fd s1 m" if "m \<in> dom (os_fd s)" for m
  proof -
    have "int m \<noteq> n" using assms(2) that by auto
    with assms(7) show ?thesis by (simp add: sock_only_def)
  qed
qed

lemma release_ok:
  assumes "acq s bs s1" and "b \<in> set bs" and "os_fd s (nat n) = None" and "0 \<le> n"
  shows "\<exists>s2. release b n s1 = Some s2 \<and> acq s (remove1 b bs) s2"
  using acq_free [OF assms(1,2)] acq_close [OF _ assms(3,4)] by (auto simp: release_def)

lemma acq_sfp_destroy:
  assumes "acq s bs s1" and "set_option (fp_blk f) \<subseteq> set bs"
  shows "\<exists>f' s2. dabbad_sfp_destroy f s1 = Some (f', s2) \<and>
    acq s (case fp_blk f of None \<Rightarrow> bs | Some b \<Rightarrow> remove1 b bs) s2 \<and> os_fd s2 = os_fd s1"
proof (cases "fp_blk f")
  case None
  with assms show ?thesis by (simp add: dabbad_sfp_destroy_def free_def)
next
  case (Some b)
  with acq_free [OF assms(1), of b] assms(2) show ?thesis by (auto simp: dabbad_sfp_destroy_def)
qed


section \<open>Starting\<close>

text \<open>Opening or creating the capture file: a failure leaves the descriptors alone, a success adds one.\<close>

lemma socket_takes_0:
  assumes "socket s = (n, s')" and "0 \<le> n"
  shows "os_fd s' 0 \<noteq> None"
proof -
  from assms obtain i where f: "find (\<lambda>n. os_fd s n = None) [0..<os_nofile s] = Some i" "os_fd s' = (os_fd s)(i \<mapsto> Sock fresh_sock)"
    by (auto simp: socket_def syscall_def install_fd_def split: outcome.splits option.splits)
  then have "i < os_nofile s" by (auto dest: find_SomeD)
  then have "[0..<os_nofile s] = 0 # [1..<os_nofile s]" by (simp add: upt_conv_Cons)
  with f have "os_fd s 0 = None \<Longrightarrow> i = 0" by simp
  with f(2) show ?thesis by auto
qed

lemma ldab_pcap_create_defined:
  assumes "os_fd s 0 \<noteq> None"
  shows "\<exists>n s'. ldab_pcap_create path lt s = Some (n, s')"
proof -
  obtain fd s1 where c: "creat path s = (fd, s1)" by force
  from creat_result [OF c] assms have "fd < 0 \<or> 0 < fd" by (cases "fd = 0") auto
  with c show ?thesis
    by (auto simp: ldab_pcap_create_def pcap_file_header_write_def ldab_pcap_destroy_def Let_def split_beta)
qed

lemma capture_pcap_result:
  assumes "acq s bs s1" and "os_fd s1 0 \<noteq> None"
  shows "\<exists>fd s2. capture_pcap m s1 = Some (fd, s2) \<and> acq s bs s2 \<and>
    (fd < 0 \<and> os_fd s2 = os_fd s1 \<or>
     0 < fd \<and> os_fd s1 (nat fd) = None \<and> (\<exists>ino pos rd. os_fd s2 = (os_fd s1)(nat fd \<mapsto> Reg ino pos rd True False)))"
proof -
  obtain fd s2 where r: "capture_pcap m s1 = Some (fd, s2)"
    using ldab_pcap_create_defined [OF assms(2)] by (auto simp: capture_pcap_def) (metis surj_pair)
  have fr: "kept s1 s2" "os_heap s2 = os_heap s1" "os_maps s2 = os_maps s1"
  proof (atomize (full), cases "cr_append m")
    case True
    with r have "s2 = snd (ldab_pcap_open (the (cr_pcap m)) (O_RDWR OR O_APPEND) s1)" by (simp add: capture_pcap_def)
    then show "kept s1 s2 \<and> os_heap s2 = os_heap s1 \<and> os_maps s2 = os_maps s1" by (simp add: kept_open)
  next
    case False
    with r have "ldab_pcap_create (the (cr_pcap m)) LINKTYPE_EN10MB s1 = Some (fd, s2)" by (simp add: capture_pcap_def)
    then show "kept s1 s2 \<and> os_heap s2 = os_heap s1 \<and> os_maps s2 = os_maps s1"
      by (simp add: kept_create ldab_pcap_create_frame)
  qed
  have c: "fd < 0 \<and> os_fd s2 = os_fd s1 \<or>
     0 \<le> fd \<and> os_fd s1 (nat fd) = None \<and> (\<exists>ino pos rd. os_fd s2 = (os_fd s1)(nat fd \<mapsto> Reg ino pos rd True False))"
  proof (cases "cr_append m")
    case True
    with r have "ldab_pcap_open (the (cr_pcap m)) (O_RDWR OR O_APPEND) s1 = (fd, s2)" by (simp add: capture_pcap_def)
    from ldab_pcap_open_ok [OF this] ldab_pcap_open_fail [OF this] show ?thesis
      by (cases "fd < 0") (auto simp: open_flag_defs)
  next
    case False
    with r have "ldab_pcap_create (the (cr_pcap m)) LINKTYPE_EN10MB s1 = Some (fd, s2)" by (simp add: capture_pcap_def)
    from ldab_pcap_create_ok [OF this] ldab_pcap_create_fail [OF this] show ?thesis
      by (cases "fd < 0") auto
  qed
  moreover have "acq s bs s2"
    using acq_new_fd [OF assms(1) fr] c by blast
  moreover have "fd \<noteq> 0" using c assms(2) by auto
  ultimately show ?thesis using r by auto
qed

lemma pbuf_sfp_2_sfp_frame:
  assumes "dabbad_pbuf_sfp_2_sfp p f s = Some (r, s')"
  shows "os_fd s' = os_fd s" "os_maps s' = os_maps s" "kept s s'"
proof -
  obtain b s1 where m: "malloc s = (b, s1)" by force
  have s': "s' = s1 \<or> (\<exists>B. s' = s1\<lparr>os_heap := os_heap s1 - B\<rparr>)"
    using assms m by (auto simp: dabbad_pbuf_sfp_2_sfp_def Let_def bind_eq_Some_conv dabbad_sfp_destroy_def free_def
        split: if_splits option.splits)
  have "kept s1 (s1\<lparr>os_heap := os_heap s1 - B\<rparr>)" for B
    by (simp add: kept_def thr_ext_same heap_wf_def maps_wf_def)
  with s' kept_malloc [of s] m show "kept s s'" by (auto intro: kept_trans)
  show "os_fd s' = os_fd s" "os_maps s' = os_maps s"
    using s' malloc_frame [of s] m by auto
qed

text \<open>The filter of a capture: none, or one that passed the check.\<close>

definition sfp_ok :: "sock_fprog \<Rightarrow> bool" where
  "sfp_ok f \<longleftrightarrow> f = zero_sfp \<or> ldab_sock_filter_is_valid (Some f) = Some 1"

lemma capture_filter_result:
  assumes "acq s bs s1" and "heap_wf s" and "os_fd s (nat sock) = None" and "0 \<le> sock"
  shows "\<exists>rc sfp s2. capture_filter m sock s1 = Some ((rc, sfp), s2) \<and> sock_only sock s1 s2 \<and>
    (rc \<noteq> 0 \<and> acq s bs s2 \<or> rc = 0 \<and> acq s (somes [fp_blk sfp] @ bs) s2 \<and> sfp_ok sfp)"
proof -
  have hw: "heap_wf s1" using assms by (simp add: acq_def kept_def)
  consider (none) "capture_filter m sock s1 = Some ((0, zero_sfp), s1)"
    | (flt) p where "capture_filter m sock s1 = do {
            ((rc, sfp), s2) \<leftarrow> dabbad_pbuf_sfp_2_sfp p zero_sfp s1;
            if rc \<noteq> 0 then Some ((rc, sfp), s2) else
            let (rc, s3) = ldab_sock_filter_attach sock sfp s2 in
            if rc \<noteq> 0 then do { (sfp, s4) \<leftarrow> dabbad_sfp_destroy sfp s3; Some ((rc, sfp), s4) }
            else Some ((0, sfp), s3) }"
    by (cases "cr_sfp m"; cases "pb_filter (the (cr_sfp m)) = []") (auto simp: capture_filter_def)
  then show ?thesis
  proof cases
    case none
    with assms(1) show ?thesis by (simp add: zero_sfp_def sock_only_def sfp_ok_def)
  next
    case flt
    note fr = pbuf_sfp_2_sfp_frame
    from dabbad_pbuf_sfp_2_sfp_result [OF hw, of p zero_sfp] obtain rc sfp s2 where
      r: "dabbad_pbuf_sfp_2_sfp p zero_sfp s1 = Some ((rc, sfp), s2)"
      and c: "rc = 0 \<and> sfp_ok sfp \<and> (\<exists>b. fp_blk sfp = Some b \<and> b \<notin> os_heap s1 \<and> os_heap s2 = insert b (os_heap s1)) \<or>
         rc \<noteq> 0 \<and> os_heap s2 = os_heap s1"
      by (auto simp: sfp_of_message_def sfp_ok_def)
    show ?thesis
    proof (cases "rc = 0")
      case False
      with flt r c fr [OF r] assms(1) have "acq s bs s2" by (intro acq_step [OF assms(1)]) auto
      with flt r False fr [OF r] show ?thesis by (simp add: sock_only_def)
    next
      case True
      with c obtain b where b: "fp_blk sfp = Some b" "b \<notin> os_heap s1" "os_heap s2 = insert b (os_heap s1)" by auto
      have a2: "acq s (b # bs) s2" using assms(1) b fr [OF r] kept_trans by (auto simp: acq_def)
      obtain rc' s3 where at: "ldab_sock_filter_attach sock sfp s2 = (rc', s3)" by force
      note sp = on_sock_spec [OF at [unfolded ldab_sock_filter_attach_def setsockopt_filter_def]]
      have k: "kept s2 s3" using kept_attach [of s2 sock sfp] at by simp
      have a3: "acq s (b # bs) s3" using acq_on_sock [OF a2 assms(3,4) k] sp by simp
      have so: "sock_only sock s1 s3" using sp(1) fr [OF r] by (simp add: sock_only_def)
      show ?thesis
      proof (cases "rc' = 0")
        case t: True
        with flt r True at a3 b so c show ?thesis by simp
      next
        case f: False
        from acq_sfp_destroy [OF a3, of sfp] b obtain f' s4 where
          "dabbad_sfp_destroy sfp s3 = Some (f', s4)" "acq s bs s4" "os_fd s4 = os_fd s3" by auto
        with flt r True at f so show ?thesis by (simp add: sock_only_def)
      qed
    qed
  qed
qed


text \<open>Starting a thread adds to the queue a thread with a new identifier, or fails and leaves the queue alone.\<close>

lemma kept_pthread_create: "kept s (snd (pthread_create fn arg s))"
  using pick_fresh_notin [of "thread_ids s"]
  by (auto simp: kept_def heap_wf_def maps_wf_def thr_ext_def pthread_create_def thread_ids_def Let_def split: outcome.split)

lemma upd_thr_id [simp]: "upd_thr i (\<lambda>t. t) s = s"
  by (simp add: upd_thr_def)

lemma pthread_detach_result: "pthread_detach i s = (rc, s') \<Longrightarrow> s' = tick s"
  by (auto simp: pthread_detach_def on_thr_def split: outcome.splits if_splits)

lemma dabbad_thread_start_result:
  assumes "dabbad_thread_start t fn arg q s = ((rc, t'), q', s')"
  shows "kept s s' \<and> os_heap s' = os_heap s \<and> os_maps s' = os_maps s \<and> os_fd s' = os_fd s \<and>
    (rc \<noteq> 0 \<and> q' = q \<or> rc = 0 \<and> q' = dabbad_thread_insert t' q \<and>
      (\<exists>i th. t' = t\<lparr>pt_id := i\<rparr> \<and> i \<notin> set (thread_ids s) \<and> os_threads s' = os_threads s @ [th] \<and>
         t_id th = i \<and> t_arg th = arg \<and> t_fn th = fn \<and> \<not> t_cancel th))"
proof -
  obtain rc1 i s1 where c: "pthread_create fn arg s = ((rc1, i), s1)" by (metis surj_pair)
  obtain rc2 s2 where d: "pthread_detach i s1 = (rc2, s2)" by force
  have fr: "kept s s1" "os_heap s1 = os_heap s" "os_maps s1 = os_maps s" "os_fd s1 = os_fd s"
    using kept_pthread_create [of s fn arg] pthread_create_frame [of fn arg s] c by simp_all
  have k2: "kept s s2" using fr(1) pthread_detach_result [OF d]
    by (auto simp: kept_def thr_ext_def heap_wf_def maps_wf_def thread_ids_def)
  have th: "rc1 = 0 \<Longrightarrow> i \<notin> set (thread_ids s) \<and> (\<exists>th. os_threads s1 = os_threads s @ [th] \<and>
     t_id th = i \<and> t_arg th = arg \<and> t_fn th = fn \<and> \<not> t_cancel th)"
    using c pick_fresh_notin [of "thread_ids s"] by (auto simp: pthread_create_def Let_def split: outcome.splits)
  have s2: "os_threads s2 = os_threads s1" "os_heap s2 = os_heap s" "os_maps s2 = os_maps s" "os_fd s2 = os_fd s"
    using pthread_detach_result [OF d] fr by simp_all
  consider (cf) "rc1 \<noteq> 0" "rc = rc1" "q' = q" "s' = s1" | (df) "rc1 = 0" "rc2 \<noteq> 0" "rc = rc2" "q' = q" "s' = s2"
    | (ok) "rc1 = 0" "rc = 0" "t' = t\<lparr>pt_id := i\<rparr>" "q' = dabbad_thread_insert t' q" "s' = s2"
    using assms c d by (auto simp: dabbad_thread_start_def Let_def split: if_splits)
  then show ?thesis
  proof cases
    case cf
    with fr show ?thesis by simp
  next
    case df
    with s2 k2 show ?thesis by simp
  next
    case ok
    with s2 k2 th show ?thesis by auto
  qed
qed


text \<open>As \<open>acq\<close>, with a ready ring on top.\<close>

definition acq_ring :: "os \<Rightarrow> nat list \<Rightarrow> packet_mmap \<Rightarrow> os \<Rightarrow> bool" where
  "acq_ring s bs pm s' \<longleftrightarrow> kept s s' \<and> ring_ready pm s' \<and> 0 \<le> ifindex pm \<and>
     (\<exists>b v. vec pm = Some (b, v) \<and> distinct (b # bs) \<and> set (b # bs) \<inter> os_heap s = {} \<and> os_heap s' = os_heap s \<union> set (b # bs)) \<and>
     buf pm \<notin> dom (os_maps s) \<and> os_maps s' = (os_maps s)(buf pm \<mapsto> map_len (layout pm)) \<and>
     (\<forall>n \<in> dom (os_fd s). os_fd s' n = os_fd s n)"

lemma acq_ring_create:
  assumes a: "acq s bs s1" and wf: "heap_wf s" "maps_wf s" "kernel_ok s" and n: "os_fd s (nat sock) = None" "0 \<le> sock"
  shows "\<exists>rc pm s2. ldab_packet_mmap_create pm0 dev sock ty fs nr s1 = Some ((rc, pm), s2) \<and> sock_only sock s1 s2 \<and>
    (rc \<noteq> 0 \<and> acq s bs s2 \<or>
     rc = 0 \<and> acq_ring s bs pm s2 \<and> pf_sock pm = sock \<and> layout pm = mmap_layout fs nr \<and> pm_type pm = ty)"
proof -
  have wf1: "heap_wf s1" "maps_wf s1" "kernel_ok s1" using a wf by (simp_all add: acq_def kept_def kernel_ok_def)
  from create_result [OF wf1(1,2), of pm0 dev sock ty fs nr] obtain rc pm s2 where
    r: "ldab_packet_mmap_create pm0 dev sock ty fs nr s1 = Some ((rc, pm), s2)" and so: "sock_only sock s1 s2"
    and c: "rc = 0 \<and> ring_ready pm s2 \<and> layout pm = mmap_layout fs nr \<and> pf_sock pm = sock \<and> pm_type pm = ty \<and>
       ifindex pm = (case snd (fst (ldab_devname_to_ifindex dev s1)) of Some i \<Rightarrow> i | None \<Rightarrow> 0) \<and>
       buf pm \<notin> dom (os_maps s1) \<and> os_maps s2 = (os_maps s1)(buf pm \<mapsto> map_len (layout pm)) \<and>
       (\<exists>b v. vec pm = Some (b, v) \<and> b \<notin> os_heap s1 \<and> os_heap s2 = insert b (os_heap s1)) \<or>
     rc \<noteq> 0 \<and> os_heap s2 = os_heap s1 \<and> os_maps s2 = os_maps s1" by blast
  have k: "kept s1 s2" using kept_mmap_create [OF r] .
  have fd: "os_fd s2 m = os_fd s m" if "m \<in> dom (os_fd s)" for m
  proof -
    have "int m \<noteq> sock" using n that by auto
    with so a that show ?thesis by (auto simp: sock_only_def acq_def)
  qed
  show ?thesis
  proof (cases "rc = 0")
    case True
    with c a fd kept_trans [OF _ k, of s] devname_index_nonneg [OF wf1(3), of dev]
    have "acq_ring s bs pm s2" by (auto simp: acq_ring_def acq_def)
    with True c r so show ?thesis by auto
  next
    case False
    with c a fd kept_trans [OF _ k, of s] have "acq s bs s2" by (auto simp: acq_def)
    with False r so show ?thesis by auto
  qed
qed

lemma acq_ring_destroy:
  assumes a: "acq_ring s bs pm s1" and n: "os_fd s (nat (pf_sock pm)) = None"
  shows "\<exists>s2. ldab_packet_mmap_destroy pm s1 = Some (zero_mmap, s2) \<and> acq s bs s2"
proof -
  from a obtain b v where b: "vec pm = Some (b, v)" "distinct (b # bs)" "set (b # bs) \<inter> os_heap s = {}"
    "os_heap s1 = os_heap s \<union> set (b # bs)" by (auto simp: acq_ring_def)
  have buf: "buf pm \<noteq> 0" "0 \<le> pf_sock pm" using a ring_ready_sock [of pm s1] by (auto simp: acq_ring_def ring_ready_def Let_def)
  from ldab_packet_mmap_destroy_result [of pm s1] b a buf obtain s2 where
    r: "ldab_packet_mmap_destroy pm s1 = Some (zero_mmap, s2)" "os_heap s2 = os_heap s1 - {b}"
    "os_maps s2 = (os_maps s1)(buf pm := None)" "sock_only (pf_sock pm) s1 s2" by (auto simp: acq_ring_def)
  have "os_heap s2 = os_heap s \<union> set bs" using r(2) b by auto
  moreover have "os_maps s2 = os_maps s" using r(3) a by (auto simp: acq_ring_def)
  moreover have "os_fd s2 m = os_fd s m" if "m \<in> dom (os_fd s)" for m
  proof -
    have "int m \<noteq> pf_sock pm" using n that by (metis domIff nat_int)
    with r(4) a that show ?thesis by (auto simp: sock_only_def acq_ring_def)
  qed
  moreover have "kept s s2" using a kept_trans [OF _ kept_mmap_destroy [OF r(1)]] by (auto simp: acq_ring_def)
  ultimately show ?thesis using r(1) b by (auto simp: acq_def)
qed

lemma acq_ring_step:
  assumes "acq_ring s bs pm s1" and "kept s1 s2" and "os_heap s2 = os_heap s1" and "os_maps s2 = os_maps s1" and "os_fd s2 = os_fd s1"
  shows "acq_ring s bs pm s2"
proof -
  have "ring_ready pm s2"
    using assms by (intro ring_ready_frame [of pm s1 s2]) (auto simp: acq_ring_def fd_of_def)
  with assms kept_trans [OF _ assms(2), of s] show ?thesis by (auto simp: acq_ring_def)
qed

section \<open>Threads of sessions\<close>

definition live :: "os \<Rightarrow> thread_queue \<Rightarrow> session list \<Rightarrow> bool" where
  "live s q ss \<longleftrightarrow> tq.queue_wf q \<and> mset (tq_head q) = mset (map ss_thread ss) \<and> distinct (thread_ids s) \<and>
     (\<forall>x \<in> set ss. \<exists>th \<in> set (os_threads s). t_id th = pt_id (ss_thread x) \<and> \<not> t_cancel th \<and>
        t_arg th = pt_node (ss_thread x))"

lemma live_kept:
  assumes l: "live s q ss" and k: "kept s s'"
  shows "live s' q ss"
proof -
  have e: "thr_ext s s'" using k by (simp add: kept_def)
  have "\<exists>th \<in> set (os_threads s'). t_id th = pt_id (ss_thread x) \<and> \<not> t_cancel th \<and> t_arg th = pt_node (ss_thread x)"
    if "x \<in> set ss" for x
  proof -
    from l that obtain u where u: "u \<in> set (os_threads s)" "t_id u = pt_id (ss_thread x)" "\<not> t_cancel u" "t_arg u = pt_node (ss_thread x)"
      by (auto simp: live_def)
    from thr_ext_mem [OF e u(1)] u show ?thesis by (auto simp: thr_key_def)
  qed
  moreover have "distinct (thread_ids s')" using l e by (simp add: live_def thr_ext_def)
  ultimately show ?thesis using l by (simp add: live_def)
qed

lemma live_fresh_id: "live s q ss \<Longrightarrow> kept s s1 \<Longrightarrow> i \<notin> set (thread_ids s1) \<Longrightarrow> i \<notin> pt_id ` ss_thread ` set ss"
proof -
  assume l: "live s q ss" and k: "kept s s1" and i: "i \<notin> set (thread_ids s1)"
  from live_kept [OF l k] have "pt_id ` ss_thread ` set ss \<subseteq> set (thread_ids s1)" by (force simp: live_def thread_ids_def)
  with i show ?thesis by blast
qed

lemma live_perm: "live s q ss \<Longrightarrow> mset ss = mset ss' \<Longrightarrow> live s q ss'"
  unfolding live_def by (metis mset_map set_mset_mset)

lemma live_nodes: "live s q ss \<Longrightarrow> set (tq_head q) = ss_thread ` set ss"
  unfolding live_def by (metis list.set_map set_mset_mset)

lemma live_add:
  assumes l: "live s q ss" and k: "kept s s1"
    and new: "t' = t\<lparr>pt_id := i\<rparr>" "i \<notin> set (thread_ids s1)" "os_threads s2 = os_threads s1 @ [th]"
      "t_id th = i" "t_arg th = pt_node t" "\<not> t_cancel th"
    and node: "pt_node t \<notin> pt_node ` ss_thread ` set ss" and x: "ss_thread x = t'"
  shows "live s2 (dabbad_thread_insert t' q) (x # ss)"
proof -
  have l1: "live s1 q ss" using live_kept [OF l k] .
  then have ids: "pt_id ` ss_thread ` set ss \<subseteq> set (thread_ids s1)" by (force simp: live_def thread_ids_def)
  have "tq.queue_wf (dabbad_thread_insert t' q)"
  proof (rule tq.queue_wf_insert)
    show "tq.queue_wf q" using l by (simp add: live_def)
    show "pt_node t' \<notin> pt_node ` set (tq_head q)" using node live_nodes [OF l] new(1) by simp
    show "pt_id t' \<notin> pt_id ` set (tq_head q)" using ids live_nodes [OF l] new(1,2) by auto
  qed
  moreover have "distinct (thread_ids s2)" using l1 new(2-4) by (simp add: live_def thread_ids_def)
  ultimately show ?thesis using l1 new x by (auto simp: live_def dabbad_thread_insert_def)
qed

end
