(* ===== verification/Daemon.thy ===== *)
theory Daemon
  imports Sessions "HOL-Library.Sublist"
begin

text \<open>
  The invariant of the daemon, and that the procedures that start and stop captures and replays keep it: what a
  start or stop returns, and what it does to the queues, on every path. Stopping is proved once, in the locale
  \<open>session_kind\<close>, and interpreted for captures and for replays.
\<close>

section \<open>The invariant of the daemon\<close>

definition capture_session :: "packet_capture \<Rightarrow> session" where
  "capture_session c = \<lparr>ss_blocks = pc_blk c # somes [map_option fst (vec (rx_mmap (pc_rx c))), fp_blk (rx_sfp (pc_rx c))],
     ss_ring = rx_mmap (pc_rx c), ss_fd = rx_pcap_fd (pc_rx c), ss_thread = pc_thread c\<rparr>"

definition replay_session :: "packet_replay \<Rightarrow> session" where
  "replay_session r = \<lparr>ss_blocks = pr_blk r # somes [map_option fst (vec (tx_mmap (pr_tx r)))],
     ss_ring = tx_mmap (pr_tx r), ss_fd = tx_pcap_fd (pr_tx r), ss_thread = pr_thread r\<rparr>"

definition sessions :: "daemon \<Rightarrow> session list" where
  "sessions d = map capture_session (captures d) @ map replay_session (replays d)"

definition daemon_inv :: "daemon \<Rightarrow> bool" where
  "daemon_inv d \<longleftrightarrow> kernel_ok (d_os d) \<and> owned (d_os d) (sessions d) \<and> live (d_os d) (d_threads d) (sessions d) \<and>
     tq_length (d_captures d) = length (captures d) \<and> tq_length (d_replays d) = length (replays d) \<and>
     (\<forall>c \<in> set (captures d). pc_thread c = \<lparr>pt_node = pc_blk c, pt_id = capture_id c, pt_type = CAPTURE_THREAD\<rparr> \<and>
        pm_type (rx_mmap (pc_rx c)) = PACKET_MMAP_RX \<and> sfp_ok (rx_sfp (pc_rx c))) \<and>
     (\<forall>r \<in> set (replays d). pr_thread r = \<lparr>pt_node = pr_blk r, pt_id = replay_id r, pt_type = REPLAY_THREAD\<rparr> \<and>
        pm_type (tx_mmap (pr_tx r)) = PACKET_MMAP_TX)"

lemma session_sel [simp]:
  "ss_thread (capture_session c) = pc_thread c" "ss_ring (capture_session c) = rx_mmap (pc_rx c)"
  "ss_fd (capture_session c) = rx_pcap_fd (pc_rx c)"
  "ss_thread (replay_session r) = pr_thread r" "ss_ring (replay_session r) = tx_mmap (pr_tx r)"
  "ss_fd (replay_session r) = tx_pcap_fd (pr_tx r)"
  by (simp_all add: capture_session_def replay_session_def)

lemma daemon_inv_acq:
  assumes "daemon_inv d" and "acq (d_os d) [] s'"
  shows "daemon_inv (d\<lparr>d_os := s'\<rparr>)"
proof -
  have "owned s' (sessions d)" using acq_owned [OF assms(2)] assms(1) by (simp add: daemon_inv_def)
  moreover have "live s' (d_threads d) (sessions d)" using live_kept assms by (auto simp: daemon_inv_def acq_def)
  moreover have "kernel_ok s'" using assms by (simp add: daemon_inv_def acq_def kept_def kernel_ok_def)
  ultimately show ?thesis using assms(1) by (simp add: daemon_inv_def sessions_def)
qed

text \<open>A session built from what was acquired.\<close>

lemma session_add:
  assumes o: "owned s ss" and l: "live s q ss" and a: "acq_ring s bs pm s1"
    and st: "dabbad_thread_start t fn (pt_node t) q s1 = ((0, t'), q', s2)"
    and x: "ss_ring x = pm" "ss_thread x = t'" "distinct (ss_blocks x)" "set (ss_blocks x) = fst ` set_option (vec pm) \<union> set bs"
    and node: "pt_node t \<in> set bs"
    and fd: "os_fd s (nat (pf_sock pm)) = None" "os_fd s (nat (ss_fd x)) = None" "0 < ss_fd x"
      "os_fd s1 (nat (ss_fd x)) = Some (Reg ino pos rd wr False)"
      "pt_type t = CAPTURE_THREAD \<longrightarrow> wr" "pt_type t = REPLAY_THREAD \<longrightarrow> rd"
  shows "owned s2 (x # ss) \<and> live s2 q' (x # ss)"
proof -
  note r = dabbad_thread_start_result [OF st]
  then have fr: "kept s1 s2" "os_heap s2 = os_heap s1" "os_maps s2 = os_maps s1" "os_fd s2 = os_fd s1" by auto
  have a2: "acq_ring s bs pm s2" using acq_ring_step [OF a fr] .
  then obtain b v where b: "vec pm = Some (b, v)" "distinct (b # bs)" "set (b # bs) \<inter> os_heap s = {}"
    "os_heap s2 = os_heap s \<union> set (b # bs)" by (auto simp: acq_ring_def)
  from ring_ready_sock [of pm s2] a2 obtain sk where sk: "fd_of s2 (pf_sock pm) = Some (Sock sk)" "0 \<le> pf_sock pm"
    by (auto simp: acq_ring_def)
  from r obtain i th where th: "t' = t\<lparr>pt_id := i\<rparr>" "i \<notin> set (thread_ids s1)" "os_threads s2 = os_threads s1 @ [th]"
    "t_id th = i" "t_arg th = pt_node t" "\<not> t_cancel th" "q' = dabbad_thread_insert t' q" by auto
  have "owned s2 (x # ss)"
  proof (rule owned_add [OF o])
    show "heap_wf s2" "maps_wf s2" using o a2 by (auto simp: owned_def acq_ring_def kept_def)
    show "os_heap s2 = os_heap s \<union> set (ss_blocks x)" "distinct (ss_blocks x)" "set (ss_blocks x) \<inter> os_heap s = {}"
      using b x by auto
    show "os_maps s2 = (os_maps s)(buf (ss_ring x) \<mapsto> map_len (layout pm))" "buf (ss_ring x) \<notin> dom (os_maps s)"
      using a2 x by (auto simp: acq_ring_def)
    show "os_fd s2 n = os_fd s n" if "n \<in> dom (os_fd s)" for n using a2 that by (simp add: acq_ring_def)
    show "distinct (ss_fds x)" using sk x fd(3,4) fr(4) by (auto simp: ss_fds_def fd_of_def split: if_splits)
    show "set (ss_fds x) \<inter> dom (os_fd s) = {}" using fd(1,2) x by (auto simp: ss_fds_def)
    show "session_ok s2 x" using a2 x b fd(3-6) fr(4) node th(1)
      by (auto simp: session_ok_def acq_ring_def fd_of_def)
  qed
  moreover have "live s2 q' (x # ss)"
  proof -
    have "pt_node t \<notin> os_heap s" using node b(3) by auto
    then have "pt_node t \<notin> pt_node ` ss_thread ` set ss" using o by (auto simp: owned_def session_ok_def)
    moreover have "kept s s1" using a by (simp add: acq_ring_def)
    ultimately show ?thesis using live_add [OF l _ th(1-6) _ x(2)] th(7) by simp
  qed
  ultimately show ?thesis by blast
qed


text \<open>The common beginning: a socket and a block.\<close>

lemma acq_socket:
  assumes "socket s = (n, s')"
  shows "acq s [] s' \<and> (n < 0 \<or> 0 \<le> n \<and> os_fd s (nat n) = None \<and> os_fd s' = (os_fd s)(nat n \<mapsto> Sock fresh_sock))"
proof -
  have "kept s s'" "os_heap s' = os_heap s" "os_maps s' = os_maps s"
    using kept_socket [of s] socket_frame [of s] assms by simp_all
  with acq_new_fd [OF acq_refl [of s], of s' "nat n"] socket_result [OF assms] show ?thesis by auto
qed

lemma daemon_inv_wf: "daemon_inv d \<Longrightarrow> heap_wf (d_os d) \<and> maps_wf (d_os d)"
  by (simp add: daemon_inv_def owned_def)

text \<open>What a start does: nothing but an error code, or one more session.\<close>

definition start_failed :: "daemon \<Rightarrow> daemon \<Rightarrow> bool" where
  "start_failed d d' \<longleftrightarrow> d_threads d' = d_threads d \<and> d_captures d' = d_captures d \<and> d_replays d' = d_replays d \<and>
     acq (d_os d) [] (d_os d')"

lemma start_failedI: "acq (d_os d) [] s \<Longrightarrow> start_failed d (d\<lparr>d_os := s\<rparr>)"
  by (simp add: start_failed_def)

lemma start_failed_inv: "start_failed d d' \<Longrightarrow> daemon_inv d \<Longrightarrow> daemon_inv d'"
  using daemon_inv_acq [of d "d_os d'"] by (auto simp: start_failed_def daemon_inv_def sessions_def)

definition capture_started :: "capture_request \<Rightarrow> daemon \<Rightarrow> daemon \<Rightarrow> bool" where
  "capture_started m d d' \<longleftrightarrow> daemon_inv d' \<and> d_replays d' = d_replays d \<and>
     (\<exists>c. captures d' = captures d @ [c] \<and> capture_id c \<notin> pt_id ` ss_thread ` set (sessions d) \<and>
        layout (rx_mmap (pc_rx c)) = mmap_layout (ucast (cr_frame_size m)) (cr_frame_nr m))"

lemma acq_back:
  assumes "acq s (somes [fp_blk f] @ [blk]) s1" and "os_fd s (nat n) = None" and "0 \<le> n"
  shows "\<exists>s2 s3 f'. dabbad_sfp_destroy f s1 = Some (f', s2) \<and> release blk n s2 = Some s3 \<and> acq s [] s3"
proof -
  have "set_option (fp_blk f) \<subseteq> set (somes [fp_blk f] @ [blk])" by (cases "fp_blk f") auto
  from acq_sfp_destroy [OF assms(1) this] obtain f' s2 where d: "dabbad_sfp_destroy f s1 = Some (f', s2)" "acq s [blk] s2"
    by (cases "fp_blk f") auto
  from release_ok [OF d(2), of blk n] assms(2,3) d(1) show ?thesis by auto
qed

text \<open>The situation before the ring is created: \<open>blk\<close>, the socket and the open file are new.\<close>

definition opened :: "daemon \<Rightarrow> int \<Rightarrow> int \<Rightarrow> (bool \<Rightarrow> bool \<Rightarrow> bool) \<Rightarrow> os \<Rightarrow> bool" where
  "opened d sock fd acc s \<longleftrightarrow> daemon_inv d \<and> os_fd (d_os d) (nat sock) = None \<and> 0 \<le> sock \<and>
     os_fd (d_os d) (nat fd) = None \<and> 0 < fd \<and> fd \<noteq> sock \<and>
     (\<exists>ino pos rd wr. os_fd s (nat fd) = Some (Reg ino pos rd wr False) \<and> acc rd wr)"

lemma opened_sock: "opened d sock fd acc s \<Longrightarrow> sock_only sock s s' \<Longrightarrow> opened d sock fd acc s'"
proof -
  assume o: "opened d sock fd acc s" and so: "sock_only sock s s'"
  then have "int (nat fd) \<noteq> sock" by (auto simp: opened_def)
  with so have "os_fd s' (nat fd) = os_fd s (nat fd)" by (simp add: sock_only_def)
  with o show ?thesis by (simp add: opened_def)
qed

lemma capture_start_thread_result:
  assumes o: "opened d sock fd (\<lambda>rd wr. wr) s" and a: "acq_ring (d_os d) (somes [fp_blk sfp] @ [blk]) pm s"
    and pm: "pf_sock pm = sock" "layout pm = mmap_layout (ucast (cr_frame_size m)) (cr_frame_nr m)" "pm_type pm = PACKET_MMAP_RX"
      "sfp_ok sfp"
  shows "\<exists>rc d'. capture_start_thread d sock blk fd sfp pm s = Some (rc, d') \<and> (start_failed d d' \<or> rc = 0 \<and> capture_started m d d')"
proof -
  let ?t = "\<lparr>pt_node = blk, pt_id = 0, pt_type = CAPTURE_THREAD\<rparr>"
  obtain rc t q s1 where st: "dabbad_thread_start ?t Fn_Packet_Rx blk (d_threads d) s = ((rc, t), q, s1)" by (metis surj_pair)
  note ts = dabbad_thread_start_result [OF st]
  have a1: "acq_ring (d_os d) (somes [fp_blk sfp] @ [blk]) pm s1" using acq_ring_step [OF a] ts by blast
  show ?thesis
  proof (cases "rc = 0")
    case False
    with ts have q: "q = d_threads d" by simp
    from acq_ring_destroy [OF a1] o pm obtain s2 where s2: "ldab_packet_mmap_destroy pm s1 = Some (zero_mmap, s2)"
      "acq (d_os d) (somes [fp_blk sfp] @ [blk]) s2" by (auto simp: opened_def)
    from acq_back [OF s2(2), of sock] o obtain s3 s4 f where
      "dabbad_sfp_destroy sfp s2 = Some (f, s3)" "release blk sock s3 = Some s4" "acq (d_os d) [] s4" by (auto simp: opened_def)
    with st False s2(1) q show ?thesis by (auto simp: capture_start_thread_def start_failed_def)
  next
    case True
    let ?c = "\<lparr>pc_blk = blk, pc_rx = \<lparr>rx_mmap = pm, rx_sfp = sfp, rx_pcap_fd = fd\<rparr>, pc_thread = t\<rparr>"
    let ?d = "d\<lparr>d_os := s1, d_threads := q, d_captures := dabbad_capture_insert ?c (d_captures d)\<rparr>"
    from True ts obtain i where t: "t = ?t\<lparr>pt_id := i\<rparr>" "i \<notin> set (thread_ids s)" by auto
    from a obtain b v where b: "vec pm = Some (b, v)" "distinct (b # somes [fp_blk sfp] @ [blk])" by (auto simp: acq_ring_def)
    from o obtain ino pos rd where fd: "os_fd s (nat fd) = Some (Reg ino pos rd True False)" by (auto simp: opened_def)
    have inv: "daemon_inv d" using o by (simp add: opened_def)
    then have ol: "owned (d_os d) (sessions d)" "live (d_os d) (d_threads d) (sessions d)" by (simp_all add: daemon_inv_def)
    have new: "owned s1 (capture_session ?c # sessions d) \<and> live s1 q (capture_session ?c # sessions d)"
      using st True b o pm(1) fd
      by (intro session_add [OF ol a, of ?t Fn_Packet_Rx t q s1 _ ino pos rd True]) (auto simp: capture_session_def opened_def)
    have perm: "mset (capture_session ?c # sessions d) = mset (sessions ?d)"
      by (simp add: sessions_def dabbad_capture_insert_def)
    have "kernel_ok s1" using inv a1 by (simp add: daemon_inv_def acq_ring_def kept_def kernel_ok_def)
    then have "daemon_inv ?d"
      using inv owned_perm [OF conjunct1 [OF new] perm] live_perm [OF conjunct2 [OF new] perm] t pm
      by (auto simp: daemon_inv_def dabbad_capture_insert_def capture_id_def)
    moreover have "capture_id ?c \<notin> pt_id ` ss_thread ` set (sessions d)"
      using live_fresh_id [OF ol(2), of s i] a t by (simp add: acq_ring_def capture_id_def)
    ultimately have "capture_started m d ?d" using pm by (auto simp: capture_started_def dabbad_capture_insert_def)
    with st True show ?thesis by (auto simp: capture_start_thread_def)
  qed
qed


lemma capture_start_ring_result:
  assumes o: "opened d sock fd (\<lambda>rd wr. wr) s" and a: "acq (d_os d) [blk] s"
  shows "\<exists>rc d'. capture_start_ring m d sock blk fd s = Some (rc, d') \<and> (start_failed d d' \<or> rc = 0 \<and> capture_started m d d')"
proof -
  let ?s = "d_os d"
  have n: "os_fd ?s (nat sock) = None" "0 \<le> sock" and wf: "heap_wf ?s" "maps_wf ?s" "kernel_ok ?s"
    using o by (auto simp: opened_def daemon_inv_def owned_def)
  from capture_filter_result [OF a wf(1) n, of m] obtain rc sfp s1 where
    cf: "capture_filter m sock s = Some ((rc, sfp), s1)" "sock_only sock s s1"
    and a1: "rc \<noteq> 0 \<and> acq ?s [blk] s1 \<or> rc = 0 \<and> acq ?s (somes [fp_blk sfp] @ [blk]) s1 \<and> sfp_ok sfp" by blast
  show ?thesis
  proof (cases "rc = 0")
    case False
    with a1 release_ok [of ?s "[blk]" s1 blk sock] n obtain s2 where "release blk sock s1 = Some s2" "acq ?s [] s2" by auto
    with cf False show ?thesis by (auto simp: capture_start_ring_def intro: start_failedI)
  next
    case True
    let ?bs = "somes [fp_blk sfp] @ [blk]"
    have a1: "acq ?s ?bs s1" and ok: "sfp_ok sfp" using a1 True by auto
    from acq_ring_create [OF a1 wf n, of zero_mmap "the (cr_interface m)" PACKET_MMAP_RX "ucast (cr_frame_size m)" "cr_frame_nr m"]
    obtain rc2 pm s2 where cr: "ldab_packet_mmap_create zero_mmap (the (cr_interface m)) sock PACKET_MMAP_RX
       (ucast (cr_frame_size m)) (cr_frame_nr m) s1 = Some ((rc2, pm), s2)" "sock_only sock s1 s2"
      and a2: "rc2 \<noteq> 0 \<and> acq ?s ?bs s2 \<or> rc2 = 0 \<and> acq_ring ?s ?bs pm s2 \<and> pf_sock pm = sock \<and>
        layout pm = mmap_layout (ucast (cr_frame_size m)) (cr_frame_nr m) \<and> pm_type pm = PACKET_MMAP_RX" by blast
    show ?thesis
    proof (cases "rc2 = 0")
      case rc2: False
      with a2 have "acq ?s ?bs s2" by simp
      from acq_back [OF this n] cf cr True rc2 show ?thesis by (auto simp: capture_start_ring_def intro: start_failedI)
    next
      case rc2: True
      have "opened d sock fd (\<lambda>rd wr. wr) s2" using opened_sock [OF opened_sock [OF o cf(2)] cr(2)] .
      from capture_start_thread_result [OF this, of sfp blk pm m] a2 rc2 cf cr True ok show ?thesis
        by (auto simp: capture_start_ring_def)
    qed
  qed
qed

text \<open>The beginning shared by both starts: a socket and the structure.\<close>

lemma start_prefix:
  assumes inv: "daemon_inv d"
    and cont: "\<And>sock blk s2. acq (d_os d) [blk] s2 \<Longrightarrow> os_fd (d_os d) (nat sock) = None \<Longrightarrow> 0 \<le> sock \<Longrightarrow>
       os_fd s2 = (os_fd (d_os d))(nat sock \<mapsto> Sock fresh_sock) \<Longrightarrow> os_fd s2 0 \<noteq> None \<Longrightarrow>
       \<exists>rc d'. go sock blk s2 = Some (rc, d') \<and> (start_failed d d' \<or> P rc d')"
  shows "\<exists>rc d'. (let (sock, s1) = socket (d_os d) in
      if sock < 0 then Some (os_errno s1, d\<lparr>d_os := s1\<rparr>) else
      let (b, s2) = malloc s1 in
      case b of None \<Rightarrow> Some (ENOMEM, d\<lparr>d_os := snd (close_fd sock s2)\<rparr>) | Some blk \<Rightarrow> go sock blk s2) = Some (rc, d') \<and>
    (start_failed d d' \<or> P rc d')"
proof -
  let ?s = "d_os d"
  have wf: "heap_wf ?s" using daemon_inv_wf [OF inv] by simp
  obtain sock s1 where so: "socket ?s = (sock, s1)" by force
  note a1 = acq_socket [OF so]
  obtain b s2 where m: "malloc s1 = (b, s2)" by force
  have fd2: "os_fd s2 = os_fd s1" using malloc_frame [of s1] m by simp
  consider (no) "sock < 0" | (nomem) "0 \<le> sock" "b = None" | (go) blk where "0 \<le> sock" "b = Some blk" by fastforce
  then show ?thesis
  proof cases
    case no
    with so a1 show ?thesis by (auto intro: start_failedI)
  next
    case nomem
    have "acq ?s [] s2"
      using acq_step [OF conjunct1 [OF a1] kept_malloc [of s1]] m malloc_NoneD [of s1 s2] nomem malloc_frame [of s1] by simp
    then have "acq ?s [] (snd (close_fd sock s2))" using a1 nomem by (intro acq_close) auto
    with so m nomem show ?thesis by (auto intro: start_failedI)
  next
    case go
    have n: "os_fd ?s (nat sock) = None" "os_fd s2 = (os_fd ?s)(nat sock \<mapsto> Sock fresh_sock)" using a1 go fd2 by auto
    have a2: "acq ?s [blk] s2" using acq_malloc [OF conjunct1 [OF a1]] m go wf by simp
    have "os_fd s2 0 \<noteq> None" using socket_takes_0 [OF so] go fd2 by simp
    from cont [OF a2 n(1) go(1) n(2) this] so m go show ?thesis by simp
  qed
qed

lemma capture_start_result:
  assumes inv: "daemon_inv d"
  shows "\<exists>rc d'. dabbad_capture_start m d = Some (rc, d') \<and> (start_failed d d' \<or> rc = 0 \<and> capture_started m d d')"
proof (cases "capture_settings_are_valid m")
  case False
  then show ?thesis by (simp add: dabbad_capture_start_def start_failed_def acq_refl)
next
  case True
  let ?s = "d_os d"
  have "\<exists>rc d'. (do { (fd, s3) \<leftarrow> capture_pcap m s2;
        if fd < 0 then do { s4 \<leftarrow> release blk sock s3; Some (os_errno s3, d\<lparr>d_os := s4\<rparr>) }
        else capture_start_ring m d sock blk fd s3 }) = Some (rc, d') \<and> (start_failed d d' \<or> rc = 0 \<and> capture_started m d d')"
    if a2: "acq ?s [blk] s2" and n: "os_fd ?s (nat sock) = None" "0 \<le> sock"
      "os_fd s2 = (os_fd ?s)(nat sock \<mapsto> Sock fresh_sock)" and z: "os_fd s2 0 \<noteq> None" for sock blk s2
  proof -
    from capture_pcap_result [OF a2 z, of m] obtain fd s3 where p: "capture_pcap m s2 = Some (fd, s3)"
      and a3: "acq ?s [blk] s3" and fd3: "fd < 0 \<or> 0 < fd \<and> os_fd s2 (nat fd) = None \<and>
        (\<exists>ino pos rd. os_fd s3 = (os_fd s2)(nat fd \<mapsto> Reg ino pos rd True False))" by blast
    show ?thesis
    proof (cases "fd < 0")
      case True
      from release_ok [OF a3, of blk sock] n obtain s4 where "release blk sock s3 = Some s4" "acq ?s [] s4" by auto
      with p True show ?thesis by (auto intro: start_failedI)
    next
      case False
      then have "opened d sock fd (\<lambda>rd wr. wr) s3" using fd3 n inv by (auto simp: opened_def split: if_splits)
      from capture_start_ring_result [OF this a3, of m] p False show ?thesis by simp
    qed
  qed
  from start_prefix [OF inv this]  True show ?thesis
    by (simp add: dabbad_capture_start_def)
qed

section \<open>Stopping\<close>

text \<open>Stopping the thread of a session: it is cancelled and leaves the queue, or nothing happens.\<close>

definition same_resources :: "os \<Rightarrow> os \<Rightarrow> bool" where
  "same_resources s s' \<longleftrightarrow> os_heap s' = os_heap s \<and> os_maps s' = os_maps s \<and> os_fd s' = os_fd s \<and> os_brk s' = os_brk s \<and> os_vm s' = os_vm s \<and>
     os_ioctl s' = os_ioctl s \<and> os_sched s' = os_sched s"

lemma same_resources_owned: "same_resources s s' \<Longrightarrow> owned s ss \<Longrightarrow> owned s' ss"
  by (rule owned_frame) (auto simp: same_resources_def owned_def heap_wf_def maps_wf_def)

lemma pthread_cancel_result:
  assumes "pthread_cancel i s = (rc, s')"
  shows "same_resources s s' \<and> (faultless s \<and> i \<in> set (thread_ids s) \<longrightarrow> rc = 0) \<and> (rc \<noteq> 0 \<and> kept s s' \<or>
    rc = 0 \<and> os_threads s' = map (\<lambda>th. if t_id th = i then th\<lparr>t_cancel := True\<rparr> else th) (os_threads s))"
  using assms
  by (auto simp: pthread_cancel_def on_thr_def same_resources_def upd_thr_def ESRCH_def kept_def thr_ext_same heap_wf_def maps_wf_def
      faultless_def find_thr_def find_None_iff thread_ids_def split: outcome.splits if_splits)

lemma live_cancel:
  assumes l: "live s q (x # ss)" and r: "dabbad_thread_remove (ss_thread x) q = Some q'"
    and th: "os_threads s' = map (\<lambda>th. if t_id th = pt_id (ss_thread x) then th\<lparr>t_cancel := True\<rparr> else th) (os_threads s)"
  shows "live s' q' ss"
proof -
  have wf: "tq.queue_wf q" and ms: "mset (tq_head q) = mset (map ss_thread (x # ss))" and d: "distinct (thread_ids s)"
    using l by (simp_all add: live_def)
  have mem: "ss_thread x \<in> set (tq_head q)" using ms live_nodes [OF l] by simp
  from tq.remove_member [OF wf mem] r have q': "tq.queue_wf q'" "tq_head q' = filter (\<lambda>m. pt_node m \<noteq> pt_node (ss_thread x)) (tq_head q)"
    by auto
  have di: "distinct (map pt_id (tq_head q))" "distinct (map pt_node (tq_head q))" using wf by (simp_all add: tq.queue_wf_def)
  have "distinct (map pt_id (map ss_thread (x # ss)))" "distinct (map pt_node (map ss_thread (x # ss)))"
    using di ms by (metis mset_eq_imp_distinct_iff mset_map)+
  then have new: "ss_thread x \<notin> set (map ss_thread ss)" "pt_id (ss_thread x) \<notin> pt_id ` set (map ss_thread ss)"
    "pt_node (ss_thread x) \<notin> pt_node ` set (map ss_thread ss)" by auto
  have "mset (tq_head q') = filter_mset (\<lambda>m. pt_node m \<noteq> pt_node (ss_thread x)) (mset (map ss_thread (x # ss)))"
    using q'(2) ms by (metis mset_filter)
  also have "\<dots> = filter_mset (\<lambda>m. pt_node m \<noteq> pt_node (ss_thread x)) (mset (map ss_thread ss))" by simp
  also have "\<dots> = mset (filter (\<lambda>m. pt_node m \<noteq> pt_node (ss_thread x)) (map ss_thread ss))" by (simp only: mset_filter)
  also have "filter (\<lambda>m. pt_node m \<noteq> pt_node (ss_thread x)) (map ss_thread ss) = map ss_thread ss"
    using new(3) by (intro filter_True ballI notI) (metis image_eqI)
  finally have "mset (tq_head q') = mset (map ss_thread ss)" .
  moreover have "thread_ids s' = thread_ids s" using th by (simp add: thread_ids_def)
  moreover have "\<exists>th \<in> set (os_threads s'). t_id th = pt_id (ss_thread y) \<and> \<not> t_cancel th \<and> t_arg th = pt_node (ss_thread y)"
    if "y \<in> set ss" for y
  proof -
    from l that obtain u where u: "u \<in> set (os_threads s)" "t_id u = pt_id (ss_thread y)" "\<not> t_cancel u" "t_arg u = pt_node (ss_thread y)"
      by (auto simp: live_def)
    have "t_id u \<noteq> pt_id (ss_thread x)" using new(2) that u(2) by (metis image_eqI list.set_map)
    then have "u \<in> set (os_threads s')" using u(1) th by force
    with u show ?thesis by blast
  qed
  ultimately show ?thesis using q'(1) d by (simp add: live_def)
qed

lemma dabbad_thread_stop_result:
  assumes l: "live s q (x # ss)"
  shows "\<exists>rc q' s'. dabbad_thread_stop (ss_thread x) q s = Some (rc, q', s') \<and> same_resources s s' \<and> (faultless s \<longrightarrow> rc = 0) \<and>
    (rc \<noteq> 0 \<and> q' = q \<and> kept s s' \<or> rc = 0 \<and> live s' q' ss)"
proof -
  have wf: "tq.queue_wf q" and mem: "ss_thread x \<in> set (tq_head q)"
    using l live_nodes [OF l] by (simp_all add: live_def)
  have f: "find (\<lambda>node. pt_id (ss_thread x) = pt_id node) (tq_head q) = Some (ss_thread x)"
    using tq.find_some [OF wf mem] by (simp add: dabbad_thread_find_def eq_commute)
  obtain rc s' where c: "pthread_cancel (pt_id (ss_thread x)) s = (rc, s')" by force
  from tq.remove_member [OF wf mem] obtain q' where r: "dabbad_thread_remove (ss_thread x) q = Some q'" by blast
  have "pt_id (ss_thread x) \<in> set (thread_ids s)" using l by (force simp: live_def thread_ids_def)
  with pthread_cancel_result [OF c] live_cancel [OF l r] show ?thesis
    using f c r by (auto simp: dabbad_thread_stop_def)
qed


text \<open>Releasing a session: its ring, its structure, and what was released before them.\<close>

lemma owned_release:
  assumes o: "owned s0 (x # ss)" and k: "kept s0 s" and h: "os_heap s = os_heap s0 - B" and m: "os_maps s = os_maps s0"
    and f: "\<And>n. n \<notin> set (ss_fds x) \<Longrightarrow> os_fd s n = os_fd s0 n"
    and x: "vec (ss_ring x) = Some (b, v)" "set (ss_blocks x) = B \<union> {b, blk}" "b \<notin> B" "blk \<notin> B" "b \<noteq> blk"
  shows "\<exists>s1 s2. ldab_packet_mmap_destroy (ss_ring x) s = Some (zero_mmap, s1) \<and> free (Some blk) s1 = Some s2 \<and>
    owned s2 ss \<and> kept s s2"
proof -
  have ok: "session_ok s0 x" and hb: "set (ss_blocks x) \<subseteq> os_heap s0" using o by (auto simp: owned_def)
  then have rdy: "ring_ready (ss_ring x) s0" by (simp add: session_ok_def)
  then have rr: "os_maps s (buf (ss_ring x)) = Some (map_len (layout (ss_ring x)))" "buf (ss_ring x) \<noteq> 0"
    using m ring_ready_map [OF rdy] by (simp_all add: ring_ready_def Let_def)
  have b: "b \<in> os_heap s" "blk \<in> os_heap s" using hb x h by auto
  have pf: "0 \<le> pf_sock (ss_ring x)" using ok ring_ready_sock [of "ss_ring x" s0] by (auto simp: session_ok_def)
  from ldab_packet_mmap_destroy_result [of "ss_ring x" s] x(1) b rr obtain s1 where
    d: "ldab_packet_mmap_destroy (ss_ring x) s = Some (zero_mmap, s1)" "os_heap s1 = os_heap s - {b}"
      "os_maps s1 = (os_maps s)(buf (ss_ring x) := None)" "sock_only (pf_sock (ss_ring x)) s s1" by auto
  let ?s2 = "s1\<lparr>os_heap := os_heap s1 - {blk}\<rparr>"
  have fr: "free (Some blk) s1 = Some ?s2" using d(2) b x(5) by (simp add: free_def)
  have k2: "kept s ?s2" using kept_trans [OF kept_mmap_destroy [OF d(1)] kept_free [OF fr]] .
  then have k02: "kept s0 ?s2" using kept_trans [OF k] by blast
  have "owned ?s2 ss"
  proof (rule owned_del [OF o])
    show "heap_wf ?s2" "maps_wf ?s2" using k02 o by (auto simp: kept_def owned_def)
    show "os_heap ?s2 = os_heap s0 - set (ss_blocks x)" using d(2) h x by auto
    show "os_maps ?s2 = (os_maps s0)(buf (ss_ring x) := None)" using d(3) m by simp
    show "os_fd ?s2 n = os_fd s0 n" if n: "n \<notin> set (ss_fds x)" for n
    proof -
      have "int n \<noteq> pf_sock (ss_ring x)" using n by (auto simp: ss_fds_def)
      with d(4) f [OF n] show ?thesis by (simp add: sock_only_def)
    qed
  qed
  with d(1) fr k2 show ?thesis by blast
qed

lemma mset_map_remove1: "x \<in> set xs \<Longrightarrow> mset (map f xs) = add_mset (f x) (mset (map f (remove1 x xs)))"
  by (induction xs) auto

lemma filter_neq_remove1:
  assumes "distinct (map f xs)" and "c \<in> set xs"
  shows "filter (\<lambda>x. f x \<noteq> f c) xs = remove1 c xs"
  using assms
proof (induction xs)
  case Nil
  then show ?case by simp
next
  case (Cons a xs)
  show ?case
  proof (cases "a = c")
    case True
    with Cons.prems(1) have "\<forall>x \<in> set xs. f x \<noteq> f c" by (metis distinct.simps(2) image_eqI list.set_map list.simps(9))
    then have "filter (\<lambda>x. f x \<noteq> f c) xs = xs" by (simp add: filter_id_conv)
    with True show ?thesis by simp
  next
    case False
    with Cons have "f a \<noteq> f c" by auto
    with False Cons show ?thesis by simp
  qed
qed

lemma sessions_blks:
  assumes "daemon_inv d"
  shows "distinct (map pc_blk (captures d))" "distinct (map pr_blk (replays d))"
    "distinct (map capture_id (captures d))" "distinct (map replay_id (replays d))"
proof -
  have l: "live (d_os d) (d_threads d) (sessions d)" using assms by (simp add: daemon_inv_def)
  then have m: "mset (tq_head (d_threads d)) = mset (map ss_thread (sessions d))"
    and w: "distinct (map pt_node (tq_head (d_threads d)))" "distinct (map pt_id (tq_head (d_threads d)))"
    by (simp_all add: live_def tq.queue_wf_def)
  have "distinct (map pt_node (map ss_thread (sessions d)))" "distinct (map pt_id (map ss_thread (sessions d)))"
    using w m by (metis mset_eq_imp_distinct_iff mset_map)+
  then have d: "distinct (map (pt_node \<circ> pc_thread) (captures d))" "distinct (map (pt_node \<circ> pr_thread) (replays d))"
    "distinct (map (pt_id \<circ> pc_thread) (captures d))" "distinct (map (pt_id \<circ> pr_thread) (replays d))"
    by (simp_all add: sessions_def comp_def)
  have "map pc_blk (captures d) = map (pt_node \<circ> pc_thread) (captures d)" "map pr_blk (replays d) = map (pt_node \<circ> pr_thread) (replays d)"
    using assms by (auto simp: daemon_inv_def)
  with d(1,2) show "distinct (map pc_blk (captures d))" "distinct (map pr_blk (replays d))" by metis+
  have "capture_id = pt_id \<circ> pc_thread" "replay_id = pt_id \<circ> pr_thread" by (auto simp: capture_id_def replay_id_def)
  with d(3,4) show "distinct (map capture_id (captures d))" "distinct (map replay_id (replays d))" by metis+
qed

lemma inv_queues:
  assumes "daemon_inv d"
  shows "cq.queue_wf (d_captures d)" "rq.queue_wf (d_replays d)"
  using sessions_blks [OF assms] assms
  by (simp_all add: cq.queue_wf_def rq.queue_wf_def daemon_inv_def dabbad_capture_length_get_def dabbad_replay_length_get_def)


lemma capture_teardown_result:
  assumes o: "owned (d_os d) (capture_session c # ss)" and c: "c \<in> set (captures d)" and wf: "cq.queue_wf (d_captures d)"
  shows "\<exists>s q. capture_teardown c d = Some (d\<lparr>d_os := s, d_captures := q\<rparr>) \<and> owned s ss \<and> kept (d_os d) s \<and>
    tq_head q = remove1 c (captures d) \<and> tq_length q = length (tq_head q)"
proof -
  let ?x = "capture_session c" and ?sock = "pf_sock (rx_mmap (pc_rx c))" and ?f = "rx_sfp (pc_rx c)"
  have ok: "session_ok (d_os d) ?x" and bl: "distinct (ss_blocks ?x)" "set (ss_blocks ?x) \<subseteq> os_heap (d_os d)"
    using o by (auto simp: owned_def)
  then obtain b v where v: "vec (rx_mmap (pc_rx c)) = Some (b, v)" by (auto simp: session_ok_def ring_ready_def Let_def)
  from cq.remove_member [OF wf c] obtain q where q: "dabbad_capture_remove c (d_captures d) = Some q"
    "tq_head q = filter (\<lambda>m. pc_blk m \<noteq> pc_blk c) (captures d)" "cq.queue_wf q" by blast
  have hq: "tq_head q = remove1 c (captures d)" "tq_length q = length (tq_head q)"
    using q filter_neq_remove1 [of pc_blk "captures d" c] c wf by (simp_all add: cq.queue_wf_def dabbad_capture_length_get_def)
  obtain r s1 where det: "ldab_sock_filter_detach ?sock (d_os d) = (r, s1)" by force
  note sp = on_sock_spec [OF det [unfolded ldab_sock_filter_detach_def setsockopt_filter_def]]
  have k1: "kept (d_os d) s1" using kept_detach [of "d_os d" ?sock] det by simp
  define B where "B = set_option (fp_blk ?f)"
  have Bh: "B \<subseteq> os_heap s1" "b \<notin> B" "pc_blk c \<notin> B" "b \<noteq> pc_blk c" "set (ss_blocks ?x) = B \<union> {b, pc_blk c}"
    using bl v sp(2) by (cases "fp_blk ?f"; force simp: B_def capture_session_def)+
  define s2 where "s2 = s1\<lparr>os_heap := os_heap s1 - B\<rparr>"
  have sd: "dabbad_sfp_destroy ?f s1 = Some (?f\<lparr>fp_len := 0\<rparr>, s2)"
    using Bh(1) by (cases "fp_blk ?f") (auto simp: dabbad_sfp_destroy_def free_def B_def s2_def)
  obtain r3 s3 where cl: "close_fd (rx_pcap_fd (pc_rx c)) s2 = (r3, s3)" by force
  have k: "kept (d_os d) s3" using kept_trans [OF kept_trans [OF k1 kept_sfp_destroy [OF sd]]] kept_close cl by (metis snd_conv)
  have fdp: "0 < rx_pcap_fd (pc_rx c)" using ok by (simp add: session_ok_def)
  have s3: "os_heap s3 = os_heap (d_os d) - B" "os_maps s3 = os_maps (d_os d)" "os_fd s3 = (os_fd s1)(nat (rx_pcap_fd (pc_rx c)) := None)"
  proof -
    have "os_heap s3 = os_heap s2" "os_maps s3 = os_maps s2" "os_fd s3 = (os_fd s2)(nat (rx_pcap_fd (pc_rx c)) := None)"
      using close_fd_frame [of "rx_pcap_fd (pc_rx c)" s2] os_fd_close_fd [of "rx_pcap_fd (pc_rx c)" s2] cl fdp by simp_all
    with sp show "os_heap s3 = os_heap (d_os d) - B" "os_maps s3 = os_maps (d_os d)"
      "os_fd s3 = (os_fd s1)(nat (rx_pcap_fd (pc_rx c)) := None)" by (simp_all add: s2_def)
  qed
  have f3: "os_fd s3 n = os_fd (d_os d) n" if "n \<notin> set (ss_fds ?x)" for n
  proof -
    have "int n \<noteq> ?sock" "n \<noteq> nat (rx_pcap_fd (pc_rx c))" using that by (auto simp: ss_fds_def)
    with sp(1) s3(3) show ?thesis by (simp add: sock_only_def)
  qed
  from owned_release [OF o k s3(1,2) f3 _ Bh(5,2,3,4)] v obtain s4 s5 where
    "ldab_packet_mmap_destroy (rx_mmap (pc_rx c)) s3 = Some (zero_mmap, s4)" "free (Some (pc_blk c)) s4 = Some s5"
    "owned s5 ss" "kept s3 s5" by auto
  moreover have "kept (d_os d) s5" using kept_trans [OF k] calculation(4) by blast
  ultimately show ?thesis using q(1) det sd cl hq
    by (intro exI [of _ s5] exI [of _ q]) (simp add: capture_teardown_def)
qed

section \<open>Stopping one session or all\<close>

text \<open>
  Captures and replays are stopped alike. The interface: the queue of one kind, how its nodes are torn down, and
  that stopping the thread of a node of the queue and tearing the node down either fails without effect or removes the node.
\<close>

definition stopped :: "(daemon \<Rightarrow> 'n list) \<Rightarrow> (daemon \<Rightarrow> daemon \<Rightarrow> bool) \<Rightarrow> 'n \<Rightarrow> daemon \<Rightarrow> daemon \<Rightarrow> bool" where
  "stopped nodes others n d d' \<longleftrightarrow> daemon_inv d' \<and> others d d' \<and> nodes d' = remove1 n (nodes d) \<and>
     os_sched (d_os d') = os_sched (d_os d)"

fun stop_each :: "(nat \<Rightarrow> daemon \<Rightarrow> (int \<times> daemon) option) \<Rightarrow> nat list \<Rightarrow> daemon \<Rightarrow> (int \<times> daemon) option" where
  "stop_each f [] d = Some (0, d)"
| "stop_each f (i # is) d = do { (rc, d1) \<leftarrow> f i d; if rc \<noteq> 0 then Some (rc, d1) else stop_each f is d1 }"

locale session_kind =
  fixes nodes :: "daemon \<Rightarrow> 'n list" and node_thread :: "'n \<Rightarrow> packet_thread" and teardown :: "'n \<Rightarrow> daemon \<Rightarrow> daemon option"
    and others :: "daemon \<Rightarrow> daemon \<Rightarrow> bool" and stop :: "nat \<Rightarrow> daemon \<Rightarrow> (int \<times> daemon) option"
    and stop_loop :: "'n list \<Rightarrow> daemon \<Rightarrow> (int \<times> daemon) option"
  assumes stop_one: "daemon_inv d \<Longrightarrow> n \<in> set (nodes d) \<Longrightarrow>
      \<exists>rc q s. dabbad_thread_stop (node_thread n) (d_threads d) (d_os d) = Some (rc, q, s) \<and> (faultless (d_os d) \<longrightarrow> rc = 0) \<and>
        (rc \<noteq> 0 \<and> start_failed d (d\<lparr>d_os := s, d_threads := q\<rparr>) \<or>
         rc = 0 \<and> (\<exists>d'. teardown n (d\<lparr>d_os := s, d_threads := q\<rparr>) = Some d' \<and> stopped nodes others n d d'))"
    and stop_find: "stop i d = (case find (\<lambda>n. pt_id (node_thread n) = i) (nodes d) of
        None \<Rightarrow> Some (EINVAL, d)
      | Some n \<Rightarrow> do {
          (rc, q, s) \<leftarrow> dabbad_thread_stop (node_thread n) (d_threads d) (d_os d);
          let d1 = d\<lparr>d_os := s, d_threads := q\<rparr>;
          if rc \<noteq> 0 then Some (rc, d1) else do { d2 \<leftarrow> teardown n d1; Some (rc, d2) } })"
    and loop_Nil: "stop_loop [] d = Some (0, d)"
    and loop_Cons: "stop_loop (n # ns) d = do {
          (rc, q, s) \<leftarrow> dabbad_thread_stop (node_thread n) (d_threads d) (d_os d);
          let d1 = d\<lparr>d_os := s, d_threads := q\<rparr>;
          if rc \<noteq> 0 then Some (rc, d1) else do { d2 \<leftarrow> teardown n d1; stop_loop ns d2 } }"
    and ids: "daemon_inv d \<Longrightarrow> distinct (map (pt_id \<circ> node_thread) (nodes d))"
    and failed_nodes: "start_failed d d' \<Longrightarrow> nodes d' = nodes d \<and> others d d'"
    and others_refl: "others d d" and others_trans: "others d d1 \<Longrightarrow> others d1 d2 \<Longrightarrow> others d d2"
begin

text \<open>Stopping by identifier fails without effect, or removes the node with that identifier.\<close>

lemma stop_result:
  assumes inv: "daemon_inv d"
  shows "\<exists>rc d'. stop i d = Some (rc, d') \<and>
    (rc \<noteq> 0 \<and> start_failed d d' \<or>
     rc = 0 \<and> (\<exists>n \<in> set (nodes d). pt_id (node_thread n) = i \<and> stopped nodes others n d d'))"
proof (cases "find (\<lambda>n. pt_id (node_thread n) = i) (nodes d)")
  case None
  then show ?thesis by (simp add: stop_find start_failed_def acq_refl)
next
  case (Some n)
  then have n: "n \<in> set (nodes d)" "pt_id (node_thread n) = i" by (auto dest: find_SomeD)
  from stop_one [OF inv n(1)] Some n show ?thesis by (auto simp: stop_find)
qed

text \<open>Stopping all: a prefix of the queue is stopped, the whole queue exactly when the result is 0.\<close>

lemma stop_loop_result:
  assumes "daemon_inv d" and "nodes d = ns"
  shows "\<exists>rc d'. stop_loop ns d = Some (rc, d') \<and> daemon_inv d' \<and> others d d' \<and>
    suffix (nodes d') ns \<and> (rc = 0 \<longleftrightarrow> nodes d' = []) \<and> (faultless (d_os d) \<longrightarrow> rc = 0 \<and> faultless (d_os d'))"
  using assms
proof (induction ns arbitrary: d)
  case Nil
  then show ?case by (simp add: loop_Nil others_refl)
next
  case (Cons n ns)
  from stop_one [OF Cons.prems(1), of n] Cons.prems(2) obtain rc q s where
    st: "dabbad_thread_stop (node_thread n) (d_threads d) (d_os d) = Some (rc, q, s)"
    and fl: "faultless (d_os d) \<longrightarrow> rc = 0" and r: "rc \<noteq> 0 \<and> start_failed d (d\<lparr>d_os := s, d_threads := q\<rparr>) \<or>
     rc = 0 \<and> (\<exists>d'. teardown n (d\<lparr>d_os := s, d_threads := q\<rparr>) = Some d' \<and> stopped nodes others n d d')" by auto
  show ?case
  proof (cases "rc = 0")
    case False
    with r fl start_failed_inv [OF _ Cons.prems(1)] failed_nodes st Cons.prems(2) show ?thesis by (auto simp: loop_Cons)
  next
    case True
    with r obtain d' where d': "teardown n (d\<lparr>d_os := s, d_threads := q\<rparr>) = Some d'" "stopped nodes others n d d'" by auto
    with Cons.prems have p: "daemon_inv d'" "nodes d' = ns" "others d d'" "faultless (d_os d') = faultless (d_os d)"
      by (simp_all add: stopped_def faultless_def)
    with Cons.IH [of d'] st d' True others_trans [OF p(3)] show ?thesis by (auto simp: loop_Cons intro: suffix_ConsI)
  qed
qed

text \<open>The loop is the repeated stop by identifier.\<close>

lemma stop_loop_each:
  assumes "daemon_inv d" and "nodes d = ns"
  shows "stop_loop ns d = stop_each stop (map (pt_id \<circ> node_thread) ns) d"
  using assms
proof (induction ns arbitrary: d)
  case Nil
  then show ?case by (simp add: loop_Nil)
next
  case (Cons n ns)
  have f: "find (\<lambda>m. pt_id (node_thread m) = pt_id (node_thread n)) (nodes d) = Some n" using Cons.prems(2) by simp
  from stop_one [OF Cons.prems(1), of n] Cons.prems(2) obtain rc q s where
    st: "dabbad_thread_stop (node_thread n) (d_threads d) (d_os d) = Some (rc, q, s)"
    and r: "rc \<noteq> 0 \<or> rc = 0 \<and> (\<exists>d'. teardown n (d\<lparr>d_os := s, d_threads := q\<rparr>) = Some d' \<and> stopped nodes others n d d')" by auto
  show ?case
  proof (cases "rc = 0")
    case False
    with st f show ?thesis by (simp add: loop_Cons stop_find)
  next
    case True
    with r obtain d' where d': "teardown n (d\<lparr>d_os := s, d_threads := q\<rparr>) = Some d'" "stopped nodes others n d d'" by auto
    with Cons.prems have "daemon_inv d'" "nodes d' = ns" by (simp_all add: stopped_def)
    with Cons.IH [of d'] st d' f True show ?thesis by (simp add: loop_Cons stop_find)
  qed
qed

end

abbreviation same_replays :: "daemon \<Rightarrow> daemon \<Rightarrow> bool" where "same_replays d d' \<equiv> d_replays d' = d_replays d"
abbreviation same_captures :: "daemon \<Rightarrow> daemon \<Rightarrow> bool" where "same_captures d d' \<equiv> d_captures d' = d_captures d"

text \<open>One round of stopping a capture, shared by both procedures.\<close>

lemma capture_stop_one:
  assumes inv: "daemon_inv d" and c: "c \<in> set (captures d)"
  shows "\<exists>rc q s. dabbad_thread_stop (pc_thread c) (d_threads d) (d_os d) = Some (rc, q, s) \<and> (faultless (d_os d) \<longrightarrow> rc = 0) \<and>
    (rc \<noteq> 0 \<and> start_failed d (d\<lparr>d_os := s, d_threads := q\<rparr>) \<or>
     rc = 0 \<and> (\<exists>d'. capture_teardown c (d\<lparr>d_os := s, d_threads := q\<rparr>) = Some d' \<and> stopped captures same_replays c d d'))"
proof -
  let ?ss = "map capture_session (remove1 c (captures d)) @ map replay_session (replays d)"
  have perm: "mset (sessions d) = mset (capture_session c # ?ss)"
    using mset_map_remove1 [OF c, of capture_session] by (simp add: sessions_def del: mset_remove1)
  have o: "owned (d_os d) (capture_session c # ?ss)" and l: "live (d_os d) (d_threads d) (capture_session c # ?ss)"
    using inv owned_perm [OF _ perm] live_perm [OF _ perm] by (auto simp: daemon_inv_def)
  from dabbad_thread_stop_result [OF l] obtain rc q s where
    st: "dabbad_thread_stop (pc_thread c) (d_threads d) (d_os d) = Some (rc, q, s)" "same_resources (d_os d) s"
      "faultless (d_os d) \<longrightarrow> rc = 0"
    and r: "rc \<noteq> 0 \<and> q = d_threads d \<and> kept (d_os d) s \<or> rc = 0 \<and> live s q ?ss" by auto
  show ?thesis
  proof (cases "rc = 0")
    case False
    with r st(2) have "start_failed d (d\<lparr>d_os := s, d_threads := q\<rparr>)"
      by (auto simp: start_failed_def acq_def same_resources_def)
    with st(1,3) False show ?thesis by blast
  next
    case True
    let ?d1 = "d\<lparr>d_os := s, d_threads := q\<rparr>"
    have "owned (d_os ?d1) (capture_session c # ?ss)" using same_resources_owned [OF st(2) o] by simp
    from capture_teardown_result [OF this, of ] c inv_queues [OF inv] obtain s2 q2 where
      td: "capture_teardown c ?d1 = Some (?d1\<lparr>d_os := s2, d_captures := q2\<rparr>)" "owned s2 ?ss" "kept s s2"
        "tq_head q2 = remove1 c (captures d)" "tq_length q2 = length (tq_head q2)" by auto
    have "live s2 q ?ss" using live_kept [OF _ td(3)] r True by auto
    moreover have "kernel_ok s2" using inv st(2) td(3) by (simp add: daemon_inv_def same_resources_def kept_def kernel_ok_def)
    ultimately have "daemon_inv (?d1\<lparr>d_os := s2, d_captures := q2\<rparr>)"
      using inv td(2,4,5) by (auto simp: daemon_inv_def sessions_def dest: notin_set_remove1 set_mp [OF set_remove1_subset])
    moreover have "os_sched s2 = os_sched (d_os d)" using st(2) td(3) by (simp add: same_resources_def kept_def)
    ultimately show ?thesis using td st True by (auto simp: stopped_def)
  qed
qed

interpretation cs: session_kind captures pc_thread capture_teardown same_replays dabbad_capture_stop capture_stop_loop
proof unfold_locales
  show "dabbad_capture_stop i d = (case find (\<lambda>n. pt_id (pc_thread n) = i) (captures d) of None \<Rightarrow> Some (EINVAL, d)
      | Some n \<Rightarrow> do { (rc, q, s) \<leftarrow> dabbad_thread_stop (pc_thread n) (d_threads d) (d_os d);
          let d1 = d\<lparr>d_os := s, d_threads := q\<rparr>;
          if rc \<noteq> 0 then Some (rc, d1) else do { d2 \<leftarrow> capture_teardown n d1; Some (rc, d2) } })" for i d
    by (simp add: dabbad_capture_stop_def dabbad_capture_find_def capture_id_def)
  show "daemon_inv d \<Longrightarrow> distinct (map (pt_id \<circ> pc_thread) (captures d))" for d
    using sessions_blks(3) [of d] by (simp add: capture_id_def [abs_def] comp_def)
qed ((rule capture_stop_one; assumption) | simp add: start_failed_def)+

section \<open>Replays\<close>

definition replay_started :: "replay_request \<Rightarrow> daemon \<Rightarrow> daemon \<Rightarrow> bool" where
  "replay_started m d d' \<longleftrightarrow> daemon_inv d' \<and> d_captures d' = d_captures d \<and>
     (\<exists>r. replays d' = replays d @ [r] \<and> replay_id r \<notin> pt_id ` ss_thread ` set (sessions d) \<and>
        layout (tx_mmap (pr_tx r)) = mmap_layout (ucast (rr_frame_size m)) (rr_frame_nr m))"

lemma replay_started_ok:
  assumes o: "opened d sock fd (\<lambda>rd wr. rd) s" and a: "acq_ring (d_os d) [blk] pm s"
    and pm: "pf_sock pm = sock" "layout pm = mmap_layout (ucast (rr_frame_size m)) (rr_frame_nr m)" "pm_type pm = PACKET_MMAP_TX"
    and st: "dabbad_thread_start \<lparr>pt_node = blk, pt_id = 0, pt_type = REPLAY_THREAD\<rparr> Fn_Packet_Tx blk (d_threads d) s = ((0, t), q, s1)"
  shows "replay_started m d (d\<lparr>d_os := s1, d_threads := q, d_replays := dabbad_replay_insert
    \<lparr>pr_blk = blk, pr_tx = \<lparr>tx_mmap = pm, tx_pcap_fd = fd\<rparr>, pr_thread = t\<rparr> (d_replays d)\<rparr>)" (is "replay_started m d ?d")
proof -
  let ?t = "\<lparr>pt_node = blk, pt_id = 0, pt_type = REPLAY_THREAD\<rparr>"
  let ?r = "\<lparr>pr_blk = blk, pr_tx = \<lparr>tx_mmap = pm, tx_pcap_fd = fd\<rparr>, pr_thread = t\<rparr>"
  from dabbad_thread_start_result [OF st] obtain i where t: "t = ?t\<lparr>pt_id := i\<rparr>" "i \<notin> set (thread_ids s)" by auto
  from a obtain b v where b: "vec pm = Some (b, v)" "b \<noteq> blk" by (auto simp: acq_ring_def)
  from o obtain ino pos wr where fd: "os_fd s (nat fd) = Some (Reg ino pos True wr False)" by (auto simp: opened_def)
  have inv: "daemon_inv d" using o by (simp add: opened_def)
  then have ol: "owned (d_os d) (sessions d)" "live (d_os d) (d_threads d) (sessions d)" by (simp_all add: daemon_inv_def)
  have new: "owned s1 (replay_session ?r # sessions d) \<and> live s1 q (replay_session ?r # sessions d)"
    using st b o pm(1) fd
    by (intro session_add [OF ol a, of ?t Fn_Packet_Tx t q s1 _ ino pos True wr]) (auto simp: replay_session_def opened_def)
  have perm: "mset (replay_session ?r # sessions d) = mset (sessions ?d)"
    by (simp add: sessions_def dabbad_replay_insert_def)
  have "kernel_ok s1" using inv a dabbad_thread_start_result [OF st]
    by (simp add: daemon_inv_def acq_ring_def kept_def kernel_ok_def)
  then have "daemon_inv ?d"
    using inv owned_perm [OF conjunct1 [OF new] perm] live_perm [OF conjunct2 [OF new] perm] t pm
    by (auto simp: daemon_inv_def dabbad_replay_insert_def replay_id_def)
  moreover have "replay_id ?r \<notin> pt_id ` ss_thread ` set (sessions d)"
    using live_fresh_id [OF ol(2), of s i] a t by (simp add: acq_ring_def replay_id_def)
  ultimately show ?thesis using pm by (auto simp: replay_started_def dabbad_replay_insert_def)
qed

lemma replay_start_ring_result:
  assumes o: "opened d sock fd (\<lambda>rd wr. rd) s" and a: "acq (d_os d) [blk] s"
  shows "\<exists>rc d'. replay_start_ring m d sock blk fd s = Some (rc, d') \<and> (start_failed d d' \<or> rc = 0 \<and> replay_started m d d')"
proof -
  let ?s = "d_os d" and ?t = "\<lparr>pt_node = blk, pt_id = 0, pt_type = REPLAY_THREAD\<rparr>"
  have n: "os_fd ?s (nat sock) = None" "0 \<le> sock" and wf: "heap_wf ?s" "maps_wf ?s" "kernel_ok ?s" and inv: "daemon_inv d"
    using o by (auto simp: opened_def daemon_inv_def owned_def)
  from acq_ring_create [OF a wf n, of zero_mmap "the (rr_interface m)" PACKET_MMAP_TX "ucast (rr_frame_size m)" "rr_frame_nr m"]
  obtain rc pm s1 where cr: "ldab_packet_mmap_create zero_mmap (the (rr_interface m)) sock PACKET_MMAP_TX
     (ucast (rr_frame_size m)) (rr_frame_nr m) s = Some ((rc, pm), s1)" "sock_only sock s s1"
    and a1: "rc \<noteq> 0 \<and> acq ?s [blk] s1 \<or> rc = 0 \<and> acq_ring ?s [blk] pm s1 \<and> pf_sock pm = sock \<and>
      layout pm = mmap_layout (ucast (rr_frame_size m)) (rr_frame_nr m) \<and> pm_type pm = PACKET_MMAP_TX" by blast
  obtain rc2 t q s2 where st: "dabbad_thread_start ?t Fn_Packet_Tx blk (d_threads d) s1 = ((rc2, t), q, s2)" by (metis surj_pair)
  note ts = dabbad_thread_start_result [OF st]
  consider (ring) "rc \<noteq> 0" "acq ?s [blk] s1" | (thr) "rc = 0" "rc2 \<noteq> 0" | (ok) "rc = 0" "rc2 = 0" using a1 by blast
  then show ?thesis
  proof cases
    case ring
    with release_ok [of ?s "[blk]" s1 blk sock] n obtain s2 where "release blk sock s1 = Some s2" "acq ?s [] s2" by auto
    with cr ring show ?thesis by (auto simp: replay_start_ring_def intro: start_failedI)
  next
    case thr
    with a1 ts have "acq_ring ?s [blk] pm s2" "q = d_threads d" "pf_sock pm = sock" using acq_ring_step by auto
    with acq_ring_destroy [of ?s "[blk]" pm s2] n obtain s3 where s3: "ldab_packet_mmap_destroy pm s2 = Some (zero_mmap, s3)" "acq ?s [blk] s3"
      by auto
    with release_ok [OF s3(2), of blk sock] n obtain s4 where "release blk sock s3 = Some s4" "acq ?s [] s4" by auto
    with cr st thr s3 \<open>q = d_threads d\<close> show ?thesis by (auto simp: replay_start_ring_def start_failed_def)
  next
    case ok
    with a1 have a1: "acq_ring ?s [blk] pm s1" and pm: "pf_sock pm = sock" "pm_type pm = PACKET_MMAP_TX"
      "layout pm = mmap_layout (ucast (rr_frame_size m)) (rr_frame_nr m)" by auto
    have o1: "opened d sock fd (\<lambda>rd wr. rd) s1" using opened_sock [OF o cr(2)] .
    from replay_started_ok [OF o1 a1 pm(1,3,2)] st ok cr show ?thesis by (auto simp: replay_start_ring_def)
  qed
qed


lemma replay_start_result:
  assumes inv: "daemon_inv d"
  shows "\<exists>rc d'. dabbad_replay_start m d = Some (rc, d') \<and> (start_failed d d' \<or> rc = 0 \<and> replay_started m d d')"
proof (cases "replay_settings_are_valid m")
  case False
  then show ?thesis by (simp add: dabbad_replay_start_def start_failed_def acq_refl)
next
  case True
  let ?s = "d_os d"
  have "\<exists>rc d'. (let (fd, s3) = ldab_pcap_open (the (rr_pcap m)) O_RDONLY s2 in
        if fd < 0 then do { s4 \<leftarrow> release blk sock s3; Some (os_errno s3, d\<lparr>d_os := s4\<rparr>) }
        else replay_start_ring m d sock blk fd s3) = Some (rc, d') \<and> (start_failed d d' \<or> rc = 0 \<and> replay_started m d d')"
    if a2: "acq ?s [blk] s2" and n: "os_fd ?s (nat sock) = None" "0 \<le> sock"
      "os_fd s2 = (os_fd ?s)(nat sock \<mapsto> Sock fresh_sock)" and z: "os_fd s2 0 \<noteq> None" for sock blk s2
  proof -
    obtain fd s3 where p: "ldab_pcap_open (the (rr_pcap m)) O_RDONLY s2 = (fd, s3)" by force
    have fd3: "fd < 0 \<and> os_fd s3 = os_fd s2 \<or> 0 \<le> fd \<and> os_fd s2 (nat fd) = None \<and>
        (\<exists>ino pos wr. os_fd s3 = (os_fd s2)(nat fd \<mapsto> Reg ino pos True wr False))"
      using ldab_pcap_open_ok [OF p] ldab_pcap_open_fail [OF p] by (cases "fd < 0") auto
    have fr: "kept s2 s3" "os_heap s3 = os_heap s2" "os_maps s3 = os_maps s2"
      using kept_open [of s2 "the (rr_pcap m)" O_RDONLY] ldab_pcap_open_frame [of "the (rr_pcap m)" O_RDONLY s2] p by simp_all
    have a3: "acq ?s [blk] s3" using acq_new_fd [OF a2 fr] fd3 by blast
    show ?thesis
    proof (cases "fd < 0")
      case True
      from release_ok [OF a3, of blk sock] n obtain s4 where "release blk sock s3 = Some s4" "acq ?s [] s4" by auto
      with p True show ?thesis by (auto intro: start_failedI)
    next
      case False
      then have "fd \<noteq> 0" using fd3 z by auto
      with False have "opened d sock fd (\<lambda>rd wr. rd) s3" using fd3 n inv by (auto simp: opened_def split: if_splits)
      from replay_start_ring_result [OF this a3, of m] p False show ?thesis by simp
    qed
  qed
  from start_prefix [OF inv this]  True show ?thesis
    by (simp add: dabbad_replay_start_def)
qed

lemma replay_teardown_result:
  assumes o: "owned (d_os d) (replay_session r # ss)" and r: "r \<in> set (replays d)" and wf: "rq.queue_wf (d_replays d)"
  shows "\<exists>s q. replay_teardown r d = Some (d\<lparr>d_os := s, d_replays := q\<rparr>) \<and> owned s ss \<and> kept (d_os d) s \<and>
    tq_head q = remove1 r (replays d) \<and> tq_length q = length (tq_head q)"
proof -
  let ?x = "replay_session r" and ?fd = "tx_pcap_fd (pr_tx r)"
  have ok: "session_ok (d_os d) ?x" and bl: "distinct (ss_blocks ?x)" "set (ss_blocks ?x) \<subseteq> os_heap (d_os d)"
    using o by (auto simp: owned_def)
  then obtain b v where v: "vec (tx_mmap (pr_tx r)) = Some (b, v)" by (auto simp: session_ok_def ring_ready_def Let_def)
  from rq.remove_member [OF wf r] obtain q where q: "dabbad_replay_remove r (d_replays d) = Some q"
    "tq_head q = filter (\<lambda>m. pr_blk m \<noteq> pr_blk r) (replays d)" "rq.queue_wf q" by blast
  have hq: "tq_head q = remove1 r (replays d)" "tq_length q = length (tq_head q)"
    using q filter_neq_remove1 [of pr_blk "replays d" r] r wf by (simp_all add: rq.queue_wf_def dabbad_replay_length_get_def)
  have Bh: "b \<noteq> pr_blk r" "set (ss_blocks ?x) = {} \<union> {b, pr_blk r}" using bl v by (auto simp: replay_session_def)
  obtain r1 s1 where cl: "close_fd ?fd (d_os d) = (r1, s1)" by force
  have k: "kept (d_os d) s1" using kept_close [of "d_os d" ?fd] cl by simp
  have fdp: "0 < ?fd" using ok by (simp add: session_ok_def)
  have s1: "os_heap s1 = os_heap (d_os d) - {}" "os_maps s1 = os_maps (d_os d)" "os_fd s1 = (os_fd (d_os d))(nat ?fd := None)"
    using close_fd_frame [of ?fd "d_os d"] os_fd_close_fd [of ?fd "d_os d"] cl fdp by simp_all
  have f1: "os_fd s1 n = os_fd (d_os d) n" if "n \<notin> set (ss_fds ?x)" for n
    using that s1(3) by (auto simp: ss_fds_def)
  from owned_release [OF o k s1(1,2) f1 _ Bh(2) _ _ Bh(1)] v obtain s2 s3 where
    "ldab_packet_mmap_destroy (tx_mmap (pr_tx r)) s1 = Some (zero_mmap, s2)" "free (Some (pr_blk r)) s2 = Some s3"
    "owned s3 ss" "kept s1 s3" by auto
  moreover have "kept (d_os d) s3" using kept_trans [OF k] calculation(4) by blast
  ultimately show ?thesis using q(1) cl hq
    by (intro exI [of _ s3] exI [of _ q]) (simp add: replay_teardown_def)
qed

lemma replay_stop_one:
  assumes inv: "daemon_inv d" and r: "r \<in> set (replays d)"
  shows "\<exists>rc q s. dabbad_thread_stop (pr_thread r) (d_threads d) (d_os d) = Some (rc, q, s) \<and> (faultless (d_os d) \<longrightarrow> rc = 0) \<and>
    (rc \<noteq> 0 \<and> start_failed d (d\<lparr>d_os := s, d_threads := q\<rparr>) \<or>
     rc = 0 \<and> (\<exists>d'. replay_teardown r (d\<lparr>d_os := s, d_threads := q\<rparr>) = Some d' \<and> stopped replays same_captures r d d'))"
proof -
  let ?ss = "map capture_session (captures d) @ map replay_session (remove1 r (replays d))"
  have perm: "mset (sessions d) = mset (replay_session r # ?ss)"
    using mset_map_remove1 [OF r, of replay_session] by (simp add: sessions_def del: mset_remove1)
  have o: "owned (d_os d) (replay_session r # ?ss)" and l: "live (d_os d) (d_threads d) (replay_session r # ?ss)"
    using inv owned_perm [OF _ perm] live_perm [OF _ perm] by (auto simp: daemon_inv_def)
  from dabbad_thread_stop_result [OF l] obtain rc q s where
    st: "dabbad_thread_stop (pr_thread r) (d_threads d) (d_os d) = Some (rc, q, s)" "same_resources (d_os d) s"
      "faultless (d_os d) \<longrightarrow> rc = 0"
    and res: "rc \<noteq> 0 \<and> q = d_threads d \<and> kept (d_os d) s \<or> rc = 0 \<and> live s q ?ss" by auto
  show ?thesis
  proof (cases "rc = 0")
    case False
    with res st(2) have "start_failed d (d\<lparr>d_os := s, d_threads := q\<rparr>)"
      by (auto simp: start_failed_def acq_def same_resources_def)
    with st(1,3) False show ?thesis by blast
  next
    case True
    let ?d1 = "d\<lparr>d_os := s, d_threads := q\<rparr>"
    have "owned (d_os ?d1) (replay_session r # ?ss)" using same_resources_owned [OF st(2) o] by simp
    from replay_teardown_result [OF this] r inv_queues [OF inv] obtain s2 q2 where
      td: "replay_teardown r ?d1 = Some (?d1\<lparr>d_os := s2, d_replays := q2\<rparr>)" "owned s2 ?ss" "kept s s2"
        "tq_head q2 = remove1 r (replays d)" "tq_length q2 = length (tq_head q2)" by auto
    have "live s2 q ?ss" using live_kept [OF _ td(3)] res True by auto
    moreover have "kernel_ok s2" using inv st(2) td(3) by (simp add: daemon_inv_def same_resources_def kept_def kernel_ok_def)
    ultimately have "daemon_inv (?d1\<lparr>d_os := s2, d_replays := q2\<rparr>)"
      using inv td(2,4,5) by (auto simp: daemon_inv_def sessions_def dest: notin_set_remove1 set_mp [OF set_remove1_subset])
    moreover have "os_sched s2 = os_sched (d_os d)" using st(2) td(3) by (simp add: same_resources_def kept_def)
    ultimately show ?thesis using td st True by (auto simp: stopped_def)
  qed
qed


interpretation rs: session_kind replays pr_thread replay_teardown same_captures dabbad_replay_stop replay_stop_loop
proof unfold_locales
  show "dabbad_replay_stop i d = (case find (\<lambda>n. pt_id (pr_thread n) = i) (replays d) of None \<Rightarrow> Some (EINVAL, d)
      | Some n \<Rightarrow> do { (rc, q, s) \<leftarrow> dabbad_thread_stop (pr_thread n) (d_threads d) (d_os d);
          let d1 = d\<lparr>d_os := s, d_threads := q\<rparr>;
          if rc \<noteq> 0 then Some (rc, d1) else do { d2 \<leftarrow> replay_teardown n d1; Some (rc, d2) } })" for i d
    by (simp add: dabbad_replay_stop_def dabbad_replay_find_def replay_id_def)
  show "daemon_inv d \<Longrightarrow> distinct (map (pt_id \<circ> pr_thread) (replays d))" for d
    using sessions_blks(4) [of d] by (simp add: replay_id_def [abs_def] comp_def)
qed ((rule replay_stop_one; assumption) | simp add: start_failed_def)+

end
