(* ===== verification/Listing.thy ===== *)
theory Listing
  imports Daemon
begin

text \<open>
  The handlers that list threads, captures and replays, and the one that changes a thread: what they reply, and that
  they leave the daemon as it was. Allocation and release of a reply are followed block by block; the only
  way a listing of captures can corrupt memory is a failed allocation of a part of an element.
\<close>

section \<open>Resources of the listing handlers\<close>

lemma acq_allocs:
  assumes "acq s bs s1" and "allocs s1 cs s2"
  shows "acq s (cs @ bs) s2"
  using assms by (auto simp: acq_def allocs_def mem_only_def kept_def maps_wf_def intro: thr_ext_trans thr_ext_same)

lemma acq_heap_wf: "acq s bs s1 \<Longrightarrow> heap_wf s \<Longrightarrow> heap_wf s1"
  by (simp add: acq_def kept_def)

lemma acq_drop:
  assumes "acq s (cs @ bs) s1"
  shows "acq s bs (s1\<lparr>os_heap := os_heap s1 - set cs\<rparr>)" (is "acq s bs ?s2")
proof -
  have "kept s ?s2" using assms by (auto simp: acq_def kept_def heap_wf_def maps_wf_def thr_ext_def thread_ids_def)
  moreover have "os_heap s1 - set cs = os_heap s \<union> set bs" using assms by (auto simp: acq_def)
  ultimately show ?thesis using assms by (auto simp: acq_def)
qed

lemma acq_perm: "acq s bs s1 \<Longrightarrow> mset bs = mset cs \<Longrightarrow> acq s cs s1"
  unfolding acq_def by (metis mset_eq_imp_distinct_iff mset_eq_setD)

lemma acq_list_free:
  assumes "acq s (list_blocks es @ bs) s1"
  shows "\<exists>s2. list_free es s1 = Some s2 \<and> acq s bs s2"
proof -
  have "list_free es s1 = Some (s1\<lparr>os_heap := os_heap s1 - set (list_blocks es)\<rparr>)"
    using assms by (intro list_free_ok) (auto simp: acq_def)
  with acq_drop [OF assms] show ?thesis by blast
qed

text \<open>Handlers that only count calls in between.\<close>

lemma acq_tick: "acq s bs s1 \<Longrightarrow> os_heap s2 = os_heap s1 \<Longrightarrow> os_brk s2 = os_brk s1 \<Longrightarrow> os_maps s2 = os_maps s1 \<Longrightarrow> os_vm s2 = os_vm s1 \<Longrightarrow>
  os_fd s2 = os_fd s1 \<Longrightarrow> os_threads s2 = os_threads s1 \<Longrightarrow> os_endian s2 = os_endian s1 \<Longrightarrow> os_sched s2 = os_sched s1 \<Longrightarrow>
  os_nofile s2 = os_nofile s1 \<Longrightarrow> os_online s2 = os_online s1 \<Longrightarrow> os_ioctl s2 = os_ioctl s1 \<Longrightarrow> acq s bs s2"
  by (rule acq_step) (auto simp: kept_def heap_wf_def maps_wf_def thr_ext_same)

lemma sched_param_get_state: "snd (dabbad_thread_sched_param_get t s) = tick s"
  by (simp add: dabbad_thread_sched_param_get_def pthread_getschedparam_def Let_def split_beta split: outcome.split option.split)

lemma affinity_get_state: "snd (dabbad_thread_sched_affinity_get t r s) = tick s"
  by (simp add: dabbad_thread_sched_affinity_get_def pthread_getaffinity_def Let_def split_beta split: outcome.split option.split)

lemma acq_tick1 [simp]: "acq s bs s1 \<Longrightarrow> acq s bs (tick s1)"
  by (erule acq_tick) simp_all


lemma malloc_faultless: "faultless s \<Longrightarrow> malloc s = (b, s') \<Longrightarrow> b \<noteq> None \<and> faultless s'"
  by (auto simp: faultless_def malloc_def)

lemma malloc_each_faultless: "faultless s \<Longrightarrow> malloc_each np s = (bs, s') \<Longrightarrow> None \<notin> set bs \<and> faultless s'"
proof (induction np arbitrary: s bs s')
  case (Suc np)
  obtain b s1 where m: "malloc s = (b, s1)" by force
  obtain cs s2 where r: "malloc_each np s1 = (cs, s2)" by force
  from malloc_faultless [OF Suc.prems(1) m] Suc.IH [OF _ r] Suc.prems(2) m r show ?case by auto
qed simp

lemma list_alloc_faultless: "faultless s \<Longrightarrow> list_alloc np n s = ((ok, es), s') \<Longrightarrow> ok"
proof (induction n arbitrary: s ok es s')
  case (Suc n)
  obtain b s1 where m: "malloc s = (b, s1)" by force
  from malloc_faultless [OF Suc.prems(1) m] obtain c where b: "b = Some c" "faultless s1" by auto
  obtain ps s2 where p: "malloc_each np s1 = (ps, s2)" by force
  from malloc_each_faultless [OF b(2) p] have ps: "None \<notin> set ps" "faultless s2" by auto
  obtain ok' es' s3 where l: "list_alloc np n s2 = ((ok', es'), s3)" by (metis surj_pair)
  from Suc.IH [OF ps(2) l] Suc.prems(2) m b p ps l show ?case by simp
qed simp

text \<open>The memory of a list reply, from its allocation to its release.\<close>

lemma list_reply_alloc:
  assumes wf: "heap_wf s" and m: "malloc s = (Some b, s1)" and l: "list_alloc np n s1 = ((ok, es), s2)"
  shows "acq s (list_blocks es @ [b]) s2" "length es = n" "mem_only s s2" "faultless s \<Longrightarrow> ok" "ok \<Longrightarrow> list_all (complete np) es"
proof -
  note al = allocs_malloc [OF m wf]
  have w1: "heap_wf s1" using al by (simp add: allocs_def)
  note ll = allocs_list_alloc [OF l w1]
  show "acq s (list_blocks es @ [b]) s2"
    using acq_allocs [OF acq_allocs [OF acq_refl al] conjunct1 [OF ll]] by simp
  show "length es = n" "ok \<Longrightarrow> list_all (complete np) es" using ll by simp_all
  show "mem_only s s2" using al ll by (auto simp: allocs_def intro: mem_only_trans)
  show "faultless s \<Longrightarrow> ok" using malloc_faultless [OF _ m] list_alloc_faultless [OF _ l] by auto
qed

lemma list_reply_free:
  assumes "acq s (list_blocks es @ [b]) s1"
  shows "\<exists>s2 s3. list_free es s1 = Some s2 \<and> free (Some b) s2 = Some s3 \<and> acq s [] s3 \<and> os_threads s3 = os_threads s1"
proof -
  have f: "list_free es s1 = Some (s1\<lparr>os_heap := os_heap s1 - set (list_blocks es)\<rparr>)"
    using assms by (intro list_free_ok) (auto simp: acq_def)
  from acq_free [OF acq_drop [OF assms], of b] f show ?thesis by (auto simp: free_def split: if_splits)
qed

section \<open>Threads\<close>

lemma thread_get_fill_result:
  assumes "acq s bs s1" and "length us = length es" and "run_on \<subseteq> {..<42}" and "\<forall>th \<in> set (os_threads s1). t_cpus th \<subseteq> {..<42}"
  shows "\<exists>r s2. thread_get_fill us es run_on s1 = Some (r, s2) \<and> acq s bs s2 \<and> os_threads s2 = os_threads s1 \<and>
    map ti_id r = map pt_id us \<and> map ti_type r = map (type_code \<circ> pt_type) us"
  using assms
proof (induction us arbitrary: es run_on s1)
  case Nil
  then show ?case by simp
next
  case (Cons t us)
  from Cons.prems(2) obtain e es' where es: "es = e # es'" "length us = length es'" by (cases es) auto
  obtain rc0 prio pol s2 where p: "dabbad_thread_sched_param_get t s1 = ((rc0, prio, pol), s2)" by (metis surj_pair)
  obtain rc r' s3 where f: "dabbad_thread_sched_affinity_get t run_on s2 = ((rc, r'), s3)" by (metis surj_pair)
  have s: "s2 = tick s1" "s3 = tick s2"
    using sched_param_get_state [of t s1] affinity_get_state [of t run_on s2] p f by simp_all
  have "t_cpus th \<subseteq> {..<42}" if "find_thr (pt_id t) s2 = Some th" for th
    using that Cons.prems(4) find_thr_Some [OF that] s by auto
  then have r': "r' \<subseteq> {..<42}"
    using f Cons.prems(3) by (auto simp: dabbad_thread_sched_affinity_get_def pthread_getaffinity_def Let_def
        split: outcome.splits option.splits)
  from cpu_affinity2str_fits [OF r'] obtain str where "cpu_affinity2str r' cs_len = Some str" by (auto simp: cs_len_def)
  moreover from Cons.IH [of s3 es' r'] Cons.prems es r' s obtain r s4 where
    "thread_get_fill us es' r' s3 = Some (r, s4)" "acq s bs s4" "os_threads s4 = os_threads s1"
    "map ti_id r = map pt_id us" "map ti_type r = map (type_code \<circ> pt_type) us" by auto
  ultimately show ?case using p f es by auto
qed

lemma junk_cpus_bound: "\<forall>n. 0 \<le> os_junk s n \<and> os_junk s n < 2 ^ 42 \<Longrightarrow> junk_cpus s \<subseteq> {..<42}"
proof -
  assume j: "\<forall>n. 0 \<le> os_junk s n \<and> os_junk s n < 2 ^ 42"
  have "\<not> bit (os_junk s (os_tick s)) n" if "42 \<le> n" for n
  proof -
    have "(2 :: int) ^ 42 \<le> 2 ^ n" using that by (rule power_increasing) simp
    with j have "os_junk s (os_tick s) div 2 ^ n = 0" by (meson div_pos_pos_trivial order_less_le_trans)
    then show ?thesis by (simp add: bit_iff_odd)
  qed
  then show ?thesis by (force simp: junk_cpus_def not_le)
qed

text \<open>The list and its elements are allocated, filled, sent and released.\<close>

lemma thread_get_result:
  assumes wf: "heap_wf s" and q: "tq_length q = length (tq_head q)"
    and cpus: "\<forall>th \<in> set (os_threads s). t_cpus th \<subseteq> {..<42}" and junk: "\<forall>n. 0 \<le> os_junk s n \<and> os_junk s n < 2 ^ 42"
  shows "\<exists>reply s'. dabbad_thread_get q s = Some (reply, s') \<and> acq s [] s' \<and> os_threads s' = os_threads s \<and>
    (case reply of None \<Rightarrow> tq_head q = [] \<or> \<not> faultless s
     | Some r \<Rightarrow> map ti_id r = map pt_id (tq_head q) \<and> map ti_type r = map (type_code \<circ> pt_type) (tq_head q))"
proof -
  obtain lst s1 where m: "malloc s = (lst, s1)" by force
  consider (empty) "tq_head q = []" | (none) "tq_head q \<noteq> []" "lst = None" | (some) b where "tq_head q \<noteq> []" "lst = Some b" by fastforce
  then show ?thesis
  proof cases
    case empty
    with q show ?thesis by (simp add: dabbad_thread_get_def dabbad_thread_length_get_def acq_refl)
  next
    case none
    note al = allocs_malloc [OF m wf]
    have "\<not> faultless s" using malloc_faultless [OF _ m] none by auto
    with none m q al show ?thesis
      using acq_allocs [OF acq_refl al] by (auto simp: dabbad_thread_get_def dabbad_thread_length_get_def allocs_def mem_only_def)
  next
    case some
    obtain ok es s2 where l: "list_alloc 3 (length (tq_head q)) s1 = ((ok, es), s2)" by (metis surj_pair)
    note la = list_reply_alloc [OF wf m [unfolded some(2)] l]
    have fr: "os_threads s2 = os_threads s" "os_junk s2 = os_junk s" using la(3) by (simp_all add: mem_only_def)
    have "junk_cpus s2 \<subseteq> {..<42}" using junk fr by (intro junk_cpus_bound) simp
    from thread_get_fill_result [OF la(1) _ this, of "tq_head q" es] la(2) cpus fr obtain r s3 where
      f: "thread_get_fill (tq_head q) es (junk_cpus s2) s2 = Some (r, s3)" "acq s (list_blocks es @ [b]) s3" "os_threads s3 = os_threads s"
        "map ti_id r = map pt_id (tq_head q)" "map ti_type r = map (type_code \<circ> pt_type) (tq_head q)" by auto
    note eq = dabbad_thread_get_def dabbad_thread_length_get_def
    show ?thesis
    proof (cases ok)
      case True
      from list_reply_free [OF f(2)] some m l q f True show ?thesis by (auto simp: eq)
    next
      case False
      from list_reply_free [OF la(1)] some m l q fr False la(4) show ?thesis by (auto simp: eq)
    qed
  qed
qed


text \<open>Changing a thread touches nothing but the scheduling of that thread.\<close>

lemma upd_thr_keys:
  assumes "\<And>t. thr_key (f t) = thr_key t"
  shows "map thr_key (os_threads (upd_thr i f s)) = map thr_key (os_threads s)" "thread_ids (upd_thr i f s) = thread_ids s"
proof -
  have "t_id (f t) = t_id t" for t using assms [of t] by (simp add: thr_key_def)
  then show "thread_ids (upd_thr i f s) = thread_ids s" by simp
  show "map thr_key (os_threads (upd_thr i f s)) = map thr_key (os_threads s)"
    using assms by (simp add: upd_thr_def)
qed

lemma on_thr_acq:
  assumes "\<And>t. thr_key (f t) = thr_key t" and "on_thr i f s = (rc, s')"
  shows "acq s [] s'"
proof -
  from assms(2) consider "s' = tick s" | "s' = upd_thr i f (tick s)"
    by (auto simp: on_thr_def split: outcome.splits if_splits)
  then have "thr_ext s s'" using upd_thr_keys [OF assms(1), of i "tick s"]
    by cases (auto simp: thr_ext_def thread_ids_def)
  then show ?thesis using on_thr_frame [of i f s] assms(2) by (simp add: acq_def kept_def heap_wf_def maps_wf_def)
qed

lemma acq_trans0: "acq s [] s1 \<Longrightarrow> acq s1 [] s2 \<Longrightarrow> acq s [] s2"
  unfolding acq_def by (auto intro: kept_trans) (metis domI)

lemma param_set_acq:
  assumes "dabbad_thread_sched_param_set t prio policy s = (rc, s')"
  shows "acq s [] s'"
proof -
  from assms consider "s' = tick s" | f where "on_thr (pt_id t) f s = (rc, s')" "\<And>u. thr_key (f u) = thr_key u"
    by (auto simp: dabbad_thread_sched_param_set_def pthread_setschedparam_def thr_key_def split: option.splits if_splits)
  then show ?thesis by cases (auto simp: acq_refl intro: on_thr_acq)
qed

lemma affinity_set_acq:
  assumes "dabbad_thread_sched_affinity_set t run_on s = (rc, s')"
  shows "acq s [] s'"
proof -
  from assms consider "s' = tick s" | f where "on_thr (pt_id t) f s = (rc, s')" "\<And>u. thr_key (f u) = thr_key u"
    by (auto simp: dabbad_thread_sched_affinity_set_def pthread_setaffinity_def thr_key_def split: if_splits)
  then show ?thesis by cases (auto simp: acq_refl intro: on_thr_acq)
qed

lemma thread_modify_acq:
  assumes "dabbad_thread_modify m q s = Some (rc, s')"
  shows "acq s [] s'"
proof (cases "dabbad_thread_find (tm_id m) q")
  case None
  with assms show ?thesis by (simp add: dabbad_thread_modify_def acq_refl)
next
  case (Some t)
  obtain a1 prio pol s1 where p: "dabbad_thread_sched_param_get t s = ((a1, prio, pol), s1)" by (metis surj_pair)
  obtain a2 r s2 where f: "dabbad_thread_sched_affinity_get t (junk_cpus s) s1 = ((a2, r), s2)" by (metis surj_pair)
  have a: "acq s [] s2"
    using sched_param_get_state [of t s] affinity_get_state [of t "junk_cpus s" s1] p f acq_refl [of s] by simp
  let ?prio = "case tm_sched_priority m of None \<Rightarrow> prio | Some x \<Rightarrow> ucast x"
  let ?pol = "case tm_sched_policy m of None \<Rightarrow> pol | Some x \<Rightarrow> ucast x"
  obtain rc3 s3 where st: "dabbad_thread_sched_param_set t ?prio ?pol s2 = (rc3, s3)" by force
  with assms Some p f obtain run_on where "s' = s3 \<or> dabbad_thread_sched_affinity_set t run_on s3 = (rc, s')"
    by (auto simp: dabbad_thread_modify_def Let_def bind_eq_Some_conv split: if_splits)
  with a param_set_acq [OF st] affinity_set_acq acq_trans0 show ?thesis by metis
qed

lemma capabilities_fill_state: "acq s bs s1 \<Longrightarrow> acq s bs (snd (thread_capabilities_fill ps s1))"
proof (induction ps arbitrary: s1)
  case (Cons p ps)
  obtain lo s2 where l: "sched_get_priority_min p s1 = (lo, s2)" by force
  obtain hi s3 where h: "sched_get_priority_max p s2 = (hi, s3)" by force
  have "acq s bs s2" using Cons.prems l
    by (auto simp: sched_get_priority_min_def syscall_def split: outcome.splits option.splits intro!: acq_tick [OF Cons.prems])
  then have "acq s bs s3" using h
    by (auto simp: sched_get_priority_max_def syscall_def split: outcome.splits option.splits intro!: acq_tick [of s bs s2])
  with Cons.IH [of s3] l h show ?case by (simp add: Let_def split_beta)
qed simp

lemma capabilities_get_acq:
  assumes "heap_wf s" and "dabbad_thread_capabilities_get s = Some (r, s')"
  shows "acq s [] s'"
proof -
  obtain lst s1 where m: "malloc s = (lst, s1)" by force
  with assms(2) obtain b where b: "lst = Some b" by (cases lst) (auto simp: dabbad_thread_capabilities_get_def)
  obtain ok es s2 where l: "list_alloc 1 3 s1 = ((ok, es), s2)" by (metis surj_pair)
  note la = list_reply_alloc [OF assms(1) m [unfolded b] l]
  let ?s3 = "if ok then snd (thread_capabilities_fill [SCHED_FIFO, SCHED_RR, SCHED_OTHER] s2) else s2"
  have "acq s (list_blocks es @ [b]) ?s3"
    using la(1) capabilities_fill_state [OF la(1)] by (simp del: thread_capabilities_fill.simps)
  from list_reply_free [OF this] assms(2) m b l show ?thesis
    by (auto simp: dabbad_thread_capabilities_get_def Let_def split_beta numeral_3_eq_3
        simp del: thread_capabilities_fill.simps split: if_splits)
qed


section \<open>Captures and replays\<close>

lemma fd_path_checked_acq:
  assumes a: "acq s bs s1" and wf: "heap_wf s"
  shows "\<exists>r s2. fd_path_checked fd n s1 = Some (r, s2) \<and> acq s bs s2"
proof -
  obtain r1 st1 s2 where f1: "fstat fd s1 = ((r1, st1), s2)" by (metis surj_pair)
  obtain r2 st2 s3 where f2: "stat_link fd s2 = ((r2, st2), s3)" by (metis surj_pair)
  have a2: "acq s bs s2" using f1
    by (auto simp: fstat_def syscall_def split: outcome.splits option.splits intro!: acq_tick [OF a])
  have a3: "acq s bs s3" using f2
    by (auto simp: stat_link_def syscall_def split: outcome.splits option.splits intro!: acq_tick [OF a2])
  obtain rp s4 where rl: "realpath_link fd s3 = (rp, s4)" by force
  have wf3: "heap_wf (tick s3)" using acq_heap_wf [OF a3 wf] by (simp add: heap_wf_def)
  have a4: "acq s (somes [map_option fst rp] @ bs) s4"
  proof (cases "link_target (fd_of (tick s3) fd) (tick s3)")
    case None
    with rl a3 show ?thesis
      by (auto simp: realpath_link_def syscall_def split: outcome.splits intro!: acq_tick [OF a3])
  next
    case (Some p)
    obtain b s5 where m: "malloc (tick s3) = (b, s5)" by force
    have "acq s (somes [b] @ bs) s5" using acq_allocs [OF _ allocs_malloc [OF m wf3]] a3 by simp
    with rl Some m a3 show ?thesis
      by (cases "os_sched s3 (os_tick s3)"; cases b)
        (auto simp: realpath_link_def syscall_def intro!: acq_tick [OF a3])
  qed
  show ?thesis
  proof (cases rp)
    case None
    with a a2 a3 a4 f1 f2 rl show ?thesis
      by (auto simp: fd_path_checked_def split: option.split)
  next
    case (Some x)
    obtain b p where x: "x = (b, p)" by force
    from acq_free [of s "b # bs" s4 b] a4 Some x obtain s5 where "free (Some b) s4 = Some s5" "acq s bs s5" by auto
    with a a2 a3 f1 f2 rl Some x show ?thesis by (auto simp: fd_path_checked_def split: option.split)
  qed
qed

lemma fd_to_path_acq:
  assumes a: "acq s bs s1" and wf: "heap_wf s" and n: "0 < fd" "0 < n"
  shows "\<exists>r s2. fd_to_path fd n s1 = Some (r, s2) \<and> acq s bs s2"
proof -
  obtain dir s2 where o: "opendir s1 = (dir, s2)" by force
  have fr: "os_heap s2 = os_heap s1" "os_maps s2 = os_maps s1" "kept s1 s2"
    using o by (auto simp: opendir_def syscall_def install_fd_def kept_def thr_ext_def thread_ids_def heap_wf_def maps_wf_def
        split: outcome.splits option.splits)
  have fd: "os_fd s2 = os_fd s1 \<or> os_fd s1 (nat dir) = None \<and> os_fd s2 = (os_fd s1)(nat dir := Some Fd_Dir)"
    and new: "0 \<le> dir \<Longrightarrow> os_fd s1 (nat dir) = None"
    using o by (auto simp: opendir_def syscall_def install_fd_def split: outcome.splits option.splits dest!: find_SomeD)
  have a2: "acq s bs s2" using acq_new_fd [OF a fr(3,1,2) fd] .
  from fd_path_checked_acq [OF a2 wf, of fd n] obtain r s3 where c: "fd_path_checked fd n s2 = Some (r, s3)" "acq s bs s3" by blast
  show ?thesis
  proof (cases "dir < 0")
    case True
    with o n a2 show ?thesis by (auto simp: fd_to_path_def)
  next
    case False
    then have "os_fd s (nat dir) = None" using new acq_fd [OF a, of "nat dir"] by (cases "os_fd s (nat dir)") auto
    with acq_close [OF c(2)] False o n c(1) show ?thesis by (auto simp: fd_to_path_def)
  qed
qed

lemma devname_acq:
  assumes "acq s bs s1" and "0 \<le> i"
  shows "\<exists>r s2. ldab_ifindex_to_devname i IFNAMSIZ s1 = Some (r, s2) \<and> acq s bs s2"
proof -
  obtain r s2 where k: "dev_kernel_request (empty_ifreq\<lparr>ifr_ifindex := i\<rparr>) SIOCGIFNAME s1 = (r, s2)" by (metis surj_pair)
  have "acq s bs s2" using dev_kernel_request_frame [of "empty_ifreq\<lparr>ifr_ifindex := i\<rparr>" SIOCGIFNAME s1] k
      dev_kernel_request_fd [of "empty_ifreq\<lparr>ifr_ifindex := i\<rparr>" SIOCGIFNAME s1] by (intro acq_tick [OF assms(1)]) simp_all
  with assms k show ?thesis by (cases r) (auto simp: ldab_ifindex_to_devname_def)
qed

lemma replay_get_fill_result:
  assumes "acq s bs s1" and "heap_wf s" and "length rs = length es"
    and "\<forall>r \<in> set rs. 0 < tx_pcap_fd (pr_tx r) \<and> 0 \<le> ifindex (tx_mmap (pr_tx r))"
  shows "\<exists>is s2. replay_get_fill rs es s1 = Some (is, s2) \<and> acq s bs s2 \<and> map ri_id is = map replay_id rs \<and>
    map ri_frame_nr is = map (\<lambda>r. ucast (tp_frame_nr (layout (tx_mmap (pr_tx r))))) rs \<and>
    map ri_frame_size is = map (\<lambda>r. ucast (tp_frame_size (layout (tx_mmap (pr_tx r))))) rs"
  using assms
proof (induction rs arbitrary: es s1)
  case Nil
  then show ?case by simp
next
  case (Cons r rs)
  from Cons.prems(3) obtain e es' where es: "es = e # es'" "length rs = length es'" by (cases es) auto
  from fd_to_path_acq [OF Cons.prems(1,2), of "tx_pcap_fd (pr_tx r)" NAME_MAX] Cons.prems(4) obtain r1 s2 where
    f: "fd_to_path (tx_pcap_fd (pr_tx r)) NAME_MAX s1 = Some (r1, s2)" "acq s bs s2" by (auto simp: NAME_MAX_def)
  from devname_acq [OF f(2), of "ifindex (tx_mmap (pr_tx r))"] Cons.prems(4) obtain r2 s3 where
    g: "ldab_ifindex_to_devname (ifindex (tx_mmap (pr_tx r))) IFNAMSIZ s2 = Some (r2, s3)" "acq s bs s3" by auto
  from Cons.IH [OF g(2) Cons.prems(2) es(2)] Cons.prems(4) f(1) g(1) es(1) show ?case
    by (cases r1; cases r2) auto
qed


lemma acq_sfp_fill:
  assumes "acq s (pbuf_blocks p @ bs) s1" and "heap_wf s" and "pb_arr p \<noteq> None"
  shows "\<exists>rc p' s2. pbuf_sfp_fill fs p s1 = Some ((rc, p'), s2) \<and> acq s (pbuf_blocks p' @ bs) s2 \<and>
    (pb_arr p' = None \<longrightarrow> pb_filter p' = [])"
  using assms
proof (induction fs arbitrary: p s1)
  case Nil
  then show ?case by auto
next
  case (Cons f fs)
  obtain b s2 where m: "malloc s1 = (b, s2)" by force
  have a2: "acq s (somes [b] @ pbuf_blocks p @ bs) s2"
    using acq_allocs [OF Cons.prems(1) allocs_malloc [OF m acq_heap_wf [OF Cons.prems(1,2)]]] .
  show ?case
  proof (cases b)
    case None
    then have a2: "acq s (pbuf_blocks p @ bs) s2" using a2 by simp
    then have "pbuf_owned p s2" using Cons.prems(3) by (auto simp: pbuf_owned_def acq_def)
    from dabbad_pbuf_sfp_destroy_ok [OF this] acq_drop [OF a2] m None show ?thesis
      by (simp add: dabba__sock_fprog__init_def pbuf_blocks_def)
  next
    case (Some c)
    let ?p = "p\<lparr>pb_filter := pb_filter p @ [(c, pbuf_of_sock_filter f)]\<rparr>"
    have "acq s (pbuf_blocks ?p @ bs) s2" by (rule acq_perm [OF a2]) (simp add: Some pbuf_blocks_def)
    from Cons.IH [OF this Cons.prems(2)] Cons.prems(3) m Some show ?thesis by simp
  qed
qed

lemma acq_sfp_2_pbuf:
  assumes a: "acq s bs s1" and wf: "heap_wf s" and f: "sfp_ok f"
  shows "\<exists>rc p s2. dabbad_sfp_2_pbuf_sfp f dabba__sock_fprog__init s1 = Some ((rc, p), s2) \<and>
    acq s (pbuf_blocks p @ bs) s2 \<and> (pb_arr p = None \<longrightarrow> pb_filter p = [])"
proof -
  obtain b s2 where m: "malloc s1 = (b, s2)" by force
  have a2: "acq s (somes [b] @ bs) s2" using acq_allocs [OF a allocs_malloc [OF m acq_heap_wf [OF a wf]]] .
  have len: "\<not> length (fp_filter f) < unat (fp_len f)"
    using f sock_filter_validD(2) [of f 1] by (auto simp: sfp_ok_def zero_sfp_def program_def)
  let ?p = "dabba__sock_fprog__init\<lparr>pb_arr := b, pb_filter := []\<rparr>"
  show ?thesis
  proof (cases b)
    case None
    with a2 m show ?thesis by (simp add: dabbad_sfp_2_pbuf_sfp_def dabba__sock_fprog__init_def pbuf_blocks_def)
  next
    case (Some c)
    with a2 have "acq s (pbuf_blocks ?p @ bs) s2" by (simp add: pbuf_blocks_def)
    from acq_sfp_fill [OF this wf, of "take (unat (fp_len f)) (fp_filter f)"] Some m len show ?thesis
      by (auto simp: dabbad_sfp_2_pbuf_sfp_def)
  qed
qed

lemma acq_pbuf_destroy:
  assumes "acq s (pbuf_blocks p @ bs) s1" and "pb_arr p = None \<longrightarrow> pb_filter p = []"
  shows "\<exists>s2. dabbad_pbuf_sfp_destroy p s1 = Some (dabba__sock_fprog__init, s2) \<and> acq s bs s2"
proof (cases "pb_arr p")
  case None
  with assms show ?thesis by (simp add: dabbad_pbuf_sfp_destroy_def pbuf_blocks_def free_def)
next
  case (Some c)
  then have "pbuf_owned p s1" using assms(1) by (auto simp: pbuf_owned_def acq_def)
  from dabbad_pbuf_sfp_destroy_ok [OF this] acq_drop [OF assms(1)] show ?thesis by auto
qed

text \<open>The blocks of the filter messages in a reply.\<close>

definition sfp_blocks :: "capture_info list \<Rightarrow> nat list" where
  "sfp_blocks is = concat (map (pbuf_blocks \<circ> ci_sfp) is)"

lemma sfp_blocks_simps [simp]:
  "sfp_blocks [] = []" "sfp_blocks (i # is) = pbuf_blocks (ci_sfp i) @ sfp_blocks is"
  by (simp_all add: sfp_blocks_def)

definition sfps_ok :: "capture_info list \<Rightarrow> bool" where
  "sfps_ok is \<longleftrightarrow> (\<forall>i \<in> set is. pb_arr (ci_sfp i) = None \<longrightarrow> pb_filter (ci_sfp i) = [])"

lemma capture_get_fill_result:
  assumes "acq s bs s1" and "heap_wf s" and "length cs = length es"
    and "\<forall>c \<in> set cs. 0 < rx_pcap_fd (pc_rx c) \<and> 0 \<le> ifindex (rx_mmap (pc_rx c)) \<and> sfp_ok (rx_sfp (pc_rx c))"
  shows "\<exists>is s2. capture_get_fill cs es s1 = Some (is, s2) \<and> acq s (sfp_blocks is @ bs) s2 \<and> sfps_ok is \<and> length is = length cs \<and>
    map ci_id is = map capture_id cs \<and>
    map ci_frame_nr is = map (\<lambda>c. ucast (tp_frame_nr (layout (rx_mmap (pc_rx c))))) cs \<and>
    map ci_frame_size is = map (\<lambda>c. ucast (tp_frame_size (layout (rx_mmap (pc_rx c))))) cs"
  using assms
proof (induction cs arbitrary: es s1 bs)
  case Nil
  then show ?case by (simp add: sfps_ok_def)
next
  case (Cons c cs)
  from Cons.prems(3) obtain e es' where es: "es = e # es'" "length cs = length es'" by (cases es) auto
  from fd_to_path_acq [OF Cons.prems(1,2), of "rx_pcap_fd (pc_rx c)" NAME_MAX] Cons.prems(4) obtain r1 s2 where
    f: "fd_to_path (rx_pcap_fd (pc_rx c)) NAME_MAX s1 = Some (r1, s2)" "acq s bs s2" by (auto simp: NAME_MAX_def)
  from devname_acq [OF f(2), of "ifindex (rx_mmap (pc_rx c))"] Cons.prems(4) obtain r2 s3 where
    g: "ldab_ifindex_to_devname (ifindex (rx_mmap (pc_rx c))) IFNAMSIZ s2 = Some (r2, s3)" "acq s bs s3" by auto
  from acq_sfp_2_pbuf [OF g(2) Cons.prems(2)] Cons.prems(4) obtain rc p s4 where
    h: "dabbad_sfp_2_pbuf_sfp (rx_sfp (pc_rx c)) dabba__sock_fprog__init s3 = Some ((rc, p), s4)"
      "acq s (pbuf_blocks p @ bs) s4" "pb_arr p = None \<longrightarrow> pb_filter p = []" by fastforce
  from Cons.IH [OF h(2) Cons.prems(2) es(2)] Cons.prems(4) obtain "is" s5 where
    i: "capture_get_fill cs es' s4 = Some (is, s5)" "acq s (sfp_blocks is @ pbuf_blocks p @ bs) s5" "sfps_ok is" "length is = length cs"
      "map ci_id is = map capture_id cs"
      "map ci_frame_nr is = map (\<lambda>c. ucast (tp_frame_nr (layout (rx_mmap (pc_rx c))))) cs"
      "map ci_frame_size is = map (\<lambda>c. ucast (tp_frame_size (layout (rx_mmap (pc_rx c))))) cs" by auto
  have "acq s (pbuf_blocks p @ sfp_blocks is @ bs) s5" by (rule acq_perm [OF i(2)]) simp
  with f(1) g(1) h(1,3) i es(1) show ?case by (cases r1; cases r2) (auto simp: sfps_ok_def)
qed

lemma capture_get_free_result:
  assumes "acq s (sfp_blocks is @ list_blocks es @ bs) s1" and "sfps_ok is" and "length is = length es"
    and "\<forall>(e, i) \<in> set (zip es is). e = None \<longrightarrow> pbuf_blocks (ci_sfp i) = []"
  shows "case capture_get_free es is s1 of
      None \<Rightarrow> \<exists>b parts. Some (b, parts) \<in> set es \<and> None \<in> set parts | Some s2 \<Rightarrow> acq s bs s2"
  using assms
proof (induction es arbitrary: "is" s1)
  case Nil
  then show ?case by simp
next
  case (Cons e es)
  then obtain i is' where is': "is = i # is'" "length is' = length es" by (cases "is") auto
  show ?case
  proof (cases e)
    case None
    then have "acq s (sfp_blocks is' @ list_blocks es @ bs) s1" using Cons.prems is' by simp
    from Cons.IH [OF this] Cons.prems is' None show ?thesis by (fastforce simp: sfps_ok_def split: option.splits)
  next
    case (Some x)
    obtain b parts where x: "x = (b, parts)" by force
    show ?thesis
    proof (cases "None \<in> set parts")
      case True
      with Some x show ?thesis by auto
    next
      case False
      have a0: "acq s (pbuf_blocks (ci_sfp i) @ (somes parts @ b # sfp_blocks is' @ list_blocks es @ bs)) s1"
        by (rule acq_perm [OF Cons.prems(1)]) (simp add: is' Some x)
      have "pb_arr (ci_sfp i) = None \<longrightarrow> pb_filter (ci_sfp i) = []" using Cons.prems(2) is' by (simp add: sfps_ok_def)
      from acq_pbuf_destroy [OF a0 this] obtain s2 where d: "dabbad_pbuf_sfp_destroy (ci_sfp i) s1 = Some (dabba__sock_fprog__init, s2)"
        and a2: "acq s (somes parts @ b # sfp_blocks is' @ list_blocks es @ bs) s2" by blast
      have f: "free_each parts s2 = Some (s2\<lparr>os_heap := os_heap s2 - set (somes parts)\<rparr>)" (is "_ = Some ?s3")
        using a2 by (intro free_each_ok) (auto simp: acq_def)
      from acq_free [OF acq_drop [OF a2], of b] obtain s4 where
        g: "free (Some b) ?s3 = Some s4" "acq s (sfp_blocks is' @ list_blocks es @ bs) s4" by auto
      from Cons.IH [OF g(2)] Cons.prems is' have "case capture_get_free es is' s4 of
          None \<Rightarrow> \<exists>b parts. Some (b, parts) \<in> set es \<and> None \<in> set parts | Some s2 \<Rightarrow> acq s bs s2"
        by (auto simp: sfps_ok_def)
      with d f g(1) Some x False is' show ?thesis by (auto split: option.splits)
    qed
  qed
qed

lemma inv_sessions: "daemon_inv d \<Longrightarrow> x \<in> set (sessions d) \<Longrightarrow> session_ok (d_os d) x"
  by (simp add: daemon_inv_def owned_def)

lemma inv_replay_fd: "daemon_inv d \<Longrightarrow> r \<in> set (replays d) \<Longrightarrow> 0 < tx_pcap_fd (pr_tx r) \<and> 0 \<le> ifindex (tx_mmap (pr_tx r))"
  using inv_sessions [of d "replay_session r"] by (simp add: sessions_def session_ok_def)

lemma inv_capture_fd: "daemon_inv d \<Longrightarrow> c \<in> set (captures d) \<Longrightarrow> 0 < rx_pcap_fd (pc_rx c) \<and> 0 \<le> ifindex (rx_mmap (pc_rx c))"
  using inv_sessions [of d "capture_session c"] by (simp add: sessions_def session_ok_def)

lemma inv_capture_sfp: "daemon_inv d \<Longrightarrow> c \<in> set (captures d) \<Longrightarrow> sfp_ok (rx_sfp (pc_rx c))"
  by (simp add: daemon_inv_def)

lemma replay_get_result:
  assumes inv: "daemon_inv d"
  shows "\<exists>reply d'. dabbad_replay_get d = Some (reply, d') \<and> start_failed d d' \<and>
    (case reply of None \<Rightarrow> replays d = [] \<or> \<not> faultless (d_os d)
     | Some is \<Rightarrow> map ri_id is = map replay_id (replays d) \<and>
         map ri_frame_nr is = map (\<lambda>r. ucast (tp_frame_nr (layout (tx_mmap (pr_tx r))))) (replays d) \<and>
         map ri_frame_size is = map (\<lambda>r. ucast (tp_frame_size (layout (tx_mmap (pr_tx r))))) (replays d))"
proof -
  let ?s = "d_os d"
  have wf: "heap_wf ?s" using daemon_inv_wf [OF inv] by simp
  have len: "tq_length (d_replays d) = length (replays d)" using inv by (simp add: daemon_inv_def)
  note eq = dabbad_replay_get_def dabbad_replay_length_get_def len
  obtain lst s1 where m: "malloc ?s = (lst, s1)" by force
  consider (empty) "replays d = []" | (none) "replays d \<noteq> []" "lst = None" | (some) b where "replays d \<noteq> []" "lst = Some b" by fastforce
  then show ?thesis
  proof cases
    case empty
    then show ?thesis by (simp add: eq start_failed_def acq_refl)
  next
    case none
    note al = allocs_malloc [OF m wf]
    have "\<not> faultless ?s" using malloc_faultless [OF _ m] none by auto
    with none m acq_allocs [OF acq_refl al] show ?thesis by (auto simp: eq intro: start_failedI)
  next
    case some
    obtain ok es s2 where l: "list_alloc 4 (length (replays d)) s1 = ((ok, es), s2)" by (metis surj_pair)
    note la = list_reply_alloc [OF wf m [unfolded some(2)] l]
    from replay_get_fill_result [OF la(1) wf, of "replays d" es] la(2) inv_replay_fd [OF inv] obtain "is" s3 where
      f: "replay_get_fill (replays d) es s2 = Some (is, s3)" "acq ?s (list_blocks es @ [b]) s3" "map ri_id is = map replay_id (replays d)"
        "map ri_frame_nr is = map (\<lambda>r. ucast (tp_frame_nr (layout (tx_mmap (pr_tx r))))) (replays d)"
        "map ri_frame_size is = map (\<lambda>r. ucast (tp_frame_size (layout (tx_mmap (pr_tx r))))) (replays d)" by auto
    show ?thesis
    proof (cases ok)
      case True
      from list_reply_free [OF f(2)] some m l f True show ?thesis by (auto simp: eq intro: start_failedI)
    next
      case False
      from list_reply_free [OF la(1)] some m l False la(4) show ?thesis by (auto simp: eq intro: start_failedI)
    qed
  qed
qed

lemma capture_get_result:
  assumes inv: "daemon_inv d"
  shows "case dabbad_capture_get d of
      None \<Rightarrow> \<not> faultless (d_os d)
    | Some (reply, d') \<Rightarrow> start_failed d d' \<and>
        (case reply of None \<Rightarrow> captures d = [] \<or> \<not> faultless (d_os d)
         | Some is \<Rightarrow> map ci_id is = map capture_id (captures d) \<and>
             map ci_frame_nr is = map (\<lambda>c. ucast (tp_frame_nr (layout (rx_mmap (pc_rx c))))) (captures d) \<and>
             map ci_frame_size is = map (\<lambda>c. ucast (tp_frame_size (layout (rx_mmap (pc_rx c))))) (captures d))"
proof -
  let ?s = "d_os d"
  have wf: "heap_wf ?s" using daemon_inv_wf [OF inv] by simp
  have len: "tq_length (d_captures d) = length (captures d)" using inv by (simp add: daemon_inv_def)
  note eq = dabbad_capture_get_def dabbad_capture_length_get_def len
  obtain lst s1 where m: "malloc ?s = (lst, s1)" by force
  consider (empty) "captures d = []" | (none) "captures d \<noteq> []" "lst = None" | (some) b where "captures d \<noteq> []" "lst = Some b" by fastforce
  then show ?thesis
  proof cases
    case empty
    then show ?thesis by (simp add: eq start_failed_def acq_refl)
  next
    case none
    note al = allocs_malloc [OF m wf]
    have "\<not> faultless ?s" using malloc_faultless [OF _ m] none by auto
    with none m acq_allocs [OF acq_refl al] show ?thesis by (auto simp: eq intro: start_failedI)
  next
    case some
    obtain ok es s2 where l: "list_alloc 5 (length (captures d)) s1 = ((ok, es), s2)" by (metis surj_pair)
    note la = list_reply_alloc [OF wf m [unfolded some(2)] l]
    show ?thesis
    proof (cases ok)
      case True
      from capture_get_fill_result [OF la(1) wf, of "captures d" es] la(2) inv_capture_fd [OF inv] inv_capture_sfp [OF inv] obtain "is" s3 where
        f: "capture_get_fill (captures d) es s2 = Some (is, s3)" "acq ?s (sfp_blocks is @ list_blocks es @ [b]) s3" "sfps_ok is"
          "length is = length (captures d)" "map ci_id is = map capture_id (captures d)"
          "map ci_frame_nr is = map (\<lambda>c. ucast (tp_frame_nr (layout (rx_mmap (pc_rx c))))) (captures d)"
          "map ci_frame_size is = map (\<lambda>c. ucast (tp_frame_size (layout (rx_mmap (pc_rx c))))) (captures d)" by auto
      have c: "list_all (complete 5) es" using la(5) True by simp
      then have "\<not> (\<exists>b parts. Some (b, parts) \<in> set es \<and> None \<in> set parts)" by (force simp: list_all_iff complete_def)
      moreover have "\<forall>(e, i) \<in> set (zip es is). e = None \<longrightarrow> pbuf_blocks (ci_sfp i) = []"
        using c by (auto simp: list_all_iff complete_def dest!: set_zip_leftD)
      ultimately obtain s4 where g: "capture_get_free es is s3 = Some s4" "acq ?s [b] s4"
        using capture_get_free_result [OF f(2,3)] f(4) la(2) by (auto split: option.splits)
      from acq_free [OF g(2), of b] g(1) some m l f True show ?thesis by (auto simp: eq intro: start_failedI)
    next
      case False
      let ?is = "map (\<lambda>_. dabba__capture__init) es"
      have z: "pbuf_blocks (ci_sfp dabba__capture__init) = []"
        by (simp add: dabba__capture__init_def dabba__sock_fprog__init_def pbuf_blocks_def)
      then have "sfp_blocks (map (\<lambda>_. dabba__capture__init) xs) = []" for xs :: "rpc_entry list"
        by (induction xs) simp_all
      then have "acq ?s (sfp_blocks ?is @ list_blocks es @ [b]) s2" using la(1) by simp
      moreover have "sfps_ok ?is" by (auto simp: sfps_ok_def dabba__capture__init_def dabba__sock_fprog__init_def)
      ultimately have r: "case capture_get_free es ?is s2 of
        None \<Rightarrow> \<exists>b parts. Some (b, parts) \<in> set es \<and> None \<in> set parts | Some s2 \<Rightarrow> acq ?s [b] s2"
        using z by (intro capture_get_free_result) (auto dest!: set_zip_rightD)
      have "\<not> faultless ?s" using la(4) False by auto
      with r acq_free [of ?s "[b]" _ b] some m l False show ?thesis
        by (fastforce simp: eq split: option.splits intro: start_failedI)
    qed
  qed
qed

end
