(* ===== verification/Service.thy ===== *)
theory Service
  imports Listing
begin

text \<open>
  The daemon as a service: the remote procedures of \<^verbatim>\<open>src/libdabba-rpc/dabba.proto\<close> that act on captures, replays and
  threads behind one dispatcher, the runs of the daemon as a step relation (a procedure is served, a cancelled
  thread ends, a packet thread moves its file, some other work gives back all it takes), the invariant of every reachable state, and the
  abstract service the daemon implements: a table of running sessions.
\<close>

section \<open>The service\<close>

datatype request =
    Capture_Start capture_request | Capture_Stop nat | Capture_Stop_All | Capture_Get
  | Replay_Start replay_request | Replay_Stop nat | Replay_Stop_All | Replay_Get
  | Thread_Modify thread_request | Thread_Get | Thread_Capabilities_Get

datatype reply =
    Code int
  | Capture_List "capture_info list option"
  | Replay_List "replay_info list option"
  | Thread_List "thread_info list option"
  | Capabilities_List "thread_capabilities list option"

definition coded :: "(int \<times> daemon) option \<Rightarrow> (reply \<times> daemon) option" where
  "coded r = map_option (\<lambda>(rc, d). (Code rc, d)) r"

fun dispatch :: "request \<Rightarrow> daemon \<Rightarrow> (reply \<times> daemon) option" where
  "dispatch (Capture_Start m) d = coded (dabbad_capture_start m d)"
| "dispatch (Capture_Stop i) d = coded (dabbad_capture_stop i d)"
| "dispatch Capture_Stop_All d = coded (dabbad_capture_stop_all d)"
| "dispatch Capture_Get d = map_option (\<lambda>(r, d). (Capture_List r, d)) (dabbad_capture_get d)"
| "dispatch (Replay_Start m) d = coded (dabbad_replay_start m d)"
| "dispatch (Replay_Stop i) d = coded (dabbad_replay_stop i d)"
| "dispatch Replay_Stop_All d = coded (dabbad_replay_stop_all d)"
| "dispatch Replay_Get d = map_option (\<lambda>(r, d). (Replay_List r, d)) (dabbad_replay_get d)"
| "dispatch (Thread_Modify m) d =
     map_option (\<lambda>(rc, s). (Code rc, d\<lparr>d_os := s\<rparr>)) (dabbad_thread_modify m (d_threads d) (d_os d))"
| "dispatch Thread_Get d =
     map_option (\<lambda>(r, s). (Thread_List r, d\<lparr>d_os := s\<rparr>)) (dabbad_thread_get (d_threads d) (d_os d))"
| "dispatch Thread_Capabilities_Get d =
     map_option (\<lambda>(r, s). (Capabilities_List r, d\<lparr>d_os := s\<rparr>)) (dabbad_thread_capabilities_get (d_os d))"

section \<open>Runs of the daemon\<close>

definition init_daemon :: "os \<Rightarrow> daemon" where
  "init_daemon s = \<lparr>d_os = s, d_threads = empty_tailq, d_captures = empty_tailq, d_replays = empty_tailq\<rparr>"

definition idle :: "os \<Rightarrow> bool" where
  "idle s \<longleftrightarrow> os_heap s = {} \<and> os_maps s = Map.empty \<and> os_threads s = [] \<and> kernel_ok s"

fun moved :: "ofd option \<Rightarrow> ofd option \<Rightarrow> bool" where
  "moved (Some (Reg ino pos rd wr ap)) d \<longleftrightarrow> (\<exists>pos'. d = Some (Reg ino pos' rd wr ap))"
| "moved d d' \<longleftrightarrow> d' = d"

inductive daemon_step :: "daemon \<Rightarrow> (request \<times> reply) option \<Rightarrow> daemon \<Rightarrow> bool" where
  rpc: "dispatch q d = Some (r, d') \<Longrightarrow> daemon_step d (Some (q, r)) d'"
| ended: "th \<in> set (os_threads (d_os d)) \<Longrightarrow> t_cancel th \<Longrightarrow>
    daemon_step d None (d\<lparr>d_os := (d_os d)\<lparr>os_threads := filter (\<lambda>u. t_id u \<noteq> t_id th) (os_threads (d_os d))\<rparr>\<rparr>)"
| file_io: "(\<And>n. moved (os_fd (d_os d) n) (fds n)) \<Longrightarrow>
    daemon_step d None (d\<lparr>d_os := (d_os d)\<lparr>os_tick := t, os_data := data, os_fd := fds\<rparr>\<rparr>)"
| other: "acq (d_os d) [] s \<Longrightarrow> daemon_step d None (d\<lparr>d_os := s\<rparr>)"

inductive daemon_reach :: "os \<Rightarrow> daemon \<Rightarrow> bool" for s where
  init: "daemon_reach s (init_daemon s)"
| step: "daemon_reach s d \<Longrightarrow> daemon_step d e d' \<Longrightarrow> daemon_reach s d'"

inductive_cases daemon_stepE: "daemon_step d e d'"

section \<open>The invariant\<close>

lemma thread_get_fill_acq:
  assumes "acq s bs s1" and "thread_get_fill us es run_on s1 = Some (r, s2)" and "length us = length es"
  shows "acq s bs s2 \<and> map ti_id r = map pt_id us"
  using assms
proof (induction us arbitrary: es run_on s1 r)
  case Nil
  then show ?case by auto
next
  case (Cons t us)
  from Cons.prems(3) obtain e es' where es: "es = e # es'" "length us = length es'" by (cases es) auto
  obtain rc0 prio pol s3 where p: "dabbad_thread_sched_param_get t s1 = ((rc0, prio, pol), s3)" by (metis surj_pair)
  obtain rc r' s4 where f: "dabbad_thread_sched_affinity_get t run_on s3 = ((rc, r'), s4)" by (metis surj_pair)
  have "acq s bs s4" using sched_param_get_state [of t s1] affinity_get_state [of t run_on s3] p f Cons.prems(1) by simp
  moreover from Cons.prems(2) es p f obtain rest where "thread_get_fill us es' r' s4 = Some (rest, s2)" "map ti_id r = pt_id t # map ti_id rest"
    by (auto simp: bind_eq_Some_conv)
  ultimately show ?case using Cons.IH [of s4 es' r' rest] es(2) by auto
qed

lemma thread_get_acq:
  assumes "heap_wf s" and q: "tq_length q = length (tq_head q)" and "dabbad_thread_get q s = Some (reply, s')"
  shows "acq s [] s' \<and> (case reply of None \<Rightarrow> True | Some r \<Rightarrow> map ti_id r = map pt_id (tq_head q))"
proof (cases "tq_head q = []")
  case True
  with assms show ?thesis by (simp add: dabbad_thread_get_def dabbad_thread_length_get_def acq_refl)
next
  case False
  note eq = dabbad_thread_get_def dabbad_thread_length_get_def q
  obtain lst s1 where m: "malloc s = (lst, s1)" by force
  show ?thesis
  proof (cases lst)
    case None
    with m False assms acq_allocs [OF acq_refl allocs_malloc [OF m assms(1)]] show ?thesis by (auto simp: eq)
  next
    case (Some b)
    obtain ok es s2 where l: "list_alloc 3 (length (tq_head q)) s1 = ((ok, es), s2)" by (metis surj_pair)
    note la = list_reply_alloc [OF assms(1) m [unfolded Some] l]
    show ?thesis
    proof (cases ok)
      case True
      with assms(3) False m Some l obtain r s3 where
        f: "thread_get_fill (tq_head q) es (junk_cpus s2) s2 = Some (r, s3)" "reply = Some r"
          "(do { s4 \<leftarrow> list_free es s3; s5 \<leftarrow> free (Some b) s4; Some (reply, s5) }) = Some (reply, s')"
        by (auto simp: eq bind_eq_Some_conv)
      note g = thread_get_fill_acq [OF la(1) f(1)]
      from list_reply_free [of s es b s3] g la(2) f(2,3) show ?thesis by auto
    next
      case no: False
      from list_reply_free [OF la(1)] assms(3) False m Some l no show ?thesis by (auto simp: eq)
    qed
  qed
qed

lemma inv_lengths:
  assumes "daemon_inv d"
  shows "tq_length (d_threads d) = length (tq_head (d_threads d))" "heap_wf (d_os d)"
  using assms by (simp_all add: daemon_inv_def live_def tq.queue_wf_def dabbad_thread_length_get_def owned_def)

lemma dispatch_inv:
  assumes inv: "daemon_inv d" and "dispatch q d = Some (r, d')"
  shows "daemon_inv d'"
proof (cases q)
  case (Capture_Start m)
  with assms capture_start_result [OF inv, of m] start_failed_inv [OF _ inv] show ?thesis
    by (auto simp: coded_def capture_started_def)
next
  case (Capture_Stop i)
  with assms cs.stop_result [OF inv, of i] start_failed_inv [OF _ inv] show ?thesis by (auto simp: coded_def stopped_def)
next
  case Capture_Stop_All
  with assms cs.stop_loop_result [OF inv refl] show ?thesis by (auto simp: coded_def dabbad_capture_stop_all_def)
next
  case Capture_Get
  with assms capture_get_result [OF inv] start_failed_inv [OF _ inv] show ?thesis by auto
next
  case (Replay_Start m)
  with assms replay_start_result [OF inv, of m] start_failed_inv [OF _ inv] show ?thesis
    by (auto simp: coded_def replay_started_def)
next
  case (Replay_Stop i)
  with assms rs.stop_result [OF inv, of i] start_failed_inv [OF _ inv] show ?thesis by (auto simp: coded_def stopped_def)
next
  case Replay_Stop_All
  with assms rs.stop_loop_result [OF inv refl] show ?thesis by (auto simp: coded_def dabbad_replay_stop_all_def)
next
  case Replay_Get
  with assms replay_get_result [OF inv] start_failed_inv [OF _ inv] show ?thesis by auto
next
  case (Thread_Modify m)
  with assms thread_modify_acq [of m "d_threads d" "d_os d"] show ?thesis by (auto intro: daemon_inv_acq)
next
  case Thread_Get
  with assms thread_get_acq [OF inv_lengths(2,1) [OF inv]] show ?thesis by (auto intro: daemon_inv_acq)
next
  case Thread_Capabilities_Get
  with assms capabilities_get_acq [OF inv_lengths(2) [OF inv]] show ?thesis by (auto intro: daemon_inv_acq)
qed


lemma moved_sock: "moved (Some (Sock sk)) x \<longleftrightarrow> x = Some (Sock sk)"
  by simp

lemma session_ok_io:
  assumes "session_ok s x" and "\<And>n. moved (os_fd s n) (fds n)"
  shows "session_ok (s\<lparr>os_tick := t, os_data := data, os_fd := fds\<rparr>) x"
proof -
  let ?s = "s\<lparr>os_tick := t, os_data := data, os_fd := fds\<rparr>"
  have m: "moved (fd_of s n) (fd_of ?s n)" for n using assms(2) [of "nat n"] by (simp add: fd_of_def)
  have r: "ring_ready (ss_ring x) s" using assms(1) by (simp add: session_ok_def)
  then obtain sk where "fd_of s (pf_sock (ss_ring x)) = Some (Sock sk)" using ring_ready_sock by blast
  then have "fd_of ?s (pf_sock (ss_ring x)) = fd_of s (pf_sock (ss_ring x))" using m [of "pf_sock (ss_ring x)"] by simp
  moreover have "fst ` set_option (vec (ss_ring x)) \<subseteq> os_heap s" using r by (auto simp: ring_ready_def Let_def)
  ultimately have "ring_ready (ss_ring x) ?s" using ring_ready_frame [OF r, of ?s] by simp
  moreover from assms(1) obtain ino pos rd wr where f: "fd_of s (ss_fd x) = Some (Reg ino pos rd wr False)"
    "pt_type (ss_thread x) = CAPTURE_THREAD \<longrightarrow> wr" "pt_type (ss_thread x) = REPLAY_THREAD \<longrightarrow> rd" by (auto simp: session_ok_def)
  moreover from f(1) m [of "ss_fd x"] obtain pos' where "fd_of ?s (ss_fd x) = Some (Reg ino pos' rd wr False)" by auto
  ultimately show ?thesis using assms(1) by (auto simp: session_ok_def)
qed

lemma file_io_inv:
  assumes inv: "daemon_inv d" and "\<And>n. moved (os_fd (d_os d) n) (fds n)"
  shows "daemon_inv (d\<lparr>d_os := (d_os d)\<lparr>os_tick := t, os_data := data, os_fd := fds\<rparr>\<rparr>)"
proof -
  let ?s = "(d_os d)\<lparr>os_tick := t, os_data := data, os_fd := fds\<rparr>"
  have "owned ?s (sessions d)"
    using inv session_ok_io [OF _ assms(2)] by (simp add: daemon_inv_def owned_def heap_wf_def maps_wf_def)
  moreover have "live ?s (d_threads d) (sessions d)" using inv by (simp add: daemon_inv_def live_def thread_ids_def)
  moreover have "kernel_ok ?s" using inv by (simp add: daemon_inv_def kernel_ok_def)
  ultimately show ?thesis using inv by (simp add: daemon_inv_def sessions_def)
qed

lemma ended_inv:
  assumes inv: "daemon_inv d" and th: "th \<in> set (os_threads (d_os d))" "t_cancel th"
  shows "daemon_inv (d\<lparr>d_os := (d_os d)\<lparr>os_threads := filter (\<lambda>u. t_id u \<noteq> t_id th) (os_threads (d_os d))\<rparr>\<rparr>)"
proof -
  let ?s = "(d_os d)\<lparr>os_threads := filter (\<lambda>u. t_id u \<noteq> t_id th) (os_threads (d_os d))\<rparr>"
  have l: "live (d_os d) (d_threads d) (sessions d)" using inv by (simp add: daemon_inv_def)
  then have di: "distinct (map t_id (os_threads (d_os d)))" by (simp add: live_def thread_ids_def)
  have "u \<in> set (os_threads ?s)" if "u \<in> set (os_threads (d_os d))" "\<not> t_cancel u" for u
    using that th inj_onD [OF conjunct2 [OF di [unfolded distinct_map]], of u th] by auto
  moreover have "distinct (thread_ids ?s)" using di by (simp add: thread_ids_def distinct_map_filter)
  ultimately have "live ?s (d_threads d) (sessions d)" using l unfolding live_def by blast
  moreover have "owned ?s (sessions d)"
    using inv same_resources_owned [of "d_os d" ?s] by (simp add: daemon_inv_def same_resources_def)
  moreover have "kernel_ok ?s" using inv by (simp add: daemon_inv_def kernel_ok_def)
  ultimately show ?thesis using inv by (simp add: daemon_inv_def sessions_def)
qed

lemma step_inv: "daemon_step d e d' \<Longrightarrow> daemon_inv d \<Longrightarrow> daemon_inv d'"
  by (induction rule: daemon_step.induct) (auto intro: dispatch_inv ended_inv file_io_inv daemon_inv_acq)

lemma init_inv: "idle s \<Longrightarrow> daemon_inv (init_daemon s)"
  by (simp add: idle_def init_daemon_def daemon_inv_def sessions_def owned_def live_def heap_wf_def maps_wf_def
      tq.queue_wf_def empty_tailq_def dabbad_thread_length_get_def thread_ids_def)

lemma reach_inv:
  assumes "daemon_reach s d" and "idle s"
  shows "daemon_inv d"
  using assms(1) by induction (auto intro: step_inv init_inv [OF assms(2)])


section \<open>The abstract service\<close>

type_synonym table = "nat \<rightharpoonup> packet_thread_type \<times> tpacket_req"

definition entry :: "session \<Rightarrow> nat \<times> packet_thread_type \<times> tpacket_req" where
  "entry x = (pt_id (ss_thread x), pt_type (ss_thread x), layout (ss_ring x))"

definition table :: "daemon \<Rightarrow> table" where
  "table d = map_of (map entry (sessions d))"

definition running :: "packet_thread_type \<Rightarrow> table \<Rightarrow> (nat \<times> tpacket_req) set" where
  "running ty T = {(i, l). T i = Some (ty, l)}"

definition row :: "nat \<times> tpacket_req \<Rightarrow> nat \<times> u64 \<times> u64" where
  "row il = (fst il, ucast (tp_frame_nr (snd il)), ucast (tp_frame_size (snd il)))"

inductive spec_start :: "packet_thread_type \<Rightarrow> u64 \<Rightarrow> u64 \<Rightarrow> table \<Rightarrow> int \<Rightarrow> table \<Rightarrow> bool" where
  started: "i \<notin> dom T \<Longrightarrow> spec_start ty fs n T 0 (T(i \<mapsto> (ty, mmap_layout (ucast fs) n)))"
| failed: "spec_start ty fs n T rc T"

inductive spec_stop :: "packet_thread_type \<Rightarrow> nat \<Rightarrow> table \<Rightarrow> int \<Rightarrow> table \<Rightarrow> bool" where
  stopped: "(i, l) \<in> running ty T \<Longrightarrow> spec_stop ty i T 0 (T(i := None))"
| unknown: "i \<notin> fst ` running ty T \<Longrightarrow> spec_stop ty i T EINVAL T"
| failed: "(i, l) \<in> running ty T \<Longrightarrow> rc \<noteq> 0 \<Longrightarrow> spec_stop ty i T rc T"

inductive spec_stop_all :: "packet_thread_type \<Rightarrow> table \<Rightarrow> int \<Rightarrow> table \<Rightarrow> bool" where
  "T' \<subseteq>\<^sub>m T \<Longrightarrow> dom T - dom T' \<subseteq> fst ` running ty T \<Longrightarrow> rc = 0 \<longleftrightarrow> running ty T' = {} \<Longrightarrow> spec_stop_all ty T rc T'"

inductive spec_step :: "table \<Rightarrow> (request \<times> reply) option \<Rightarrow> table \<Rightarrow> bool" where
  "spec_start CAPTURE_THREAD (cr_frame_size m) (cr_frame_nr m) T rc T' \<Longrightarrow> spec_step T (Some (Capture_Start m, Code rc)) T'"
| "spec_start REPLAY_THREAD (rr_frame_size w) (rr_frame_nr w) T rc T' \<Longrightarrow> spec_step T (Some (Replay_Start w, Code rc)) T'"
| "spec_stop CAPTURE_THREAD i T rc T' \<Longrightarrow> spec_step T (Some (Capture_Stop i, Code rc)) T'"
| "spec_stop REPLAY_THREAD i T rc T' \<Longrightarrow> spec_step T (Some (Replay_Stop i, Code rc)) T'"
| "spec_stop_all CAPTURE_THREAD T rc T' \<Longrightarrow> spec_step T (Some (Capture_Stop_All, Code rc)) T'"
| "spec_stop_all REPLAY_THREAD T rc T' \<Longrightarrow> spec_step T (Some (Replay_Stop_All, Code rc)) T'"
| capture_list: "(\<And>is. r = Some is \<Longrightarrow> (\<lambda>i. (ci_id i, ci_frame_nr i, ci_frame_size i)) ` set is = row ` running CAPTURE_THREAD T) \<Longrightarrow>
    spec_step T (Some (Capture_Get, Capture_List r)) T"
| replay_list: "(\<And>is. r' = Some is \<Longrightarrow> (\<lambda>i. (ri_id i, ri_frame_nr i, ri_frame_size i)) ` set is = row ` running REPLAY_THREAD T) \<Longrightarrow>
    spec_step T (Some (Replay_Get, Replay_List r')) T"
| thread_list: "(\<And>is. v = Some is \<Longrightarrow> ti_id ` set is = dom T) \<Longrightarrow> spec_step T (Some (Thread_Get, Thread_List v)) T"
| "spec_step T (Some (Thread_Modify z, Code rc)) T"
| "spec_step T (Some (Thread_Capabilities_Get, Capabilities_List c)) T"
| "spec_step T None T"

lemma session_ids:
  assumes "daemon_inv d"
  shows "distinct (map fst (map entry (sessions d)))"
proof -
  have "mset (tq_head (d_threads d)) = mset (map ss_thread (sessions d))" "distinct (map pt_id (tq_head (d_threads d)))"
    using assms by (simp_all add: daemon_inv_def live_def tq.queue_wf_def)
  then have "distinct (map pt_id (map ss_thread (sessions d)))" by (metis mset_eq_imp_distinct_iff mset_map)
  then show ?thesis by (simp add: entry_def comp_def)
qed

lemma table_iff: "daemon_inv d \<Longrightarrow> table d i = Some v \<longleftrightarrow> (i, v) \<in> entry ` set (sessions d)"
  using map_of_eq_Some_iff [OF session_ids] by (simp add: table_def)

lemma inv_types:
  assumes "daemon_inv d"
  shows "c \<in> set (captures d) \<Longrightarrow> pt_type (pc_thread c) = CAPTURE_THREAD"
    "r \<in> set (replays d) \<Longrightarrow> pt_type (pr_thread r) = REPLAY_THREAD"
  using assms unfolding daemon_inv_def by (metis packet_thread.select_convs(3))+

lemma entries:
  assumes "daemon_inv d"
  shows "entry ` set (sessions d) = (\<lambda>c. (capture_id c, CAPTURE_THREAD, layout (rx_mmap (pc_rx c)))) ` set (captures d) \<union>
    (\<lambda>r. (replay_id r, REPLAY_THREAD, layout (tx_mmap (pr_tx r)))) ` set (replays d)"
proof -
  have "entry (capture_session c) = (capture_id c, CAPTURE_THREAD, layout (rx_mmap (pc_rx c)))" if "c \<in> set (captures d)" for c
    using inv_types [OF assms] that by (simp add: entry_def capture_id_def)
  moreover have "entry (replay_session r) = (replay_id r, REPLAY_THREAD, layout (tx_mmap (pr_tx r)))" if "r \<in> set (replays d)" for r
    using inv_types [OF assms] that by (simp add: entry_def replay_id_def)
  ultimately show ?thesis by (simp add: sessions_def image_Un image_image)
qed

lemma running_captures:
  assumes "daemon_inv d"
  shows "running CAPTURE_THREAD (table d) = (\<lambda>c. (capture_id c, layout (rx_mmap (pc_rx c)))) ` set (captures d)"
  by (auto simp: running_def table_iff [OF assms] entries [OF assms])

lemma running_replays:
  assumes "daemon_inv d"
  shows "running REPLAY_THREAD (table d) = (\<lambda>r. (replay_id r, layout (tx_mmap (pr_tx r)))) ` set (replays d)"
  by (auto simp: running_def table_iff [OF assms] entries [OF assms])

lemma table_add:
  assumes inv: "daemon_inv d" "daemon_inv d'" and m: "mset (sessions d') = add_mset x (mset (sessions d))" and e: "entry x = (i, v)"
  shows "i \<notin> dom (table d)" "table d' = (table d)(i \<mapsto> v)" "table d = (table d')(i := None)"
proof -
  have "mset (map fst (map entry (sessions d'))) = mset (map fst (map entry (x # sessions d)))" using m by simp
  with session_ids [OF inv(2)] have di: "distinct (map fst (map entry (x # sessions d)))" by (metis mset_eq_imp_distinct_iff)
  have "i \<notin> fst ` entry ` set (sessions d)" using di e by (auto simp: image_comp)
  then show 1: "i \<notin> dom (table d)" by (metis domD table_iff [OF inv(1)] fst_conv image_eqI)
  have "set (sessions d') = insert x (set (sessions d))" using m by (metis set_mset_mset set_mset_add_mset_insert)
  then have "table d' j = Some w \<longleftrightarrow> ((table d)(i \<mapsto> v)) j = Some w" for j w
    using table_iff [OF inv(2), of j w] table_iff [OF inv(1), of j w] 1 e by auto
  then show 2: "table d' = (table d)(i \<mapsto> v)" by (metis (no_types, lifting) ext not_Some_eq)
  show "table d = (table d')(i := None)" using 1 2 by auto
qed

lemma start_failed_table: "start_failed d d' \<Longrightarrow> table d' = table d"
  by (simp add: start_failed_def table_def sessions_def)

lemma capture_start_table:
  assumes "daemon_inv d" and "capture_started m d d'"
  shows "spec_start CAPTURE_THREAD (cr_frame_size m) (cr_frame_nr m) (table d) 0 (table d')"
proof -
  from assms(2) obtain c where c: "daemon_inv d'" "d_replays d' = d_replays d" "captures d' = captures d @ [c]"
    "layout (rx_mmap (pc_rx c)) = mmap_layout (ucast (cr_frame_size m)) (cr_frame_nr m)" by (auto simp: capture_started_def)
  have "pt_type (pc_thread c) = CAPTURE_THREAD" using inv_types(1) [OF c(1)] c(3) by simp
  then have "entry (capture_session c) = (capture_id c, CAPTURE_THREAD, mmap_layout (ucast (cr_frame_size m)) (cr_frame_nr m))"
    using c(4) by (simp add: entry_def capture_id_def)
  moreover have "mset (sessions d') = add_mset (capture_session c) (mset (sessions d))" using c(2,3) by (simp add: sessions_def)
  ultimately show ?thesis using table_add(1,2) [OF assms(1) c(1)] spec_start.started by metis
qed

lemma replay_start_table:
  assumes "daemon_inv d" and "replay_started m d d'"
  shows "spec_start REPLAY_THREAD (rr_frame_size m) (rr_frame_nr m) (table d) 0 (table d')"
proof -
  from assms(2) obtain c where c: "daemon_inv d'" "d_captures d' = d_captures d" "replays d' = replays d @ [c]"
    "layout (tx_mmap (pr_tx c)) = mmap_layout (ucast (rr_frame_size m)) (rr_frame_nr m)" by (auto simp: replay_started_def)
  have "pt_type (pr_thread c) = REPLAY_THREAD" using inv_types(2) [OF c(1)] c(3) by simp
  then have "entry (replay_session c) = (replay_id c, REPLAY_THREAD, mmap_layout (ucast (rr_frame_size m)) (rr_frame_nr m))"
    using c(4) by (simp add: entry_def replay_id_def)
  moreover have "mset (sessions d') = add_mset (replay_session c) (mset (sessions d))" using c(2,3) by (simp add: sessions_def)
  ultimately show ?thesis using table_add(1,2) [OF assms(1) c(1)] spec_start.started by metis
qed


text \<open>Stopping, the same for both kinds.\<close>

lemma stop_table:
  assumes "daemon_inv d" "daemon_inv d'" and "mset (sessions d) = add_mset x (mset (sessions d'))" and "entry x = (i, ty, l)"
  shows "spec_stop ty i (table d) 0 (table d')"
proof -
  note t = table_add [OF assms(2,1,3,4)]
  have "(i, l) \<in> running ty (table d)" unfolding running_def t(2) by simp
  then show ?thesis using t(3) spec_stop.stopped by metis
qed

lemma stop_failed_table:
  assumes "rc \<noteq> 0" and "i \<notin> fst ` running ty T \<Longrightarrow> rc = EINVAL"
  shows "spec_stop ty i T rc T"
proof (cases "i \<in> fst ` running ty T")
  case True
  with assms(1) show ?thesis by (auto intro: spec_stop.failed)
next
  case False
  with assms(2) spec_stop.unknown show ?thesis by metis
qed

lemma capture_stop_table:
  assumes inv: "daemon_inv d" and st: "dabbad_capture_stop i d = Some (rc, d')"
  shows "spec_stop CAPTURE_THREAD i (table d) rc (table d')"
proof -
  from cs.stop_result [OF inv, of i] st consider (no) "rc \<noteq> 0" "start_failed d d'"
    | (yes) c where "rc = 0" "c \<in> set (captures d)" "capture_id c = i" "stopped captures same_replays c d d'" by (auto simp: capture_id_def)
  then show ?thesis
  proof cases
    case no
    have "rc = EINVAL" if "i \<notin> fst ` running CAPTURE_THREAD (table d)"
    proof -
      have "dabbad_capture_find i (d_captures d) = None"
        using that by (auto simp: running_captures [OF inv] dabbad_capture_find_def find_None_iff image_image)
      with st show ?thesis by (simp add: dabbad_capture_stop_def)
    qed
    with no(1) have "spec_stop CAPTURE_THREAD i (table d) rc (table d)" by (rule stop_failed_table)
    with start_failed_table [OF no(2)] show ?thesis by simp
  next
    case yes
    then have inv': "daemon_inv d'" and m: "mset (sessions d) = add_mset (capture_session c) (mset (sessions d'))"
      using mset_map_remove1 [OF yes(2), of capture_session] by (simp_all add: stopped_def sessions_def del: mset_remove1)
    have "entry (capture_session c) = (i, CAPTURE_THREAD, layout (rx_mmap (pc_rx c)))"
      using yes(3) inv_types(1) [OF inv yes(2)] by (simp add: entry_def capture_id_def)
    from stop_table [OF inv inv' m this] yes(1) show ?thesis by simp
  qed
qed

lemma replay_stop_table:
  assumes inv: "daemon_inv d" and st: "dabbad_replay_stop i d = Some (rc, d')"
  shows "spec_stop REPLAY_THREAD i (table d) rc (table d')"
proof -
  from rs.stop_result [OF inv, of i] st consider (no) "rc \<noteq> 0" "start_failed d d'"
    | (yes) c where "rc = 0" "c \<in> set (replays d)" "replay_id c = i" "stopped replays same_captures c d d'" by (auto simp: replay_id_def)
  then show ?thesis
  proof cases
    case no
    have "rc = EINVAL" if "i \<notin> fst ` running REPLAY_THREAD (table d)"
    proof -
      have "dabbad_replay_find i (d_replays d) = None"
        using that by (auto simp: running_replays [OF inv] dabbad_replay_find_def find_None_iff image_image)
      with st show ?thesis by (simp add: dabbad_replay_stop_def)
    qed
    with no(1) have "spec_stop REPLAY_THREAD i (table d) rc (table d)" by (rule stop_failed_table)
    with start_failed_table [OF no(2)] show ?thesis by simp
  next
    case yes
    then have inv': "daemon_inv d'" and m: "mset (sessions d) = add_mset (replay_session c) (mset (sessions d'))"
      using mset_map_remove1 [OF yes(2), of replay_session] by (simp_all add: stopped_def sessions_def del: mset_remove1)
    have "entry (replay_session c) = (i, REPLAY_THREAD, layout (tx_mmap (pr_tx c)))"
      using yes(3) inv_types(2) [OF inv yes(2)] by (simp add: entry_def replay_id_def)
    from stop_table [OF inv inv' m this] yes(1) show ?thesis by simp
  qed
qed

lemma stop_all_table:
  assumes inv: "daemon_inv d" "daemon_inv d'" and sub: "set (sessions d') \<subseteq> set (sessions d)"
    and gone: "\<And>x. x \<in> set (sessions d) \<Longrightarrow> x \<notin> set (sessions d') \<Longrightarrow> pt_type (ss_thread x) = ty"
    and rc: "rc = 0 \<longleftrightarrow> running ty (table d') = {}"
  shows "spec_stop_all ty (table d) rc (table d')"
proof
  show "table d' \<subseteq>\<^sub>m table d"
    unfolding map_le_def
  proof
    fix i assume "i \<in> dom (table d')"
    then obtain v where v: "table d' i = Some v" "(i, v) \<in> entry ` set (sessions d')" using table_iff [OF inv(2)] by blast
    then have "table d i = Some v" using sub table_iff [OF inv(1), of i v] by blast
    with v(1) show "table d' i = table d i" by simp
  qed
  show "dom (table d) - dom (table d') \<subseteq> fst ` running ty (table d)"
  proof
    fix i assume i: "i \<in> dom (table d) - dom (table d')"
    then obtain v where v: "table d i = Some v" "(i, v) \<in> entry ` set (sessions d)" using table_iff [OF inv(1)] by blast
    then obtain x where x: "x \<in> set (sessions d)" "entry x = (i, v)" by force
    have "x \<notin> set (sessions d')" using i x(2) table_iff [OF inv(2), of i v] by (metis DiffD2 domI image_eqI)
    with gone x have "fst v = ty" by (auto simp: entry_def)
    with v(1) show "i \<in> fst ` running ty (table d)" by (cases v) (force simp: running_def)
  qed
qed (rule rc)


lemma capture_stop_all_table:
  assumes inv: "daemon_inv d" and st: "dabbad_capture_stop_all d = Some (rc, d')"
  shows "spec_stop_all CAPTURE_THREAD (table d) rc (table d')"
proof -
  from cs.stop_loop_result [OF inv refl] st have r: "daemon_inv d'" "same_replays d d'" "suffix (captures d') (captures d)"
    "rc = 0 \<longleftrightarrow> captures d' = []" by (auto simp: dabbad_capture_stop_all_def)
  then show ?thesis using inv set_mono_suffix [OF r(3)]
    by (intro stop_all_table) (auto simp: sessions_def running_captures inv_types)
qed

lemma replay_stop_all_table:
  assumes inv: "daemon_inv d" and st: "dabbad_replay_stop_all d = Some (rc, d')"
  shows "spec_stop_all REPLAY_THREAD (table d) rc (table d')"
proof -
  from rs.stop_loop_result [OF inv refl] st have r: "daemon_inv d'" "same_captures d d'" "suffix (replays d') (replays d)"
    "rc = 0 \<longleftrightarrow> replays d' = []" by (auto simp: dabbad_replay_stop_all_def)
  then show ?thesis using inv set_mono_suffix [OF r(3)]
    by (intro stop_all_table) (auto simp: sessions_def running_replays inv_types)
qed

lemma map_triple:
  "map f xs = map f' ys \<Longrightarrow> map g xs = map g' ys \<Longrightarrow> map h xs = map h' ys \<Longrightarrow>
   (\<lambda>x. (f x, g x, h x)) ` set xs = (\<lambda>y. (f' y, g' y, h' y)) ` set ys"
proof (induction xs arbitrary: ys)
  case (Cons x xs)
  then show ?case by (cases ys) auto
qed simp

lemma table_threads:
  assumes "daemon_inv d"
  shows "dom (table d) = pt_id ` set (tq_head (d_threads d))"
proof -
  have "set (tq_head (d_threads d)) = ss_thread ` set (sessions d)" 
    using assms live_nodes unfolding daemon_inv_def by blast
  moreover have "dom (table d) = fst ` entry ` set (sessions d)" by (simp add: table_def dom_map_of_conv_image_fst)
  ultimately show ?thesis by (simp add: image_image entry_def)
qed

lemma dispatch_table:
  assumes inv: "daemon_inv d" and st: "dispatch q d = Some (r, d')"
  shows "spec_step (table d) (Some (q, r)) (table d')"
proof (cases q)
  case (Capture_Start m)
  with st capture_start_result [OF inv, of m] obtain rc where r: "r = Code rc" "start_failed d d' \<or> rc = 0 \<and> capture_started m d d'"
    by (auto simp: coded_def)
  then have "spec_start CAPTURE_THREAD (cr_frame_size m) (cr_frame_nr m) (table d) rc (table d')"
    using start_failed_table capture_start_table [OF inv] spec_start.failed by metis
  with r Capture_Start show ?thesis by (simp add: spec_step.intros)
next
  case (Replay_Start m)
  with st replay_start_result [OF inv, of m] obtain rc where r: "r = Code rc" "start_failed d d' \<or> rc = 0 \<and> replay_started m d d'"
    by (auto simp: coded_def)
  then have "spec_start REPLAY_THREAD (rr_frame_size m) (rr_frame_nr m) (table d) rc (table d')"
    using start_failed_table replay_start_table [OF inv] spec_start.failed by metis
  with r Replay_Start show ?thesis by (simp add: spec_step.intros)
next
  case (Capture_Stop i)
  with st capture_stop_table [OF inv] show ?thesis by (auto simp: coded_def intro: spec_step.intros)
next
  case (Replay_Stop i)
  with st replay_stop_table [OF inv] show ?thesis by (auto simp: coded_def intro: spec_step.intros)
next
  case Capture_Stop_All
  with st capture_stop_all_table [OF inv] show ?thesis by (auto simp: coded_def intro: spec_step.intros)
next
  case Replay_Stop_All
  with st replay_stop_all_table [OF inv] show ?thesis by (auto simp: coded_def intro: spec_step.intros)
next
  case Capture_Get
  with st capture_get_result [OF inv] obtain v where v: "r = Capture_List v" "start_failed d d'"
    "case v of None \<Rightarrow> True | Some is \<Rightarrow> map ci_id is = map capture_id (captures d) \<and>
             map ci_frame_nr is = map (\<lambda>c. ucast (tp_frame_nr (layout (rx_mmap (pc_rx c))))) (captures d) \<and>
             map ci_frame_size is = map (\<lambda>c. ucast (tp_frame_size (layout (rx_mmap (pc_rx c))))) (captures d)"
    by (auto split: option.splits)
  then have "(\<lambda>i. (ci_id i, ci_frame_nr i, ci_frame_size i)) ` set is = row ` running CAPTURE_THREAD (table d)" if "v = Some is" for "is"
    using that by (simp add: running_captures [OF inv] map_triple row_def image_image)
  with v Capture_Get start_failed_table spec_step.capture_list [of v "table d"] show ?thesis by simp
next
  case Replay_Get
  with st replay_get_result [OF inv] obtain v where v: "r = Replay_List v" "start_failed d d'"
    "case v of None \<Rightarrow> True | Some is \<Rightarrow> map ri_id is = map replay_id (replays d) \<and>
             map ri_frame_nr is = map (\<lambda>c. ucast (tp_frame_nr (layout (tx_mmap (pr_tx c))))) (replays d) \<and>
             map ri_frame_size is = map (\<lambda>c. ucast (tp_frame_size (layout (tx_mmap (pr_tx c))))) (replays d)"
    by (auto split: option.splits)
  then have "(\<lambda>i. (ri_id i, ri_frame_nr i, ri_frame_size i)) ` set is = row ` running REPLAY_THREAD (table d)" if "v = Some is" for "is"
    using that by (simp add: running_replays [OF inv] map_triple row_def image_image)
  with v Replay_Get start_failed_table spec_step.replay_list [of v "table d"] show ?thesis by simp
next
  case (Thread_Modify m)
  with st have "table d' = table d" by (auto simp: table_def sessions_def)
  with Thread_Modify st show ?thesis by (auto intro: spec_step.intros)
next
  case Thread_Get
  with st obtain v s where v: "r = Thread_List v" "d' = d\<lparr>d_os := s\<rparr>" "dabbad_thread_get (d_threads d) (d_os d) = Some (v, s)" by auto
  have "ti_id ` set is = dom (table d)" if "v = Some is" for "is"
  proof -
    have "map ti_id is = map pt_id (tq_head (d_threads d))"
      using that thread_get_acq [OF inv_lengths(2,1) [OF inv] v(3)] by simp
    from arg_cong [OF this, of set] show ?thesis by (simp add: table_threads [OF inv])
  qed
  moreover have "table d' = table d" using v by (simp add: table_def sessions_def)
  ultimately show ?thesis using v(1) Thread_Get spec_step.thread_list [of v "table d"] by simp
next
  case Thread_Capabilities_Get
  with st have "table d' = table d" by (auto simp: table_def sessions_def)
  with Thread_Capabilities_Get st show ?thesis by (auto intro: spec_step.intros)
qed

lemma step_table: "daemon_step d e d' \<Longrightarrow> daemon_inv d \<Longrightarrow> spec_step (table d) e (table d')"
  by (induction rule: daemon_step.induct) (auto simp: table_def sessions_def dest: dispatch_table intro: spec_step.intros)

section \<open>A request that is served\<close>

text \<open>Without faults and with two free descriptors, a good request for a capture on all interfaces is served.\<close>

lemma kept_faultless: "kept s s' \<Longrightarrow> faultless s \<Longrightarrow> faultless s'"
  by (simp add: kept_def faultless_def)

lemma socket_served:
  assumes "faultless s" and "free_fds s = n # fs"
  shows "\<exists>s'. socket s = (int n, s') \<and> faultless s' \<and> free_fds s' = fs \<and> fd_of s' (int n) = Some (Sock fresh_sock)"
proof -
  obtain r s' where s: "socket s = (r, s')" by force
  then have r: "r = int n" using assms
    by (simp add: socket_def syscall_def install_fd_def faultlessD find_free_fd [of "tick s", simplified])
  from socket_result [OF s] r have f: "os_fd s' = (os_fd s)(n \<mapsto> Sock fresh_sock)" by auto
  have k: "kept s s'" using kept_socket [of s] s by simp
  then have "free_fds s' = fs" using free_fds_take [OF assms(2) f] by (simp add: kept_def)
  with s r f kept_faultless [OF k assms(1)] show ?thesis by (simp add: fd_of_def)
qed

lemma thread_start_served:
  assumes "faultless s" and "dabbad_thread_start t fn arg q s = ((rc, t'), q', s')"
  shows "rc = 0"
  using assms
  by (auto simp: dabbad_thread_start_def pthread_create_def pthread_detach_def on_thr_def faultless_def find_thr_def find_None_iff
      tick_def Let_def split: if_splits)

text \<open>
  What makes a request good: valid settings, all interfaces, a number of frames that is a power of two and at least 8 (one block), a ring
  below 4 GiB, no filter or one the check accepts, and for appending a file that is a capture file already.
\<close>

definition good_capture :: "capture_request \<Rightarrow> os \<Rightarrow> bool" where
  "good_capture m s \<longleftrightarrow> capture_settings_are_valid m \<and> cr_interface m = Some ANY_INTERFACE \<and>
     powerof2 (cr_frame_nr m) \<and> 8 \<le> cr_frame_nr m \<and> unat (cr_frame_size m) * unat (cr_frame_nr m) < 2 ^ 32 \<and>
     (case cr_sfp m of None \<Rightarrow> True
      | Some p \<Rightarrow> pb_filter p = [] \<or> ldab_sock_filter_is_valid (Some (sfp_of_message p 0)) = Some 1) \<and>
     (cr_append m \<longrightarrow> (case os_dir s (the (cr_pcap m)) of None \<Rightarrow> False
      | Some ino \<Rightarrow> header_ok (os_endian s) (take 24 (os_data s ino))))"

lemma good_capture_cong:
  "os_dir s' = os_dir s \<Longrightarrow> os_data s' = os_data s \<Longrightarrow> os_endian s' = os_endian s \<Longrightarrow> good_capture m s' = good_capture m s"
  by (simp add: good_capture_def cong: option.case_cong)

text \<open>The layout of the ring of such a request.\<close>

lemma good_layout:
  assumes "packet_mmap_frame_size_is_valid fs" and "powerof2 n" and "8 \<le> n" and "unat fs * unat n < 2 ^ 32"
  shows "powerof2 (ucast fs :: u32) \<and> tp_frame_nr (mmap_layout (ucast fs) n) \<noteq> 0 \<and> tp_block_nr (mmap_layout (ucast fs) n) \<noteq> 0 \<and>
    map_len (mmap_layout (ucast fs) n) \<noteq> 0"
proof -
  from assms(1) obtain f where f: "unat fs = f" "ucast fs = (of_nat f :: u32)" "f \<in> {2048, 16384, 65536}"
    by (auto simp: packet_mmap_frame_size_is_valid_def frame_len_defs)
  have n8: "8 \<le> unat n" using assms(3) by (simp add: word_le_nat_alt)
  moreover from f(3) have "2048 * unat n \<le> f * unat n" by (intro mult_le_mono1) auto
  moreover have "f * unat n < 4294967296" using assms(4) f(1) by simp
  ultimately have small: "unat n < 2097152" by linarith
  have "n \<noteq> 0" using n8 by auto
  from unat_powerof2 [OF assms(2) this] obtain k where k: "unat n = 2 ^ k" by blast
  have "3 \<le> k" using n8 k power_le_imp_le_exp [of "2 :: nat" 3 k] by simp
  then have dv: "8 * (unat n div 8) = unat n" using k le_imp_power_dvd [of 3 k "2 :: nat"] by simp
  have u: "unat (ucast n :: u32) = unat n" "unat (ucast (n div 8) :: u32) = unat n div 8"
    using small by (simp_all add: unsigned_ucast_eq take_bit_eq_mod unat_div)
  have b: "unat (of_nat f :: u32) = f" using f(3) by auto
  have "map_len (mmap_layout (ucast fs) n) = (8 * f * (unat n div 8)) mod 2 ^ 32"
    by (simp add: map_len_def mmap_layout_def f(2) unat_word_ariths(2) b u mod_mult_left_eq)
  also have "8 * f * (unat n div 8) = f * unat n" using dv by (metis mult.assoc mult.commute)
  finally have "map_len (mmap_layout (ucast fs) n) = f * unat n" using assms(4) f(1) by simp
  moreover have "0 < f * unat n" using f(3) n8 by auto
  moreover have "powerof2 (ucast fs :: u32)" unfolding f(2) using f(3) by (auto simp: powerof2_def)
  moreover have "unat (ucast n :: u32) \<noteq> 0" "unat (ucast (n div 8) :: u32) \<noteq> 0" unfolding u using n8 by auto
  ultimately show ?thesis by (auto simp: mmap_layout_def)
qed

lemma capture_pcap_served:
  assumes "faultless s" and "free_fds s = n # fs" and "0 < n" and "good_capture m s"
  shows "\<exists>s' d. capture_pcap m s = Some (int n, s') \<and> kept s s' \<and> os_fd s' = (os_fd s)(n \<mapsto> d)"
proof (cases "cr_append m")
  case True
  with assms(4) obtain ino where i: "os_dir s (the (cr_pcap m)) = Some ino" "header_ok (os_endian s) (take 24 (os_data s ino))"
    by (auto simp: good_capture_def split: option.splits)
  from ldab_pcap_open_append_total [OF assms(1,2) i] obtain s' where
    o: "ldab_pcap_open (the (cr_pcap m)) (O_RDWR OR O_APPEND) s = (int n, s')" by blast
  from ldab_pcap_open_ok [OF o] kept_open [of s "the (cr_pcap m)" "O_RDWR OR O_APPEND"] o True show ?thesis by (auto simp: capture_pcap_def)
next
  case False
  from ldab_pcap_create_total [OF assms(1-3)] obtain s' where
    c: "ldab_pcap_create (the (cr_pcap m)) LINKTYPE_EN10MB s = Some (int n, s')" by blast
  from ldab_pcap_create_ok [OF c] kept_create [OF c] c False show ?thesis by (auto simp: capture_pcap_def)
qed

lemma capture_filter_served:
  assumes "faultless s" and "fd_of s sock = Some (Sock sk)" and "good_capture m s0"
  shows "\<exists>f s' sk'. capture_filter m sock s = Some ((0, f), s') \<and> faultless s' \<and> fd_of s' sock = Some (Sock sk')"
proof (cases "cr_sfp m = None \<or> pb_filter (the (cr_sfp m)) = []")
  case True
  with assms(1,2) show ?thesis by (auto simp: capture_filter_def split: option.splits)
next
  case False
  then obtain p where p: "cr_sfp m = Some p" "pb_filter p \<noteq> []" by auto
  then have v: "ldab_sock_filter_is_valid (Some (sfp_of_message p 0)) = Some 1" using assms(3) by (auto simp: good_capture_def)
  obtain b s1 where m: "malloc s = (Some b, s1)" "faultless s1" using malloc_faultless [OF assms(1)] by (metis option.exhaust surj_pair)
  have "ldab_sock_filter_is_valid (Some (sfp_of_message p b)) = Some 1"
    using v is_valid_blk [of "Some b" "sfp_of_message p 0"] by (simp add: sfp_of_message_def)
  then have c: "dabbad_pbuf_sfp_2_sfp p zero_sfp s = Some ((0, sfp_of_message p b), s1)"
    using m(1) by (simp add: dabbad_pbuf_sfp_2_sfp_def sfp_of_message_def zero_sfp_def)
  have "fd_of s1 sock = Some (Sock sk)" using assms(2) malloc_frame [of s] unfolding m(1) by (simp add: fd_of_def split: if_splits)
  then obtain s2 sk' where "ldab_sock_filter_attach sock (sfp_of_message p b) s1 = (0, s2)" "faultless s2" "fd_of s2 sock = Some (Sock sk')"
    using m(2) fd_of_Some_nonneg [of s1 sock]
    by (auto simp: ldab_sock_filter_attach_def setsockopt_filter_def on_sock_def syscall_def faultless_def set_fd_def fd_of_def)
  with p c show ?thesis by (simp add: capture_filter_def)
qed

lemma free_fds_sorted: "free_fds s = a # b # fs \<Longrightarrow> a < b"
proof -
  have "sorted_wrt (<) (free_fds s)" by (simp add: free_fds_def sorted_wrt_filter)
  then show "free_fds s = a # b # fs \<Longrightarrow> a < b" by simp
qed

lemma capture_served:
  assumes inv: "daemon_inv d" and ok: "faultless (d_os d)" and fds: "free_fds (d_os d) = a # b # fs" and m: "good_capture m (d_os d)"
  shows "\<exists>d'. dabbad_capture_start m d = Some (0, d') \<and> capture_started m d d' \<and> faultless (d_os d')"
proof -
  from socket_served [OF ok fds] obtain s1 where s1: "socket (d_os d) = (int a, s1)" "faultless s1" "free_fds s1 = b # fs"
    "fd_of s1 (int a) = Some (Sock fresh_sock)" by blast
  note f1 = socket_frame [of "d_os d", unfolded s1(1) snd_conv]
  obtain blk s2 where s2: "malloc s1 = (Some blk, s2)" "faultless s2" using malloc_faultless [OF s1(2)] by (metis option.exhaust surj_pair)
  have f2: "os_fd s2 = os_fd s1" "free_fds s2 = b # fs" "os_dir s2 = os_dir s1" "os_data s2 = os_data s1" "os_endian s2 = os_endian s1"
    using s1(3) s2(1) by (auto simp: malloc_def free_fds_def split: outcome.splits)
  have m2: "good_capture m s2" using m good_capture_cong [of s2 "d_os d" m] f1 f2 by simp
  have ab: "a < b" using free_fds_sorted [OF fds] .
  with capture_pcap_served [OF s2(2) f2(2) _ m2] obtain s3 x where
    s3: "capture_pcap m s2 = Some (int b, s3)" "kept s2 s3" "os_fd s3 = (os_fd s2)(b \<mapsto> x)" by auto
  have ok3: "faultless s3" using kept_faultless [OF s3(2) s2(2)] .
  have "fd_of s3 (int a) = Some (Sock fresh_sock)" using s3(3) s1(4) f2(1) ab by (simp add: fd_of_def)
  from capture_filter_served [OF ok3 this m] obtain f s4 sk where
    s4: "capture_filter m (int a) s3 = Some ((0, f), s4)" "faultless s4" "fd_of s4 (int a) = Some (Sock sk)" by blast
  have sv: "capture_settings_are_valid m" "cr_interface m = Some ANY_INTERFACE" using m by (simp_all add: good_capture_def)
  from this have "packet_mmap_frame_size_is_valid (cr_frame_size m)" by (simp add: capture_settings_are_valid_def split: if_splits)
  note lay = good_layout [OF this, of "cr_frame_nr m"]
  from create_any_ok [OF s4(2,3), of "ucast (cr_frame_size m)" "cr_frame_nr m" zero_mmap PACKET_MMAP_RX] lay m obtain pm s5 where
    s5: "ldab_packet_mmap_create zero_mmap ANY_INTERFACE (int a) PACKET_MMAP_RX (ucast (cr_frame_size m)) (cr_frame_nr m) s4 = Some ((0, pm), s5)"
    by (auto simp: good_capture_def)
  have ok5: "faultless s5" using kept_faultless [OF kept_mmap_create [OF s5] s4(2)] .
  let ?t = "\<lparr>pt_node = blk, pt_id = 0, pt_type = CAPTURE_THREAD\<rparr>"
  obtain rc t q s6 where st: "dabbad_thread_start ?t Fn_Packet_Rx blk (d_threads d) s5 = ((rc, t), q, s6)" by (metis surj_pair)
  have rc: "rc = 0" using thread_start_served [OF ok5 st] .
  let ?d = "d\<lparr>d_os := s6, d_threads := q, d_captures := dabbad_capture_insert
     \<lparr>pc_blk = blk, pc_rx = \<lparr>rx_mmap = pm, rx_sfp = f, rx_pcap_fd = int b\<rparr>, pc_thread = t\<rparr> (d_captures d)\<rparr>"
  have eq: "dabbad_capture_start m d = Some (0, ?d)"
    using sv s1(1) s2(1) s3(1) s4(1) s5 st rc by (simp add: dabbad_capture_start_def capture_start_ring_def capture_start_thread_def)
  have "captures ?d \<noteq> captures d" by (simp add: dabbad_capture_insert_def)
  then have "\<not> start_failed d ?d" unfolding start_failed_def by metis
  then have "capture_started m d ?d" using capture_start_result [OF inv, of m] eq by force
  moreover have "faultless s6" using dabbad_thread_start_result [OF st] kept_faultless ok5 by blast
  ultimately show ?thesis using eq by simp
qed

section \<open>No more failures\<close>

text \<open>
  The daemon in the same state, in an environment in which no call fails any more. A call consults the schedule at \<open>os_tick\<close>
  only, which it moves on, so what was scheduled for the calls made before does not matter.
\<close>

definition calm :: "daemon \<Rightarrow> daemon" where
  "calm d = d\<lparr>d_os := (d_os d)\<lparr>os_sched := (\<lambda>_. Succeed)\<rparr>\<rparr>"

lemma calm_fields [simp]:
  "captures (calm d) = captures d" "replays (calm d) = replays d" "d_threads (calm d) = d_threads d"
  "d_captures (calm d) = d_captures d" "d_replays (calm d) = d_replays d"
  by (simp_all add: calm_def)

lemma calm_faultless [simp]: "faultless (d_os (calm d))"
  by (simp add: calm_def faultless_def)

lemma calm_sessions [simp]: "sessions (calm d) = sessions d"
  by (simp add: sessions_def)

lemma calm_free_fds [simp]: "free_fds (d_os (calm d)) = free_fds (d_os d)"
  by (simp add: calm_def free_fds_def)

lemma good_capture_calm [simp]: "good_capture m (d_os (calm d)) = good_capture m (d_os d)"
  by (rule good_capture_cong) (simp_all add: calm_def)

lemma sched_simps [simp]:
  "fd_of (s\<lparr>os_sched := sc\<rparr>) n = fd_of s n" "kernel_ok (s\<lparr>os_sched := sc\<rparr>) = kernel_ok s" "heap_wf (s\<lparr>os_sched := sc\<rparr>) = heap_wf s"
  "maps_wf (s\<lparr>os_sched := sc\<rparr>) = maps_wf s" "thread_ids (s\<lparr>os_sched := sc\<rparr>) = thread_ids s"
  by (simp_all add: fd_of_def kernel_ok_def heap_wf_def maps_wf_def thread_ids_def)

lemma calm_inv:
  assumes "daemon_inv d"
  shows "daemon_inv (calm d)"
proof -
  have "ring_ready pm (d_os (calm d)) = ring_ready pm (d_os d)" for pm by (simp add: ring_ready_def calm_def)
  then have "session_ok (d_os (calm d)) x = session_ok (d_os d) x" for x by (simp add: session_ok_def calm_def)
  then have "owned (d_os (calm d)) (sessions d) = owned (d_os d) (sessions d)" by (simp add: owned_def calm_def)
  moreover have "live (d_os (calm d)) q ss = live (d_os d) q ss" for q ss by (simp add: live_def calm_def)
  moreover have "kernel_ok (d_os (calm d)) = kernel_ok (d_os d)" "d_captures (calm d) = d_captures d" "d_replays (calm d) = d_replays d"
    by (simp_all add: calm_def)
  ultimately show ?thesis using assms by (simp add: daemon_inv_def)
qed

end
