(* ===== verification/Links.thy ===== *)
theory Links
  imports Listing
begin

text \<open>
  The link cache and the replies built from it, \<^verbatim>\<open>src/dabbad/interface.c\<close> and the part the files
  \<^verbatim>\<open>src/dabbad/interface-*.c\<close> have in common. The netlink library is a parameter: a record of the functions the daemon
  calls, whose results may depend on the state of the system. Its own memory, its socket and the
  links of the kernel are not part of the state. A link that is being changed is the list of the setters called on it.
  The locale \<open>link_reply\<close> states what a callback must keep, and shows that a handler built on it lists the links
  asked for and gives all memory back.
\<close>

section \<open>The netlink library\<close>

datatype link_stat =
    RTNL_LINK_RX_PACKETS | RTNL_LINK_TX_PACKETS | RTNL_LINK_RX_BYTES | RTNL_LINK_TX_BYTES | RTNL_LINK_RX_ERRORS
  | RTNL_LINK_TX_ERRORS | RTNL_LINK_RX_DROPPED | RTNL_LINK_TX_DROPPED | RTNL_LINK_RX_COMPRESSED | RTNL_LINK_TX_COMPRESSED
  | RTNL_LINK_RX_FIFO_ERR | RTNL_LINK_TX_FIFO_ERR | RTNL_LINK_RX_LEN_ERR | RTNL_LINK_RX_OVER_ERR | RTNL_LINK_RX_CRC_ERR
  | RTNL_LINK_RX_FRAME_ERR | RTNL_LINK_RX_MISSED_ERR | RTNL_LINK_TX_ABORT_ERR | RTNL_LINK_TX_CARRIER_ERR
  | RTNL_LINK_TX_HBEAT_ERR | RTNL_LINK_TX_WIN_ERR

record rtnl_link =
  rl_name :: string
  rl_flags :: u32
  rl_mtu :: u32
  rl_txqlen :: u32
  rl_stat :: "link_stat \<Rightarrow> u64"

datatype link_set = Set_Flags u32 | Unset_Flags u32 | Set_Mtu u32 | Set_Txqlen u32

text \<open>\<open>nl_match name l\<close> tells whether a filter with that name selects the link.\<close>

record netlink =
  nl_socket_alloc :: "os \<Rightarrow> bool"
  nl_connect :: "os \<Rightarrow> int"
  rtnl_link_alloc_cache :: "os \<Rightarrow> int \<times> rtnl_link list"
  rtnl_link_alloc :: "os \<Rightarrow> bool"
  nl_match :: "string \<Rightarrow> rtnl_link \<Rightarrow> bool"
  rtnl_link_get_by_name :: "rtnl_link list \<Rightarrow> string \<Rightarrow> rtnl_link option"
  rtnl_link_change :: "rtnl_link \<Rightarrow> link_set list \<Rightarrow> os \<Rightarrow> int"

text \<open>
  The test of the new socket looks at the pointer to it, never NULL, so a socket that could not be allocated is
  connected all the same: \<open>None\<close>.
\<close>

definition link_cache_alloc :: "netlink \<Rightarrow> os \<Rightarrow> (rtnl_link list option \<times> os) option" where
  "link_cache_alloc nl s =
     (if \<not> nl_socket_alloc nl s then None else
      let s1 = tick s in
      if nl_connect nl s1 \<noteq> 0 then Some (None, tick s1) else
      let s2 = tick s1; (rc, cache) = rtnl_link_alloc_cache nl s2
      in Some (if rc \<noteq> 0 then None else Some cache, tick s2))"

section \<open>A growing reply\<close>

record 'a link_list =
  ll_list :: "nat option"
  ll_entries :: "rpc_entry list"
  ll_infos :: "'a list"

definition empty_list :: "'a link_list" where
  "empty_list = \<lparr>ll_list = None, ll_entries = [], ll_infos = []\<rparr>"

text \<open>\<open>realloc\<close> gives a new block and releases the old one, or fails and keeps it.\<close>

definition realloc :: "nat option \<Rightarrow> os \<Rightarrow> (nat option \<times> os) option" where
  "realloc p s =
     (let (b, s1) = malloc s in
      if b = None then Some (None, s1) else do { s2 \<leftarrow> free p s1; Some (b, s2) })"

text \<open>
  The common part of the callbacks: the list grows by one pointer, then the element and its \<open>np\<close> parts are
  allocated; an element that is not complete is released and skipped. Then \<open>fill\<close> is called, which may allocate further parts.
\<close>

definition link_append ::
  "nat \<Rightarrow> (rtnl_link \<Rightarrow> os \<Rightarrow> (nat option list \<times> 'a) \<times> os) \<Rightarrow> rtnl_link \<Rightarrow> 'a link_list \<Rightarrow> os \<Rightarrow> ('a link_list \<times> os) option" where
  "link_append np fill link lst s =
     do {
       (b, s1) \<leftarrow> realloc (ll_list lst) s;
       if b = None then Some (lst, s1) else
       let lst = lst\<lparr>ll_list := b\<rparr>;
           (e, s2) = malloc s1
       in case e of
         None \<Rightarrow> Some (lst, s2)
       | Some e \<Rightarrow>
           let (parts, s3) = malloc_each np s2 in
           if None \<in> set parts then do { s4 \<leftarrow> free_each parts s3; s5 \<leftarrow> free (Some e) s4; Some (lst, s5) }
           else
             let ((extra, info), s4) = fill link s3
             in Some (lst\<lparr>ll_entries := ll_entries lst @ [Some (e, parts @ extra)], ll_infos := ll_infos lst @ [info]\<rparr>, s4)
     }"

fun foreach_link ::
  "(rtnl_link \<Rightarrow> 'l \<Rightarrow> os \<Rightarrow> ('l \<times> os) option) \<Rightarrow> rtnl_link list \<Rightarrow> 'l \<Rightarrow> os \<Rightarrow> ('l \<times> os) option" where
  "foreach_link f [] lst s = Some (lst, s)"
| "foreach_link f (l # ls) lst s = do { (lst, s1) \<leftarrow> f l lst s; foreach_link f ls lst s1 }"

text \<open>The links a request asks for: those each name selects, or all when no name is given.\<close>

definition asked :: "netlink \<Rightarrow> string list \<Rightarrow> rtnl_link list \<Rightarrow> rtnl_link list" where
  "asked nl names ls = (if names \<noteq> [] then concat (map (\<lambda>n. filter (nl_match nl n) ls) names) else ls)"

text \<open>The common part of the handlers; the reply is \<open>None\<close> for the NULL message.\<close>

definition link_get ::
  "(rtnl_link \<Rightarrow> 'a link_list \<Rightarrow> os \<Rightarrow> ('a link_list \<times> os) option) \<Rightarrow> netlink \<Rightarrow> string list \<Rightarrow> os \<Rightarrow> ('a list option \<times> os) option" where
  "link_get callback nl names s =
     do {
       (cache, s1) \<leftarrow> link_cache_alloc nl s;
       let link = rtnl_link_alloc nl s1;
       let s2 = tick s1;
       (reply, lst, s3) \<leftarrow>
         (case cache of
            None \<Rightarrow> Some (None, empty_list, s2)
          | Some ls \<Rightarrow>
              if \<not> link then Some (None, empty_list, s2)
              else do { (lst, s3) \<leftarrow> foreach_link callback (asked nl names ls) empty_list s2; Some (Some (ll_infos lst), lst, s3) });
       s4 \<leftarrow> list_free (ll_entries lst) s3;
       s5 \<leftarrow> free (ll_list lst) s4;
       Some (reply, s5)
     }"

section \<open>What every such handler does\<close>

definition ll_blocks :: "'a link_list \<Rightarrow> nat list" where
  "ll_blocks l = list_blocks (ll_entries l) @ somes [ll_list l]"

lemma list_blocks_append [simp]: "list_blocks (xs @ ys) = list_blocks xs @ list_blocks ys"
  by (simp add: list_blocks_def)

lemma acq_realloc:
  assumes "acq s (somes [p] @ bs) s1" and "heap_wf s"
  shows "\<exists>b s2. realloc p s1 = Some (b, s2) \<and> (b = None \<and> acq s (somes [p] @ bs) s2 \<or> b \<noteq> None \<and> acq s (somes [b] @ bs) s2) \<and>
    (faultless s1 \<longrightarrow> b \<noteq> None \<and> faultless s2)"
proof -
  obtain b s2 where m: "malloc s1 = (b, s2)" by force
  have a: "acq s (somes [b] @ somes [p] @ bs) s2"
    using acq_allocs [OF assms(1) allocs_malloc [OF m acq_heap_wf [OF assms]]] by simp
  show ?thesis
  proof (cases b)
    case None
    with m a malloc_faultless [OF _ m] show ?thesis by (auto simp: realloc_def)
  next
    case (Some c)
    have "acq s (somes [p] @ somes [b] @ bs) s2" by (rule acq_perm [OF a]) (simp add: somes_def)
    from acq_drop [OF this] have d: "acq s (somes [b] @ bs) (s2\<lparr>os_heap := os_heap s2 - set (somes [p])\<rparr>)" .
    have "free p s2 = Some (s2\<lparr>os_heap := os_heap s2 - set (somes [p])\<rparr>)"
      using a by (cases p) (auto simp: free_def acq_def)
    with m Some d malloc_faultless [OF _ m] show ?thesis by (auto simp: realloc_def faultless_def)
  qed
qed

text \<open>Memory operations do not touch the descriptors.\<close>

lemma free_fd: "free p s = Some s' \<Longrightarrow> os_fd s' = os_fd s"
  by (auto simp: free_def split: option.splits if_splits)

lemma free_each_fd: "free_each ps s = Some s' \<Longrightarrow> os_fd s' = os_fd s"
  by (induction ps arbitrary: s) (auto simp: bind_eq_Some_conv dest!: free_fd)

lemma list_free_fd: "list_free es s = Some s' \<Longrightarrow> os_fd s' = os_fd s"
  by (induction es s rule: list_free.induct) (auto simp: bind_eq_Some_conv free_fd free_each_fd)

lemma malloc_fd: "malloc s = (b, s') \<Longrightarrow> os_fd s' = os_fd s"
  by (metis malloc_frame snd_conv)

lemma malloc_each_fd: "malloc_each n s = (bs, s') \<Longrightarrow> os_fd s' = os_fd s"
  by (induction n arbitrary: s bs) (auto simp: Let_def split: prod.splits dest!: malloc_fd)

lemma realloc_fd: "realloc p s = Some (b, s') \<Longrightarrow> os_fd s' = os_fd s"
  by (auto simp: realloc_def bind_eq_Some_conv split: prod.splits if_splits dest!: malloc_fd free_fd)

lemmas mem_fd = free_fd free_each_fd list_free_fd malloc_fd malloc_each_fd realloc_fd

lemma cache_fd: "link_cache_alloc nl s = Some (c, s') \<Longrightarrow> os_fd s' = os_fd s"
  by (auto simp: link_cache_alloc_def Let_def split: prod.splits if_splits)

locale link_reply =
  fixes fill :: "rtnl_link \<Rightarrow> os \<Rightarrow> (nat option list \<times> 'a) \<times> os" and name :: "'a \<Rightarrow> string"
  assumes fill_acq: "acq s bs s1 \<Longrightarrow> heap_wf s \<Longrightarrow> fill l s1 = ((extra, x), s2) \<Longrightarrow> acq s (somes extra @ bs) s2"
    and fill_name: "fill l s1 = ((extra, x), s2) \<Longrightarrow> name x = rl_name l"
    and fill_faultless: "fill l s1 = ((extra, x), s2) \<Longrightarrow> faultless s1 \<Longrightarrow> faultless s2"
    and fill_fd: "fill l s1 = ((extra, x), s2) \<Longrightarrow> os_fd s2 = os_fd s1"
begin

lemma append_result:
  assumes a: "acq s (ll_blocks lst @ bs) s1" and wf: "heap_wf s"
  shows "\<exists>lst' s2. link_append np fill l lst s1 = Some (lst', s2) \<and> acq s (ll_blocks lst' @ bs) s2 \<and>
    (ll_infos lst' = ll_infos lst \<or> (\<exists>x. ll_infos lst' = ll_infos lst @ [x] \<and> name x = rl_name l)) \<and>
    (faultless s1 \<longrightarrow> faultless s2 \<and> map name (ll_infos lst') = map name (ll_infos lst) @ [rl_name l])"
proof -
  let ?es = "list_blocks (ll_entries lst)"
  have "acq s (somes [ll_list lst] @ ?es @ bs) s1" by (rule acq_perm [OF a]) (simp add: ll_blocks_def)
  from acq_realloc [OF this wf] obtain b s2 where r: "realloc (ll_list lst) s1 = Some (b, s2)"
    and b: "b = None \<and> acq s (somes [ll_list lst] @ ?es @ bs) s2 \<or> b \<noteq> None \<and> acq s (somes [b] @ ?es @ bs) s2"
    and ok2: "faultless s1 \<longrightarrow> b \<noteq> None \<and> faultless s2" by blast
  show ?thesis
  proof (cases b)
    case None
    with b have "acq s (somes [ll_list lst] @ ?es @ bs) s2" by simp
    then have "acq s (ll_blocks lst @ bs) s2" by (rule acq_perm) (simp add: ll_blocks_def)
    with r None ok2 show ?thesis by (simp add: link_append_def)
  next
    case (Some c)
    let ?l = "lst\<lparr>ll_list := b\<rparr>"
    have "acq s (somes [b] @ ?es @ bs) s2" using b Some by simp
    then have a2: "acq s (ll_blocks ?l @ bs) s2" by (rule acq_perm) (simp add: ll_blocks_def)
    obtain e s3 where m: "malloc s2 = (e, s3)" by force
    have a3: "acq s (somes [e] @ ll_blocks ?l @ bs) s3"
      using acq_allocs [OF a2 allocs_malloc [OF m acq_heap_wf [OF a2 wf]]] by simp
    show ?thesis
    proof (cases e)
      case None
      with r Some m a3 malloc_faultless [OF _ m] ok2 show ?thesis by (auto simp: link_append_def)
    next
      case e: (Some f)
      obtain parts s4 where p: "malloc_each np s3 = (parts, s4)" by force
      have a4: "acq s (somes parts @ somes [e] @ ll_blocks ?l @ bs) s4"
        using acq_allocs [OF a3 conjunct1 [OF allocs_malloc_each [OF p acq_heap_wf [OF a3 wf]]]] by simp
      show ?thesis
      proof (cases "None \<in> set parts")
        case True
        have f1: "free_each parts s4 = Some (s4\<lparr>os_heap := os_heap s4 - set (somes parts)\<rparr>)"
          using a4 by (intro free_each_ok) (auto simp: acq_def)
        note d = acq_drop [OF a4]
        from acq_free [OF d, of f] e obtain s6 where "free (Some f) (s4\<lparr>os_heap := os_heap s4 - set (somes parts)\<rparr>) = Some s6"
          "acq s (ll_blocks ?l @ bs) s6" by auto
        moreover have "\<not> faultless s1" using True ok2 malloc_faultless [OF _ m] malloc_each_faultless [OF _ p] by blast
        ultimately show ?thesis using r Some m e p True f1 by (auto simp: link_append_def)
      next
        case False
        obtain extra x s5 where fl: "fill l s4 = ((extra, x), s5)" by (metis surj_pair)
        from fill_acq [OF a4 wf fl] have "acq s (somes extra @ somes parts @ somes [e] @ ll_blocks ?l @ bs) s5" .
        then have "acq s (ll_blocks (?l\<lparr>ll_entries := ll_entries lst @ [Some (f, parts @ extra)], ll_infos := ll_infos lst @ [x]\<rparr>) @ bs) s5"
          by (rule acq_perm) (simp add: ll_blocks_def e Some)
        moreover have "faultless s1 \<longrightarrow> faultless s5"
          using ok2 malloc_faultless [OF _ m] malloc_each_faultless [OF _ p] fill_faultless [OF fl] by blast
        ultimately show ?thesis using r Some m e p False fl fill_name [OF fl] by (auto simp: link_append_def)
      qed
    qed
  qed
qed

text \<open>A list of links with gaps: names that appear in order, some left out.\<close>

lemma foreach_result:
  assumes "acq s (ll_blocks lst @ bs) s1" and "heap_wf s"
  shows "\<exists>lst' xs s2. foreach_link (link_append np fill) ls lst s1 = Some (lst', s2) \<and> acq s (ll_blocks lst' @ bs) s2 \<and>
    ll_infos lst' = ll_infos lst @ xs \<and> subseq (map name xs) (map rl_name ls) \<and>
    (faultless s1 \<longrightarrow> map name xs = map rl_name ls)"
  using assms
proof (induction ls arbitrary: lst s1)
  case Nil
  then show ?case by simp
next
  case (Cons l ls)
  from append_result [OF Cons.prems, of np l] obtain lst1 s2 where st: "link_append np fill l lst s1 = Some (lst1, s2)"
    "acq s (ll_blocks lst1 @ bs) s2" and x: "ll_infos lst1 = ll_infos lst \<or> (\<exists>x. ll_infos lst1 = ll_infos lst @ [x] \<and> name x = rl_name l)"
    and ok: "faultless s1 \<longrightarrow> faultless s2 \<and> map name (ll_infos lst1) = map name (ll_infos lst) @ [rl_name l]" by blast
  from Cons.IH [OF st(2) Cons.prems(2)] obtain lst2 xs s3 where ih: "foreach_link (link_append np fill) ls lst1 s2 = Some (lst2, s3)"
    "acq s (ll_blocks lst2 @ bs) s3" "ll_infos lst2 = ll_infos lst1 @ xs" "subseq (map name xs) (map rl_name ls)"
    "faultless s2 \<longrightarrow> map name xs = map rl_name ls" by blast
  from x show ?case
  proof
    assume "ll_infos lst1 = ll_infos lst"
    with st ih ok show ?thesis by (intro exI [of _ lst2] exI [of _ xs] exI [of _ s3]) auto
  next
    assume "\<exists>x. ll_infos lst1 = ll_infos lst @ [x] \<and> name x = rl_name l"
    then obtain x where "ll_infos lst1 = ll_infos lst @ [x]" "name x = rl_name l" by blast
    with st ih ok show ?thesis by (intro exI [of _ lst2] exI [of _ "x # xs"] exI [of _ s3]) auto
  qed
qed

lemma get_result:
  assumes wf: "heap_wf s" and cache: "link_cache_alloc nl s = Some (cache, s1)"
  shows "\<exists>reply s'. link_get (link_append np fill) nl names s = Some (reply, s') \<and> acq s [] s' \<and>
    (case reply of None \<Rightarrow> cache = None \<or> \<not> rtnl_link_alloc nl s1
     | Some xs \<Rightarrow> \<exists>ls. cache = Some ls \<and> subseq (map name xs) (map rl_name (asked nl names ls)) \<and>
         (faultless s \<longrightarrow> map name xs = map rl_name (asked nl names ls)))"
proof -
  have t: "s1 = tick (tick s) \<or> s1 = tick (tick (tick s))"
    using cache by (auto simp: link_cache_alloc_def Let_def split: if_splits prod.splits)
  then have a: "acq s [] (tick s1)" and ok: "faultless s \<longrightarrow> faultless (tick s1)" using acq_refl [of s] by (auto simp: faultless_def)
  show ?thesis
  proof (cases "\<exists>ls. cache = Some ls \<and> rtnl_link_alloc nl s1")
    case False
    with cache have "link_get (link_append np fill) nl names s = Some (None, tick s1)"
      by (cases cache) (auto simp: link_get_def empty_list_def free_def)
    with False a show ?thesis by (cases cache) auto
  next
    case True
    then obtain ls where ls: "cache = Some ls" "rtnl_link_alloc nl s1" by blast
    from foreach_result [of s empty_list "[]" "tick s1" np "asked nl names ls"] a wf obtain lst xs s2 where
      f: "foreach_link (link_append np fill) (asked nl names ls) empty_list (tick s1) = Some (lst, s2)" "acq s (ll_blocks lst) s2"
        "ll_infos lst = xs" "subseq (map name xs) (map rl_name (asked nl names ls))"
        "faultless (tick s1) \<longrightarrow> map name xs = map rl_name (asked nl names ls)"
      by (auto simp: ll_blocks_def empty_list_def)
    from acq_list_free [of s "ll_entries lst" "somes [ll_list lst]" s2] f(2) obtain s3 where
      s3: "list_free (ll_entries lst) s2 = Some s3" "acq s (somes [ll_list lst]) s3" by (auto simp: ll_blocks_def)
    have "\<exists>s4. free (ll_list lst) s3 = Some s4 \<and> acq s [] s4"
    proof (cases "ll_list lst")
      case None
      with s3 show ?thesis by (simp add: free_def)
    next
      case (Some b)
      with acq_free [of s "[b]" s3 b] s3 show ?thesis by auto
    qed
    with cache ls f s3 ok show ?thesis by (auto simp: link_get_def)
  qed
qed

end

section \<open>What is given back\<close>

text \<open>Descriptors.\<close>

lemma foreach_fd:
  assumes "\<And>l lst t lst' u. f l lst t = Some (lst', u) \<Longrightarrow> os_fd u = os_fd t" and "foreach_link f ls lst s = Some (lst', s')"
  shows "os_fd s' = os_fd s"
  using assms(2) by (induction ls arbitrary: lst s) (auto simp: bind_eq_Some_conv dest!: assms(1))

lemma link_get_fd:
  assumes "\<And>l lst t lst' u. f l lst t = Some (lst', u) \<Longrightarrow> os_fd u = os_fd t" and "link_get f nl names s = Some (r, s')"
  shows "os_fd s' = os_fd s"
proof -
  from assms(2) obtain c s1 where c: "link_cache_alloc nl s = Some (c, s1)" by (auto simp: link_get_def bind_eq_Some_conv)
  have l: "foreach_link f ls lst t = Some (lst', u) \<Longrightarrow> os_fd u = os_fd t" for ls lst t lst' u by (rule foreach_fd [OF assms(1)])
  show ?thesis
    using assms(2) c cache_fd [OF c]
    by (cases c; cases "rtnl_link_alloc nl s1") 
     (auto simp: link_get_def bind_eq_Some_conv dest!: l mem_fd)
qed


context link_reply
begin

lemma append_fd:
  assumes "link_append np fill l lst s = Some (lst', s')"
  shows "os_fd s' = os_fd s"
  using assms unfolding link_append_def
  by (cases "realloc (ll_list lst) s")
    (auto simp: Let_def bind_eq_Some_conv split: prod.splits if_splits option.splits dest!: mem_fd fill_fd)

lemma given_back:
  assumes "heap_wf s" and g: "link_get (link_append np fill) nl names s = Some (r, s')"
  shows "acq s [] s' \<and> os_fd s' = os_fd s"
proof -
  from g obtain cache s1 where "link_cache_alloc nl s = Some (cache, s1)" by (auto simp: link_get_def bind_eq_Some_conv)
  from get_result [OF assms(1) this, of np names] link_get_fd [OF append_fd g] g show ?thesis by auto
qed

end

section \<open>The listing a handler promises\<close>

text \<open>
  A reply is sent, it names the links asked for in their order, with some left out only when a call fails on the way,
  and no memory or descriptor stays allocated.
\<close>

definition lists_links :: "netlink \<Rightarrow> string list \<Rightarrow> rtnl_link list \<Rightarrow> os \<Rightarrow> ('a \<Rightarrow> string) \<Rightarrow> ('a list option \<times> os) option \<Rightarrow> bool" where
  "lists_links nl names ls s nm r \<longleftrightarrow> (\<exists>xs s'. r = Some (Some xs, s') \<and> acq s [] s' \<and> os_fd s' = os_fd s \<and>
     subseq (map nm xs) (map rl_name (asked nl names ls)) \<and> (faultless s \<longrightarrow> map nm xs = map rl_name (asked nl names ls)))"

context link_reply
begin

lemma listed:
  assumes "heap_wf s" and "link_cache_alloc nl s = Some (Some ls, s1)" and "rtnl_link_alloc nl s1"
  shows "lists_links nl names ls s name (link_get (link_append np fill) nl names s)"
proof -
  from get_result [OF assms(1,2), of np names] obtain reply s' where r: "link_get (link_append np fill) nl names s = Some (reply, s')" "acq s [] s'"
    "case reply of None \<Rightarrow> Some ls = None \<or> \<not> rtnl_link_alloc nl s1
     | Some xs \<Rightarrow> \<exists>ls'. Some ls = Some ls' \<and> subseq (map name xs) (map rl_name (asked nl names ls')) \<and>
         (faultless s \<longrightarrow> map name xs = map rl_name (asked nl names ls'))" by blast
  with assms(3) given_back [OF assms(1) r(1)] show ?thesis unfolding lists_links_def by (cases reply) auto
qed

end

text \<open>A callback that does the same wherever it is defined gives the same listing wherever that is defined.\<close>

lemma foreach_mono:
  assumes "\<And>l lst s r. f l lst s = Some r \<Longrightarrow> g l lst s = Some r" and "foreach_link f ls lst s = Some r"
  shows "foreach_link g ls lst s = Some r"
  using assms(2) by (induction ls arbitrary: lst s) (auto simp: bind_eq_Some_conv dest!: assms(1))

lemma link_get_mono:
  assumes "\<And>l lst s r. f l lst s = Some r \<Longrightarrow> g l lst s = Some r" and "link_get f nl names s = Some r"
  shows "link_get g nl names s = Some r"
proof -
  from assms(2) obtain cache s1 where c: "link_cache_alloc nl s = Some (cache, s1)" by (auto simp: link_get_def bind_eq_Some_conv)
  show ?thesis
  proof (cases "\<exists>ls. cache = Some ls \<and> rtnl_link_alloc nl s1")
    case False
    with assms(2) c show ?thesis by (cases cache) (auto simp: link_get_def)
  next
    case True
    then obtain ls where ls: "cache = Some ls" "rtnl_link_alloc nl s1" by blast
    with assms(2) c obtain lst s2 where "foreach_link f (asked nl names ls) empty_list (tick s1) = Some (lst, s2)"
      by (auto simp: link_get_def bind_eq_Some_conv)
    with foreach_mono [OF assms(1) this] assms(2) c ls show ?thesis by (simp add: link_get_def)
  qed
qed

lemma cache_acq:
  assumes "link_cache_alloc nl s = Some (c, s1)" shows "acq s [] s1"
  using assms acq_refl [of s] by (auto simp: link_cache_alloc_def Let_def split: if_splits prod.splits)

lemma cache_bindE:
  assumes "Option.bind (link_cache_alloc nl s) f = Some x"
  obtains c s1 where "f (c, s1) = Some x" "acq s [] s1" "os_fd s1 = os_fd s"
proof -
  from assms obtain c s1 where "link_cache_alloc nl s = Some (c, s1)" "f (c, s1) = Some x" by (auto simp: bind_eq_Some_conv)
  with cache_acq cache_fd that show ?thesis by blast
qed

section \<open>An example library\<close>

definition demo_link :: "string \<Rightarrow> rtnl_link" where
  "demo_link n = \<lparr>rl_name = n, rl_flags = 0, rl_mtu = 1500, rl_txqlen = 1000, rl_stat = (\<lambda>_. 0)\<rparr>"

definition demo_netlink :: netlink where
  "demo_netlink = \<lparr>nl_socket_alloc = (\<lambda>_. True), nl_connect = (\<lambda>_. 0),
     rtnl_link_alloc_cache = (\<lambda>_. (0, [demo_link ''lo'', demo_link ''eth0''])), rtnl_link_alloc = (\<lambda>_. True),
     nl_match = (\<lambda>n l. rl_name l = n), rtnl_link_get_by_name = (\<lambda>ls n. find (\<lambda>l. rl_name l = n) ls),
     rtnl_link_change = (\<lambda>_ _ _. 0)\<rparr>"

lemma demo_cache: "link_cache_alloc demo_netlink s = Some (Some [demo_link ''lo'', demo_link ''eth0''], tick (tick (tick s)))"
  by (simp add: link_cache_alloc_def demo_netlink_def)

end
