(* ===== verification/Interface_Get.thy ===== *)
theory Interface_Get
  imports Links
begin

text \<open>
  The remote procedures that list the status, driver, pause, offload, settings, coalesce and statistics values of
  interfaces, \<^verbatim>\<open>src/dabbad/interface-*.c\<close>. Each callback fills one message from the link and from requests of
  the interface library; a field whose presence flag is always set is given by its value. A boolean of a message is the
  32-bit pattern of the C variable. Each pair of callback and handler is an instance of \<open>link_reply\<close>.
\<close>

section \<open>Status\<close>

definition IFF_UP :: u16 where "IFF_UP = 0x1"
definition IFF_LOOPBACK :: u16 where "IFF_LOOPBACK = 0x8"
definition IFF_RUNNING :: u16 where "IFF_RUNNING = 0x40"
definition IFF_PROMISC :: u16 where "IFF_PROMISC = 0x100"

record interface_status =
  st_code :: int
  st_name :: string
  st_up :: bool
  st_running :: bool
  st_promiscuous :: bool
  st_loopback :: bool
  st_connectivity :: u32

definition interface_status_fill :: "rtnl_link \<Rightarrow> os \<Rightarrow> (nat option list \<times> interface_status) \<times> os" where
  "interface_status_fill l s =
     (let flags = (ucast (rl_flags l) :: u16);
          ((rc, connectivity), s1) = ldab_dev_link_get (rl_name l) 0 s
      in (([], \<lparr>st_code = rc, st_name = rl_name l,
           st_up = (flags AND IFF_UP = IFF_UP), st_running = (flags AND IFF_RUNNING = IFF_RUNNING),
           st_promiscuous = (flags AND IFF_PROMISC = IFF_PROMISC), st_loopback = (flags AND IFF_LOOPBACK = IFF_LOOPBACK),
           st_connectivity = connectivity\<rparr>), s1))"

definition interface_status_cb :: "rtnl_link \<Rightarrow> interface_status link_list \<Rightarrow> os \<Rightarrow> (interface_status link_list \<times> os) option" where
  "interface_status_cb = link_append 2 interface_status_fill"

definition dabbad_interface_status_get :: "netlink \<Rightarrow> string list \<Rightarrow> os \<Rightarrow> (interface_status list option \<times> os) option" where
  "dabbad_interface_status_get = link_get interface_status_cb"

section \<open>Driver\<close>

text \<open>A string is \<open>None\<close> when \<open>strndup\<close> could not allocate its copy.\<close>

record interface_driver =
  dr_code :: int
  dr_id :: string
  dr_name :: "string option"
  dr_version :: "string option"
  dr_fw_version :: "string option"
  dr_bus_info :: "string option"

definition strndup :: "string \<Rightarrow> nat \<Rightarrow> os \<Rightarrow> (nat option \<times> string option) \<times> os" where
  "strndup str n s = (let (b, s1) = malloc s in ((b, if b = None then None else Some (take n str)), s1))"

definition interface_driver_fill :: "rtnl_link \<Rightarrow> os \<Rightarrow> (nat option list \<times> interface_driver) \<times> os" where
  "interface_driver_fill l s =
     (let ((rc, drvinfo), s1) = ldab_dev_driver_get (rl_name l) s;
          ((b1, name), s2) = strndup (di_driver drvinfo) 32 s1;
          ((b2, version), s3) = strndup (di_version drvinfo) 32 s2;
          ((b3, fw_version), s4) = strndup (di_fw_version drvinfo) 32 s3;
          ((b4, bus_info), s5) = strndup (di_bus_info drvinfo) 32 s4
      in (([b1, b2, b3, b4], \<lparr>dr_code = rc, dr_id = rl_name l, dr_name = name, dr_version = version,
           dr_fw_version = fw_version, dr_bus_info = bus_info\<rparr>), s5))"

definition interface_driver_cb :: "rtnl_link \<Rightarrow> interface_driver link_list \<Rightarrow> os \<Rightarrow> (interface_driver link_list \<times> os) option" where
  "interface_driver_cb = link_append 2 interface_driver_fill"

definition dabbad_interface_driver_get :: "netlink \<Rightarrow> string list \<Rightarrow> os \<Rightarrow> (interface_driver list option \<times> os) option" where
  "dabbad_interface_driver_get = link_get interface_driver_cb"

section \<open>Pause\<close>

record interface_pause =
  pa_code :: int
  pa_name :: string
  pa_autoneg :: u32
  pa_rx_pause :: u32
  pa_tx_pause :: u32

definition interface_pause_fill :: "rtnl_link \<Rightarrow> os \<Rightarrow> (nat option list \<times> interface_pause) \<times> os" where
  "interface_pause_fill l s =
     (let ((rc, pause), s1) = ldab_dev_pause_get (rl_name l) s
      in (([], \<lparr>pa_code = rc, pa_name = rl_name l, pa_autoneg = pp_autoneg pause, pa_rx_pause = rx_pause pause,
           pa_tx_pause = tx_pause pause\<rparr>), s1))"

definition interface_pause_cb :: "rtnl_link \<Rightarrow> interface_pause link_list \<Rightarrow> os \<Rightarrow> (interface_pause link_list \<times> os) option" where
  "interface_pause_cb = link_append 2 interface_pause_fill"

definition dabbad_interface_pause_get :: "netlink \<Rightarrow> string list \<Rightarrow> os \<Rightarrow> (interface_pause list option \<times> os) option" where
  "dabbad_interface_pause_get = link_get interface_pause_cb"

section \<open>Offloading\<close>

text \<open>
  Large receive offload is marked as present and never read, so its value is 0. For the receive hash the value is set to 1
  instead of the mark, so the field is absent from the encoded message.
\<close>

record interface_offload =
  of_code :: int
  of_name :: string
  of_rx_csum :: u32
  of_tx_csum :: u32
  of_sg :: u32
  of_tso :: u32
  of_ufo :: u32
  of_gso :: u32
  of_gro :: u32
  of_lro :: u32
  of_rxhash :: u32
  of_has_rxhash :: bool

text \<open>Only the result of the last request is kept.\<close>

definition interface_offload_fill :: "rtnl_link \<Rightarrow> os \<Rightarrow> (nat option list \<times> interface_offload) \<times> os" where
  "interface_offload_fill l s =
     (let ((rc, rx_csum), s1) = ldab_dev_rx_csum_offload_get (rl_name l) 0 s;
          ((rc, tx_csum), s2) = ldab_dev_tx_csum_offload_get (rl_name l) 0 s1;
          ((rc, sg), s3) = ldab_dev_scatter_gather_get (rl_name l) 0 s2;
          ((rc, tso), s4) = ldab_dev_tcp_seg_offload_get (rl_name l) 0 s3;
          ((rc, ufo), s5) = ldab_dev_udp_frag_offload_get (rl_name l) 0 s4;
          ((rc, gso), s6) = ldab_dev_generic_seg_offload_get (rl_name l) 0 s5;
          ((rc, gro), s7) = ldab_dev_generic_rcv_offload_get (rl_name l) 0 s6
      in (([], \<lparr>of_code = rc, of_name = rl_name l, of_rx_csum = rx_csum, of_tx_csum = tx_csum, of_sg = sg, of_tso = tso,
           of_ufo = ufo, of_gso = gso, of_gro = gro, of_lro = 0, of_rxhash = 1, of_has_rxhash = False\<rparr>), s7))"

definition interface_offload_cb :: "rtnl_link \<Rightarrow> interface_offload link_list \<Rightarrow> os \<Rightarrow> (interface_offload link_list \<times> os) option" where
  "interface_offload_cb = link_append 2 interface_offload_fill"

definition dabbad_interface_offload_get :: "netlink \<Rightarrow> string list \<Rightarrow> os \<Rightarrow> (interface_offload list option \<times> os) option" where
  "dabbad_interface_offload_get = link_get interface_offload_cb"

section \<open>Settings\<close>

text \<open>The port is marked as present and never stored, so it is 0.\<close>

record interface_settings =
  se_code :: int
  se_name :: string
  se_speed :: u32
  se_duplex :: u32
  se_autoneg :: bool
  se_mtu :: u32
  se_tx_qlen :: u32
  se_port :: u32
  se_maxrxpkt :: u32
  se_maxtxpkt :: u32

definition AUTONEG_ENABLE :: u8 where "AUTONEG_ENABLE = 1"

definition ethtool_cmd_speed :: "ethtool_cmd \<Rightarrow> u32" where
  "ethtool_cmd_speed ep = push_bit 16 (ucast (speed_hi ep)) OR ucast (speed ep)"

definition interface_settings_fill :: "rtnl_link \<Rightarrow> os \<Rightarrow> (nat option list \<times> interface_settings) \<times> os" where
  "interface_settings_fill l s =
     (let ((rc, settings), s1) = ldab_dev_settings_get (rl_name l) s
      in (([], \<lparr>se_code = rc, se_name = rl_name l, se_speed = ethtool_cmd_speed settings, se_duplex = ucast (duplex settings),
           se_autoneg = (autoneg settings = AUTONEG_ENABLE), se_mtu = rl_mtu l, se_tx_qlen = rl_txqlen l, se_port = 0,
           se_maxrxpkt = maxrxpkt settings, se_maxtxpkt = maxtxpkt settings\<rparr>), s1))"

definition interface_settings_cb :: "rtnl_link \<Rightarrow> interface_settings link_list \<Rightarrow> os \<Rightarrow> (interface_settings link_list \<times> os) option" where
  "interface_settings_cb = link_append 2 interface_settings_fill"

definition dabbad_interface_settings_get :: "netlink \<Rightarrow> string list \<Rightarrow> os \<Rightarrow> (interface_settings list option \<times> os) option" where
  "dabbad_interface_settings_get = link_get interface_settings_cb"

section \<open>Coalescing\<close>

record interface_coalesce =
  ic_code :: int
  ic_name :: string
  ic_pkt_rate_high :: u32
  ic_pkt_rate_low :: u32
  ic_rate_sample_interval :: u32
  ic_stats_block_coalesce_usecs :: u32
  ic_use_adaptive_rx_coalesce :: u32
  ic_rx_coalesce_usecs :: u32
  ic_rx_coalesce_usecs_irq :: u32
  ic_rx_coalesce_usecs_high :: u32
  ic_rx_coalesce_usecs_low :: u32
  ic_rx_max_coalesced_frames :: u32
  ic_rx_max_coalesced_frames_irq :: u32
  ic_rx_max_coalesced_frames_high :: u32
  ic_rx_max_coalesced_frames_low :: u32
  ic_use_adaptive_tx_coalesce :: u32
  ic_tx_coalesce_usecs :: u32
  ic_tx_coalesce_usecs_irq :: u32
  ic_tx_coalesce_usecs_high :: u32
  ic_tx_coalesce_usecs_low :: u32
  ic_tx_max_coalesced_frames :: u32
  ic_tx_max_coalesced_frames_irq :: u32
  ic_tx_max_coalesced_frames_high :: u32
  ic_tx_max_coalesced_frames_low :: u32

definition interface_coalesce_fill :: "rtnl_link \<Rightarrow> os \<Rightarrow> (nat option list \<times> interface_coalesce) \<times> os" where
  "interface_coalesce_fill l s =
     (let ((rc, coalesce), s1) = ldab_dev_coalesce_get (rl_name l) s
      in (([], \<lparr>ic_code = rc, ic_name = rl_name l,
           ic_pkt_rate_high = pkt_rate_high coalesce, ic_pkt_rate_low = pkt_rate_low coalesce,
           ic_rate_sample_interval = rate_sample_interval coalesce, ic_stats_block_coalesce_usecs = stats_block_coalesce_usecs coalesce,
           ic_use_adaptive_rx_coalesce = use_adaptive_rx_coalesce coalesce, ic_rx_coalesce_usecs = rx_coalesce_usecs coalesce,
           ic_rx_coalesce_usecs_irq = rx_coalesce_usecs_irq coalesce, ic_rx_coalesce_usecs_high = rx_coalesce_usecs_high coalesce,
           ic_rx_coalesce_usecs_low = rx_coalesce_usecs_low coalesce, ic_rx_max_coalesced_frames = rx_max_coalesced_frames coalesce,
           ic_rx_max_coalesced_frames_irq = rx_max_coalesced_frames_irq coalesce, ic_rx_max_coalesced_frames_high = rx_max_coalesced_frames_high coalesce,
           ic_rx_max_coalesced_frames_low = rx_max_coalesced_frames_low coalesce, ic_use_adaptive_tx_coalesce = use_adaptive_tx_coalesce coalesce,
           ic_tx_coalesce_usecs = tx_coalesce_usecs coalesce, ic_tx_coalesce_usecs_irq = tx_coalesce_usecs_irq coalesce,
           ic_tx_coalesce_usecs_high = tx_coalesce_usecs_high coalesce, ic_tx_coalesce_usecs_low = tx_coalesce_usecs_low coalesce,
           ic_tx_max_coalesced_frames = tx_max_coalesced_frames coalesce, ic_tx_max_coalesced_frames_irq = tx_max_coalesced_frames_irq coalesce,
           ic_tx_max_coalesced_frames_high = tx_max_coalesced_frames_high coalesce, ic_tx_max_coalesced_frames_low = tx_max_coalesced_frames_low coalesce\<rparr>), s1))"

definition interface_coalesce_cb :: "rtnl_link \<Rightarrow> interface_coalesce link_list \<Rightarrow> os \<Rightarrow> (interface_coalesce link_list \<times> os) option" where
  "interface_coalesce_cb = link_append 2 interface_coalesce_fill"

definition dabbad_interface_coalesce_get :: "netlink \<Rightarrow> string list \<Rightarrow> os \<Rightarrow> (interface_coalesce list option \<times> os) option" where
  "dabbad_interface_coalesce_get = link_get interface_coalesce_cb"

section \<open>Statistics\<close>

record interface_statistics =
  sx_code :: int
  sx_name :: string
  sx_rx_byte :: u64
  sx_rx_packet :: u64
  sx_rx_error :: u64
  sx_rx_dropped :: u64
  sx_rx_compressed :: u64
  sx_rx_error_fifo :: u64
  sx_rx_error_frame :: u64
  sx_rx_error_crc :: u64
  sx_rx_error_length :: u64
  sx_rx_error_missed :: u64
  sx_rx_error_over :: u64
  sx_tx_byte :: u64
  sx_tx_packet :: u64
  sx_tx_error :: u64
  sx_tx_dropped :: u64
  sx_tx_compressed :: u64
  sx_tx_error_fifo :: u64
  sx_tx_error_carrier :: u64
  sx_tx_error_heartbeat :: u64
  sx_tx_error_window :: u64
  sx_tx_error_aborted :: u64

definition interface_statistics_fill :: "rtnl_link \<Rightarrow> os \<Rightarrow> (nat option list \<times> interface_statistics) \<times> os" where
  "interface_statistics_fill l s =
     (([], \<lparr>sx_code = 0, sx_name = rl_name l,
        sx_rx_byte = rl_stat l RTNL_LINK_RX_BYTES, sx_rx_packet = rl_stat l RTNL_LINK_RX_PACKETS,
        sx_rx_error = rl_stat l RTNL_LINK_RX_ERRORS, sx_rx_dropped = rl_stat l RTNL_LINK_RX_DROPPED,
        sx_rx_compressed = rl_stat l RTNL_LINK_RX_COMPRESSED, sx_rx_error_fifo = rl_stat l RTNL_LINK_RX_FIFO_ERR,
        sx_rx_error_frame = rl_stat l RTNL_LINK_RX_FRAME_ERR, sx_rx_error_crc = rl_stat l RTNL_LINK_RX_CRC_ERR,
        sx_rx_error_length = rl_stat l RTNL_LINK_RX_LEN_ERR, sx_rx_error_missed = rl_stat l RTNL_LINK_RX_MISSED_ERR,
        sx_rx_error_over = rl_stat l RTNL_LINK_RX_OVER_ERR, sx_tx_byte = rl_stat l RTNL_LINK_TX_BYTES,
        sx_tx_packet = rl_stat l RTNL_LINK_TX_PACKETS, sx_tx_error = rl_stat l RTNL_LINK_TX_ERRORS,
        sx_tx_dropped = rl_stat l RTNL_LINK_TX_DROPPED, sx_tx_compressed = rl_stat l RTNL_LINK_TX_COMPRESSED,
        sx_tx_error_fifo = rl_stat l RTNL_LINK_TX_FIFO_ERR, sx_tx_error_carrier = rl_stat l RTNL_LINK_TX_CARRIER_ERR,
        sx_tx_error_heartbeat = rl_stat l RTNL_LINK_TX_HBEAT_ERR, sx_tx_error_window = rl_stat l RTNL_LINK_TX_WIN_ERR,
        sx_tx_error_aborted = rl_stat l RTNL_LINK_TX_ABORT_ERR\<rparr>), s)"

definition interface_statistics_cb :: "rtnl_link \<Rightarrow> interface_statistics link_list \<Rightarrow> os \<Rightarrow> (interface_statistics link_list \<times> os) option" where
  "interface_statistics_cb = link_append 2 interface_statistics_fill"

definition dabbad_interface_statistics_get :: "netlink \<Rightarrow> string list \<Rightarrow> os \<Rightarrow> (interface_statistics list option \<times> os) option" where
  "dabbad_interface_statistics_get = link_get interface_statistics_cb"

section \<open>Instances\<close>

text \<open>A request changes nothing the handlers keep track of.\<close>

lemma acq_request:
  assumes "acq s bs s1"
  shows "acq s bs (snd (dev_kernel_request r q s1))" "acq s bs (snd (dev_ethtool_request dev cmd v s1))"
  by (rule acq_tick [OF assms]; simp)+

lemma faultless_request:
  "faultless (snd (dev_kernel_request r q s)) = faultless s" "faultless (snd (dev_ethtool_request dev cmd v s)) = faultless s"
  by (simp_all add: faultless_def)

lemma ethtool_request_fd [simp]: "os_fd (snd (dev_ethtool_request dev cmd v s)) = os_fd s"
  by (simp add: dev_ethtool_request_def Let_def split_beta)

lemma acq_strndup:
  assumes "acq s bs s1" and "heap_wf s" and "strndup str n s1 = ((b, r), s2)"
  shows "acq s (somes [b] @ bs) s2 \<and> (faultless s1 \<longrightarrow> faultless s2)"
proof -
  from assms(3) have m: "malloc s1 = (b, s2)" by (auto simp: strndup_def split: prod.splits)
  with acq_allocs [OF assms(1) allocs_malloc [OF m acq_heap_wf [OF assms(1,2)]]] malloc_faultless [OF _ m] show ?thesis by simp
qed

interpretation status_r: link_reply interface_status_fill st_name
  by unfold_locales
    (auto simp: interface_status_fill_def ldab_dev_link_get_def Let_def split_beta faultless_request acq_request)

interpretation pause_r: link_reply interface_pause_fill pa_name
  by unfold_locales
    (auto simp: interface_pause_fill_def ldab_dev_pause_get_def Let_def split_beta faultless_request acq_request)

interpretation offload_r: link_reply interface_offload_fill of_name
  by unfold_locales
    (auto simp: interface_offload_fill_def ldab_dev_rx_csum_offload_get_def ldab_dev_tx_csum_offload_get_def
    ldab_dev_scatter_gather_get_def ldab_dev_tcp_seg_offload_get_def ldab_dev_udp_frag_offload_get_def ldab_dev_generic_seg_offload_get_def
    ldab_dev_generic_rcv_offload_get_def Let_def split_beta faultless_request acq_request)

interpretation settings_r: link_reply interface_settings_fill se_name
  by unfold_locales
    (auto simp: interface_settings_fill_def ldab_dev_settings_get_def Let_def split_beta faultless_request acq_request)

interpretation coalesce_r: link_reply interface_coalesce_fill ic_name
  by unfold_locales
    (auto simp: interface_coalesce_fill_def ldab_dev_coalesce_get_def Let_def split_beta faultless_request acq_request)

interpretation statistics_r: link_reply interface_statistics_fill sx_name
  by unfold_locales
    (auto simp: interface_statistics_fill_def  Let_def split_beta faultless_request acq_request)

lemma driver_fill_steps:
  assumes "interface_driver_fill l s1 = ((extra, x), s5)" and "acq s bs s1" and "heap_wf s"
  shows "acq s (somes extra @ bs) s5 \<and> (faultless s1 \<longrightarrow> faultless s5) \<and> dr_id x = rl_name l"
proof -
  obtain rc d s2 where d: "ldab_dev_driver_get (rl_name l) s1 = ((rc, d), s2)" by (metis surj_pair)
  obtain b1 n1 s3 where r1: "strndup (di_driver d) 32 s2 = ((b1, n1), s3)" by (metis surj_pair)
  obtain b2 n2 s4 where r2: "strndup (di_version d) 32 s3 = ((b2, n2), s4)" by (metis surj_pair)
  obtain b3 n3 s6 where r3: "strndup (di_fw_version d) 32 s4 = ((b3, n3), s6)" by (metis surj_pair)
  obtain b4 n4 s7 where r4: "strndup (di_bus_info d) 32 s6 = ((b4, n4), s7)" by (metis surj_pair)
  have a2: "acq s bs s2" "faultless s2 = faultless s1"
    using d acq_request [OF assms(2)] faultless_request by (auto simp: ldab_dev_driver_get_def Let_def split_beta)
  note a3 = acq_strndup [OF a2(1) assms(3) r1]
  note a4 = acq_strndup [OF conjunct1 [OF a3] assms(3) r2]
  note a5 = acq_strndup [OF conjunct1 [OF a4] assms(3) r3]
  note a6 = acq_strndup [OF conjunct1 [OF a5] assms(3) r4]
  have x: "extra = [b1, b2, b3, b4]" "dr_id x = rl_name l" "s5 = s7"
    using assms(1) d r1 r2 r3 r4 by (auto simp: interface_driver_fill_def)
  have "acq s (somes extra @ bs) s7"
    by (rule acq_perm [OF conjunct1 [OF a6]]) (simp add: x(1) somes_def)
  with x a2 a3 a4 a5 a6 show ?thesis by simp
qed

interpretation driver_r: link_reply interface_driver_fill dr_id
proof unfold_locales
  fix l s1 extra x s2 assume f: "interface_driver_fill l s1 = ((extra, x), s2)"
  show "acq s bs s1 \<Longrightarrow> heap_wf s \<Longrightarrow> acq s (somes extra @ bs) s2" for s bs using driver_fill_steps [OF f] by blast
  show "dr_id x = rl_name l" using f by (auto simp: interface_driver_fill_def Let_def split_beta)
  show "faultless s1 \<Longrightarrow> faultless s2" "os_fd s2 = os_fd s1"
    using f by (auto simp: interface_driver_fill_def ldab_dev_driver_get_def strndup_def Let_def split_beta faultless_def)
qed

section \<open>Every listing is complete\<close>

text \<open>
  C38: With the links of the system at hand, each of the seven procedures that report on interfaces (status, driver, pause,
  offload, settings, coalesce, statistics) answers with one entry per interface asked for, all of them when no name is
  given, in the order of the request; an entry is missing only when some call of the system failed, and all memory and
  descriptors used on the way are given back.
\<close>

theorem interfaces_listed:
  assumes "heap_wf s" and "link_cache_alloc nl s = Some (Some ls, s1)" and "rtnl_link_alloc nl s1"
  shows "lists_links nl names ls s st_name (dabbad_interface_status_get nl names s) \<and>
    lists_links nl names ls s dr_id (dabbad_interface_driver_get nl names s) \<and>
    lists_links nl names ls s pa_name (dabbad_interface_pause_get nl names s) \<and>
    lists_links nl names ls s of_name (dabbad_interface_offload_get nl names s) \<and>
    lists_links nl names ls s se_name (dabbad_interface_settings_get nl names s) \<and>
    lists_links nl names ls s ic_name (dabbad_interface_coalesce_get nl names s) \<and>
    lists_links nl names ls s sx_name (dabbad_interface_statistics_get nl names s)"
  using status_r.listed [OF assms] driver_r.listed [OF assms] pause_r.listed [OF assms] offload_r.listed [OF assms]
    settings_r.listed [OF assms] coalesce_r.listed [OF assms] statistics_r.listed [OF assms]
  unfolding dabbad_interface_status_get_def interface_status_cb_def dabbad_interface_driver_get_def interface_driver_cb_def
    dabbad_interface_pause_get_def interface_pause_cb_def dabbad_interface_offload_get_def interface_offload_cb_def
    dabbad_interface_settings_get_def interface_settings_cb_def dabbad_interface_coalesce_get_def interface_coalesce_cb_def
    dabbad_interface_statistics_get_def interface_statistics_cb_def
  by blast

theorem interfaces_listed_witness:
  "\<exists>x s'. dabbad_interface_pause_get demo_netlink [''eth0''] (boot (\<lambda>_. Succeed)) = Some (Some [x], s') \<and> pa_name x = ''eth0'' \<and>
     os_heap s' = {}"
proof -
  let ?s = "boot (\<lambda>_. Succeed)"
  have "heap_wf ?s" "rtnl_link_alloc demo_netlink (tick (tick (tick ?s)))" by (simp_all add: heap_wf_def demo_netlink_def)
  from interfaces_listed [OF this(1) demo_cache this(2), of "[''eth0'']"] obtain xs s' where
    "dabbad_interface_pause_get demo_netlink [''eth0''] ?s = Some (Some xs, s')" "acq ?s [] s'" "map pa_name xs = [''eth0'']"
    by (auto simp: lists_links_def asked_def demo_netlink_def demo_link_def faultless_def)
  then show ?thesis by (auto simp: acq_def)
qed

end
