(* ===== verification/Interface_Modify.thy ===== *)
theory Interface_Modify
  imports Interface_Get
begin

text \<open>
  The remote procedures that change the status, pause, offload, settings and coalesce values of an interface,
  \<^verbatim>\<open>src/dabbad/interface-*.c\<close>. A field of a request is \<open>None\<close> when it is absent. A handler returns the error code of its
  reply; those that look the link up first may fail in the library (\<open>None\<close>, see \<open>link_cache_alloc\<close>).
\<close>

section \<open>Status\<close>

record status_request =
  sq_name :: string
  sq_up :: "bool option"
  sq_promiscuous :: "bool option"

definition flag_set :: "bool option \<Rightarrow> u32 \<Rightarrow> link_set list" where
  "flag_set field flag = (case field of None \<Rightarrow> [] | Some b \<Rightarrow> [if b then Set_Flags flag else Unset_Flags flag])"

definition dabbad_interface_status_modify :: "netlink \<Rightarrow> status_request \<Rightarrow> os \<Rightarrow> (int \<times> os) option" where
  "dabbad_interface_status_modify nl m s =
     do {
       (cache, s1) \<leftarrow> link_cache_alloc nl s;
       let change = rtnl_link_alloc nl s1;
       let s2 = tick s1;
       (case cache of
          None \<Rightarrow> Some (ENOMEM, s2)
        | Some ls \<Rightarrow>
            if \<not> change then Some (ENOMEM, s2) else
            (case rtnl_link_get_by_name nl ls (sq_name m) of
               None \<Rightarrow> Some (ENODEV, s2)
             | Some link \<Rightarrow>
                 let sets = flag_set (sq_promiscuous m) (ucast IFF_PROMISC) @ flag_set (sq_up m) (ucast IFF_UP)
                 in Some (rtnl_link_change nl link sets s2, tick s2)))
     }"

section \<open>Pause\<close>

definition set_if :: "'v option \<Rightarrow> ('v \<Rightarrow> 'a \<Rightarrow> 'a) \<Rightarrow> 'a \<Rightarrow> 'a" where
  "set_if field upd x = (case field of None \<Rightarrow> x | Some v \<Rightarrow> upd v x)"

record pause_request =
  pq_name :: string
  pq_autoneg :: "u32 option"
  pq_rx_pause :: "u32 option"
  pq_tx_pause :: "u32 option"

definition dabbad_interface_pause_modify :: "pause_request \<Rightarrow> os \<Rightarrow> int \<times> os" where
  "dabbad_interface_pause_modify m s =
     (let ((rc, p), s1) = ldab_dev_pause_get (pq_name m) s in
      if rc \<noteq> 0 then (rc, s1) else
      let p = set_if (pq_rx_pause m) (\<lambda>v p. p\<lparr>rx_pause := v\<rparr>) p;
          p = set_if (pq_tx_pause m) (\<lambda>v p. p\<lparr>tx_pause := v\<rparr>) p;
          p = set_if (pq_autoneg m) (\<lambda>v p. p\<lparr>pp_autoneg := v\<rparr>) p;
          ((rc, _), s2) = ldab_dev_pause_set (pq_name m) p s1
      in (rc, s2))"

section \<open>Offloading\<close>

text \<open>The fields for large receive offload and receive hashing are part of the message, but the handler does not look at them.\<close>

record offload_request =
  oq_name :: string
  oq_rx_csum :: "u32 option"
  oq_tx_csum :: "u32 option"
  oq_sg :: "u32 option"
  oq_tso :: "u32 option"
  oq_ufo :: "u32 option"
  oq_gso :: "u32 option"
  oq_gro :: "u32 option"
  oq_lro :: "u32 option"
  oq_rxhash :: "u32 option"

text \<open>One of the conditional settings: skipped after an error or when the field is absent.\<close>

definition set_next :: "u32 option \<Rightarrow> (u32 \<Rightarrow> os \<Rightarrow> int \<times> os) \<Rightarrow> int \<times> os \<Rightarrow> int \<times> os" where
  "set_next field f r = (case field of Some v \<Rightarrow> if fst r = 0 then f v (snd r) else r | None \<Rightarrow> r)"

definition dabbad_interface_offload_modify :: "netlink \<Rightarrow> offload_request \<Rightarrow> os \<Rightarrow> (int \<times> os) option" where
  "dabbad_interface_offload_modify nl m s =
     do {
       (cache, s1) \<leftarrow> link_cache_alloc nl s;
       (case cache of
          None \<Rightarrow> Some (ENOMEM, s1)
        | Some ls \<Rightarrow>
            (case rtnl_link_get_by_name nl ls (oq_name m) of
               None \<Rightarrow> Some (ENODEV, s1)
             | Some link \<Rightarrow>
                 let r = set_next (oq_rx_csum m) (ldab_dev_rx_csum_offload_set (oq_name m)) (0, s1);
                     r = set_next (oq_tx_csum m) (ldab_dev_tx_csum_offload_set (oq_name m)) r;
                     r = set_next (oq_sg m) (ldab_dev_scatter_gather_set (oq_name m)) r;
                     r = set_next (oq_tso m) (ldab_dev_tcp_seg_offload_set (oq_name m)) r;
                     r = set_next (oq_ufo m) (ldab_dev_udp_frag_offload_set (oq_name m)) r;
                     r = set_next (oq_gso m) (ldab_dev_generic_seg_offload_set (oq_name m)) r;
                     r = set_next (oq_gro m) (ldab_dev_generic_rcv_offload_set (oq_name m)) r
                 in Some r))
     }"

section \<open>Settings\<close>

record settings_request =
  tq_name :: string
  tq_speed :: "u32 option"
  tq_duplex :: "u32 option"
  tq_autoneg :: "u32 option"
  tq_mtu :: "u32 option"
  tq_tx_qlen :: "u32 option"
  tq_port :: "u32 option"
  tq_maxrxpkt :: "u32 option"
  tq_maxtxpkt :: "u32 option"

definition ethtool_cmd_speed_set :: "u32 \<Rightarrow> ethtool_cmd \<Rightarrow> ethtool_cmd" where
  "ethtool_cmd_speed_set v ep = ep\<lparr>speed := ucast v, speed_hi := ucast (drop_bit 16 v)\<rparr>"

text \<open>A structure with the flag that tells whether a field was set.\<close>

definition mark_if :: "'v option \<Rightarrow> ('v \<Rightarrow> 'a \<Rightarrow> 'a) \<Rightarrow> 'a \<times> bool \<Rightarrow> 'a \<times> bool" where
  "mark_if field upd x = (case field of None \<Rightarrow> x | Some v \<Rightarrow> (upd v (fst x), True))"

definition settings_merge :: "settings_request \<Rightarrow> ethtool_cmd \<Rightarrow> ethtool_cmd \<times> bool" where
  "settings_merge m eth_set =
     (let x = mark_if (tq_speed m) ethtool_cmd_speed_set (eth_set, False);
          x = mark_if (tq_duplex m) (\<lambda>v c. c\<lparr>duplex := ucast v\<rparr>) x;
          x = mark_if (tq_autoneg m) (\<lambda>v c. c\<lparr>autoneg := ucast v\<rparr>) x;
          x = mark_if (tq_port m) (\<lambda>v c. c\<lparr>port := ucast v\<rparr>) x;
          x = mark_if (tq_maxrxpkt m) (\<lambda>v c. c\<lparr>maxrxpkt := v\<rparr>) x
      in mark_if (tq_maxtxpkt m) (\<lambda>v c. c\<lparr>maxtxpkt := v\<rparr>) x)"

text \<open>The result of the netlink change replaces that of the hardware settings.\<close>

definition dabbad_interface_settings_modify :: "netlink \<Rightarrow> settings_request \<Rightarrow> os \<Rightarrow> (int \<times> os) option" where
  "dabbad_interface_settings_modify nl m s =
     do {
       (cache, s1) \<leftarrow> link_cache_alloc nl s;
       let change = rtnl_link_alloc nl s1;
       let s2 = tick s1;
       (case cache of
          None \<Rightarrow> Some (ENOMEM, s2)
        | Some ls \<Rightarrow>
            if \<not> change then Some (ENOMEM, s2) else
            (case rtnl_link_get_by_name nl ls (tq_name m) of
               None \<Rightarrow> Some (ENODEV, s2)
             | Some link \<Rightarrow>
                 let ((rc, eth_set), s3) = ldab_dev_settings_get (tq_name m) s2;
                     (eth_set, eth_apply) = (if rc = 0 then settings_merge m eth_set else (eth_set, False));
                     sets = (case tq_mtu m of None \<Rightarrow> [] | Some v \<Rightarrow> [Set_Mtu v]) @
                            (case tq_tx_qlen m of None \<Rightarrow> [] | Some v \<Rightarrow> [Set_Txqlen v]);
                     (rc, s4) = (if rc = 0 \<and> eth_apply
                                 then let ((rc, _), s4) = ldab_dev_settings_set (tq_name m) eth_set s3 in (rc, s4)
                                 else (rc, s3))
                 in Some (if sets \<noteq> [] then (rtnl_link_change nl link sets s4, tick s4) else (rc, s4))))
     }"

section \<open>Coalescing\<close>

record coalesce_request =
  cq_name :: string
  cq_pkt_rate_high :: "u32 option"
  cq_pkt_rate_low :: "u32 option"
  cq_rate_sample_interval :: "u32 option"
  cq_stats_block_coalesce_usecs :: "u32 option"
  cq_use_adaptive_rx_coalesce :: "u32 option"
  cq_rx_coalesce_usecs :: "u32 option"
  cq_rx_coalesce_usecs_irq :: "u32 option"
  cq_rx_coalesce_usecs_high :: "u32 option"
  cq_rx_coalesce_usecs_low :: "u32 option"
  cq_rx_max_coalesced_frames :: "u32 option"
  cq_rx_max_coalesced_frames_irq :: "u32 option"
  cq_rx_max_coalesced_frames_high :: "u32 option"
  cq_rx_max_coalesced_frames_low :: "u32 option"
  cq_use_adaptive_tx_coalesce :: "u32 option"
  cq_tx_coalesce_usecs :: "u32 option"
  cq_tx_coalesce_usecs_irq :: "u32 option"
  cq_tx_coalesce_usecs_high :: "u32 option"
  cq_tx_coalesce_usecs_low :: "u32 option"
  cq_tx_max_coalesced_frames :: "u32 option"
  cq_tx_max_coalesced_frames_irq :: "u32 option"
  cq_tx_max_coalesced_frames_high :: "u32 option"
  cq_tx_max_coalesced_frames_low :: "u32 option"

definition coalesce_merge :: "coalesce_request \<Rightarrow> ethtool_coalesce \<Rightarrow> ethtool_coalesce \<times> bool" where
  "coalesce_merge m eth_coalesce =
     (let x = mark_if (cq_pkt_rate_high m) (\<lambda>v c. c\<lparr>pkt_rate_high := v\<rparr>) (eth_coalesce, False);
          x = mark_if (cq_pkt_rate_low m) (\<lambda>v c. c\<lparr>pkt_rate_low := v\<rparr>) x;
          x = mark_if (cq_pkt_rate_low m) (\<lambda>v c. c\<lparr>pkt_rate_low := v\<rparr>) x;
          x = mark_if (cq_rate_sample_interval m) (\<lambda>v c. c\<lparr>rate_sample_interval := v\<rparr>) x;
          x = mark_if (cq_stats_block_coalesce_usecs m) (\<lambda>v c. c\<lparr>stats_block_coalesce_usecs := v\<rparr>) x;
          x = mark_if (cq_use_adaptive_rx_coalesce m) (\<lambda>v c. c\<lparr>use_adaptive_rx_coalesce := v\<rparr>) x;
          x = mark_if (cq_rx_coalesce_usecs m) (\<lambda>v c. c\<lparr>rx_coalesce_usecs := v\<rparr>) x;
          x = mark_if (cq_rx_coalesce_usecs_irq m) (\<lambda>v c. c\<lparr>rx_coalesce_usecs_irq := v\<rparr>) x;
          x = mark_if (cq_rx_coalesce_usecs_high m) (\<lambda>v c. c\<lparr>rx_coalesce_usecs_high := v\<rparr>) x;
          x = mark_if (cq_rx_coalesce_usecs_low m) (\<lambda>v c. c\<lparr>rx_coalesce_usecs_low := v\<rparr>) x;
          x = mark_if (cq_rx_max_coalesced_frames m) (\<lambda>v c. c\<lparr>rx_max_coalesced_frames := v\<rparr>) x;
          x = mark_if (cq_rx_max_coalesced_frames_irq m) (\<lambda>v c. c\<lparr>rx_max_coalesced_frames_irq := v\<rparr>) x;
          x = mark_if (cq_rx_max_coalesced_frames_high m) (\<lambda>v c. c\<lparr>rx_max_coalesced_frames_high := v\<rparr>) x;
          x = mark_if (cq_rx_max_coalesced_frames_low m) (\<lambda>v c. c\<lparr>rx_max_coalesced_frames_low := v\<rparr>) x;
          x = mark_if (cq_use_adaptive_tx_coalesce m) (\<lambda>v c. c\<lparr>use_adaptive_tx_coalesce := v\<rparr>) x;
          x = mark_if (cq_tx_coalesce_usecs m) (\<lambda>v c. c\<lparr>tx_coalesce_usecs := v\<rparr>) x;
          x = mark_if (cq_tx_coalesce_usecs_irq m) (\<lambda>v c. c\<lparr>tx_coalesce_usecs_irq := v\<rparr>) x;
          x = mark_if (cq_tx_coalesce_usecs_high m) (\<lambda>v c. c\<lparr>tx_coalesce_usecs_high := v\<rparr>) x;
          x = mark_if (cq_tx_coalesce_usecs_low m) (\<lambda>v c. c\<lparr>tx_coalesce_usecs_low := v\<rparr>) x;
          x = mark_if (cq_tx_max_coalesced_frames m) (\<lambda>v c. c\<lparr>tx_max_coalesced_frames := v\<rparr>) x;
          x = mark_if (cq_tx_max_coalesced_frames_irq m) (\<lambda>v c. c\<lparr>tx_max_coalesced_frames_irq := v\<rparr>) x;
          x = mark_if (cq_tx_max_coalesced_frames_high m) (\<lambda>v c. c\<lparr>tx_max_coalesced_frames_high := v\<rparr>) x
      in mark_if (cq_tx_max_coalesced_frames_low m) (\<lambda>v c. c\<lparr>tx_max_coalesced_frames_low := v\<rparr>) x)"

definition dabbad_interface_coalesce_modify :: "coalesce_request \<Rightarrow> os \<Rightarrow> int \<times> os" where
  "dabbad_interface_coalesce_modify m s =
     (let ((rc, eth_coalesce), s1) = ldab_dev_coalesce_get (cq_name m) s in
      if rc \<noteq> 0 then (rc, s1) else
      let (eth_coalesce, apply) = coalesce_merge m eth_coalesce in
      if apply then let ((rc, _), s2) = ldab_dev_coalesce_set (cq_name m) eth_coalesce s1 in (rc, s2)
      else (rc, s1))"

section \<open>Read, change, write\<close>

text \<open>The structure a merge must give: each field the requested value, or the one that was read.\<close>

definition coalesce_wanted :: "coalesce_request \<Rightarrow> ethtool_coalesce \<Rightarrow> ethtool_coalesce" where
  "coalesce_wanted m c = c\<lparr>
     pkt_rate_high := (case cq_pkt_rate_high m of Some v \<Rightarrow> v | None \<Rightarrow> pkt_rate_high c),
     pkt_rate_low := (case cq_pkt_rate_low m of Some v \<Rightarrow> v | None \<Rightarrow> pkt_rate_low c),
     rate_sample_interval := (case cq_rate_sample_interval m of Some v \<Rightarrow> v | None \<Rightarrow> rate_sample_interval c),
     stats_block_coalesce_usecs := (case cq_stats_block_coalesce_usecs m of Some v \<Rightarrow> v | None \<Rightarrow> stats_block_coalesce_usecs c),
     use_adaptive_rx_coalesce := (case cq_use_adaptive_rx_coalesce m of Some v \<Rightarrow> v | None \<Rightarrow> use_adaptive_rx_coalesce c),
     rx_coalesce_usecs := (case cq_rx_coalesce_usecs m of Some v \<Rightarrow> v | None \<Rightarrow> rx_coalesce_usecs c),
     rx_coalesce_usecs_irq := (case cq_rx_coalesce_usecs_irq m of Some v \<Rightarrow> v | None \<Rightarrow> rx_coalesce_usecs_irq c),
     rx_coalesce_usecs_high := (case cq_rx_coalesce_usecs_high m of Some v \<Rightarrow> v | None \<Rightarrow> rx_coalesce_usecs_high c),
     rx_coalesce_usecs_low := (case cq_rx_coalesce_usecs_low m of Some v \<Rightarrow> v | None \<Rightarrow> rx_coalesce_usecs_low c),
     rx_max_coalesced_frames := (case cq_rx_max_coalesced_frames m of Some v \<Rightarrow> v | None \<Rightarrow> rx_max_coalesced_frames c),
     rx_max_coalesced_frames_irq := (case cq_rx_max_coalesced_frames_irq m of Some v \<Rightarrow> v | None \<Rightarrow> rx_max_coalesced_frames_irq c),
     rx_max_coalesced_frames_high := (case cq_rx_max_coalesced_frames_high m of Some v \<Rightarrow> v | None \<Rightarrow> rx_max_coalesced_frames_high c),
     rx_max_coalesced_frames_low := (case cq_rx_max_coalesced_frames_low m of Some v \<Rightarrow> v | None \<Rightarrow> rx_max_coalesced_frames_low c),
     use_adaptive_tx_coalesce := (case cq_use_adaptive_tx_coalesce m of Some v \<Rightarrow> v | None \<Rightarrow> use_adaptive_tx_coalesce c),
     tx_coalesce_usecs := (case cq_tx_coalesce_usecs m of Some v \<Rightarrow> v | None \<Rightarrow> tx_coalesce_usecs c),
     tx_coalesce_usecs_irq := (case cq_tx_coalesce_usecs_irq m of Some v \<Rightarrow> v | None \<Rightarrow> tx_coalesce_usecs_irq c),
     tx_coalesce_usecs_high := (case cq_tx_coalesce_usecs_high m of Some v \<Rightarrow> v | None \<Rightarrow> tx_coalesce_usecs_high c),
     tx_coalesce_usecs_low := (case cq_tx_coalesce_usecs_low m of Some v \<Rightarrow> v | None \<Rightarrow> tx_coalesce_usecs_low c),
     tx_max_coalesced_frames := (case cq_tx_max_coalesced_frames m of Some v \<Rightarrow> v | None \<Rightarrow> tx_max_coalesced_frames c),
     tx_max_coalesced_frames_irq := (case cq_tx_max_coalesced_frames_irq m of Some v \<Rightarrow> v | None \<Rightarrow> tx_max_coalesced_frames_irq c),
     tx_max_coalesced_frames_high := (case cq_tx_max_coalesced_frames_high m of Some v \<Rightarrow> v | None \<Rightarrow> tx_max_coalesced_frames_high c),
     tx_max_coalesced_frames_low := (case cq_tx_max_coalesced_frames_low m of Some v \<Rightarrow> v | None \<Rightarrow> tx_max_coalesced_frames_low c)\<rparr>"

definition coalesce_asks :: "coalesce_request \<Rightarrow> bool" where
  "coalesce_asks m \<longleftrightarrow> list_ex (\<lambda>f. f m \<noteq> None)
     [cq_pkt_rate_high, cq_pkt_rate_low, cq_rate_sample_interval, cq_stats_block_coalesce_usecs,
      cq_use_adaptive_rx_coalesce, cq_rx_coalesce_usecs, cq_rx_coalesce_usecs_irq, cq_rx_coalesce_usecs_high,
      cq_rx_coalesce_usecs_low, cq_rx_max_coalesced_frames, cq_rx_max_coalesced_frames_irq, cq_rx_max_coalesced_frames_high,
      cq_rx_max_coalesced_frames_low, cq_use_adaptive_tx_coalesce, cq_tx_coalesce_usecs, cq_tx_coalesce_usecs_irq,
      cq_tx_coalesce_usecs_high, cq_tx_coalesce_usecs_low, cq_tx_max_coalesced_frames, cq_tx_max_coalesced_frames_irq,
      cq_tx_max_coalesced_frames_high, cq_tx_max_coalesced_frames_low]"

lemma mark_if_fst: "fst (mark_if f u x) = set_if f u (fst x)"
  by (simp add: mark_if_def set_if_def split: option.split)

lemma mark_if_snd: "snd (mark_if f u x) \<longleftrightarrow> snd x \<or> f \<noteq> None"
  by (auto simp: mark_if_def split: option.split)

text \<open>Reading a field after a conditional store: of that field, and of any other.\<close>

lemma set_if_get: "(\<And>v c. g (u v c) = v) \<Longrightarrow> g (set_if f u x) = (case f of Some v \<Rightarrow> v | None \<Rightarrow> g x)"
  by (simp add: set_if_def split: option.split)

lemma set_if_other: "(\<And>v c. g (u v c) = g c) \<Longrightarrow> g (set_if f u x) = g x"
  by (simp add: set_if_def split: option.split)

lemmas coalesce_get =
  set_if_get [of pkt_rate_high] set_if_get [of pkt_rate_low]
  set_if_get [of rate_sample_interval] set_if_get [of stats_block_coalesce_usecs]
  set_if_get [of use_adaptive_rx_coalesce] set_if_get [of rx_coalesce_usecs]
  set_if_get [of rx_coalesce_usecs_irq] set_if_get [of rx_coalesce_usecs_high]
  set_if_get [of rx_coalesce_usecs_low] set_if_get [of rx_max_coalesced_frames]
  set_if_get [of rx_max_coalesced_frames_irq] set_if_get [of rx_max_coalesced_frames_high]
  set_if_get [of rx_max_coalesced_frames_low] set_if_get [of use_adaptive_tx_coalesce]
  set_if_get [of tx_coalesce_usecs] set_if_get [of tx_coalesce_usecs_irq]
  set_if_get [of tx_coalesce_usecs_high] set_if_get [of tx_coalesce_usecs_low]
  set_if_get [of tx_max_coalesced_frames] set_if_get [of tx_max_coalesced_frames_irq]
  set_if_get [of tx_max_coalesced_frames_high] set_if_get [of tx_max_coalesced_frames_low]

lemmas coalesce_other =
  set_if_other [of co_cmd] set_if_other [of pkt_rate_high]
  set_if_other [of pkt_rate_low] set_if_other [of rate_sample_interval]
  set_if_other [of stats_block_coalesce_usecs] set_if_other [of use_adaptive_rx_coalesce]
  set_if_other [of rx_coalesce_usecs] set_if_other [of rx_coalesce_usecs_irq]
  set_if_other [of rx_coalesce_usecs_high] set_if_other [of rx_coalesce_usecs_low]
  set_if_other [of rx_max_coalesced_frames] set_if_other [of rx_max_coalesced_frames_irq]
  set_if_other [of rx_max_coalesced_frames_high] set_if_other [of rx_max_coalesced_frames_low]
  set_if_other [of use_adaptive_tx_coalesce] set_if_other [of tx_coalesce_usecs]
  set_if_other [of tx_coalesce_usecs_irq] set_if_other [of tx_coalesce_usecs_high]
  set_if_other [of tx_coalesce_usecs_low] set_if_other [of tx_max_coalesced_frames]
  set_if_other [of tx_max_coalesced_frames_irq] set_if_other [of tx_max_coalesced_frames_high]
  set_if_other [of tx_max_coalesced_frames_low]

lemma coalesce_merge_snd: "snd (coalesce_merge m c) \<longleftrightarrow> coalesce_asks m"
  by (simp add: coalesce_merge_def coalesce_asks_def mark_if_snd Let_def)

lemma coalesce_merge_fst: "fst (coalesce_merge m c) = coalesce_wanted m c"
  by (rule ethtool_coalesce.equality)
    (simp_all add: coalesce_merge_def coalesce_wanted_def mark_if_fst coalesce_get coalesce_other Let_def split: option.split)

text \<open>The requests that read and write the values, and the structure read.\<close>

definition get_coalesce :: "string \<Rightarrow> ifreq" where
  "get_coalesce dev = (set_name dev)\<lparr>ifr_data := Coalesce (empty_coalesce\<lparr>co_cmd := ETHTOOL_GCOALESCE\<rparr>)\<rparr>"

definition set_coalesce :: "string \<Rightarrow> ethtool_coalesce \<Rightarrow> ifreq" where
  "set_coalesce dev c = (set_name dev)\<lparr>ifr_data := Coalesce (c\<lparr>co_cmd := ETHTOOL_SCOALESCE\<rparr>)\<rparr>"

definition answer_coalesce :: "ifreq \<Rightarrow> ethtool_coalesce" where
  "answer_coalesce r = coalesce_of (empty_coalesce\<lparr>co_cmd := ETHTOOL_GCOALESCE\<rparr>) (ifr_data r)"

text \<open>
  Whether the kernel accepts a request, after a history of others. A request that was handed over and did not give 0 was refused.
\<close>

definition accepted :: "os \<Rightarrow> (dev_request \<times> ifreq) list \<Rightarrow> dev_request \<Rightarrow> ifreq \<Rightarrow> bool" where
  "accepted s h q r \<longleftrightarrow> (case fst (os_ioctl s h q r) of Fail _ \<Rightarrow> False | _ \<Rightarrow> True)"

lemma dev_kernel_request_refused:
  assumes "dev_kernel_request r q s = ((rc, r'), s')" and "rc \<noteq> 0" and "os_hist s' \<noteq> os_hist s"
  shows "\<not> accepted s (os_hist s) q r"
proof -
  obtain n s1 where sk: "socket s = (n, s1)" by force
  note fr = socket_frame [of s, unfolded sk snd_conv]
  obtain rc1 r1 s2 where i: "ioctl_dev n q r s1 = ((rc1, r1), s2)" by (metis surj_pair)
  have "0 \<le> n" "rc1 \<noteq> 0" "os_hist s2 = os_hist s'" using assms sk i fr by (auto simp: dev_kernel_request_def Let_def split_beta split: if_splits)
  with i assms(3) fr show ?thesis by (auto simp: ioctl_dev_def accepted_def split: if_splits prod.splits outcome.splits)
qed

text \<open>
  C39: Changing the coalescing values of an interface reads them, replaces exactly the fields present in the request and
  writes the whole structure back, in this order and with no other request to the kernel; nothing is written when no
  field is present or the reading fails. The reply is 0 only when everything asked for was done: the kernel accepted the
  reading and, if a field is present, the writing. A write the kernel refused is never reported as 0. Descriptors and
  memory are as before in every case.
\<close>

theorem coalesce_modify_spec:
  assumes "dabbad_interface_coalesce_modify m s = (rc, s')"
  shows "os_fd s' = os_fd s \<and> os_heap s' = os_heap s \<and>
    (let get = (SIOCETHTOOL, get_coalesce (cq_name m)); set = (\<lambda>r. set_coalesce (cq_name m) (coalesce_wanted m (answer_coalesce r))) in
     if rc = 0
     then \<exists>r. granted s SIOCETHTOOL (get_coalesce (cq_name m)) r \<and>
       (if coalesce_asks m
        then accepted s (os_hist s @ [get]) SIOCETHTOOL (set r) \<and> os_hist s' = os_hist s @ [get, (SIOCETHTOOL, set r)]
        else os_hist s' = os_hist s @ [get])
     else os_hist s' = os_hist s \<or> os_hist s' = os_hist s @ [get] \<or>
       (\<exists>r. coalesce_asks m \<and> granted s SIOCETHTOOL (get_coalesce (cq_name m)) r \<and>
          \<not> accepted s (os_hist s @ [get]) SIOCETHTOOL (set r) \<and> os_hist s' = os_hist s @ [get, (SIOCETHTOOL, set r)]))"
proof -
  let ?dev = "cq_name m"
  obtain rc1 r s1 where g: "dev_kernel_request (get_coalesce ?dev) SIOCETHTOOL s = ((rc1, r), s1)" by (metis surj_pair)
  note gr = dev_kernel_request_result [OF g]
  note gf = dev_kernel_request_frame [of "get_coalesce ?dev" SIOCETHTOOL s, unfolded g snd_conv]
  let ?w = "coalesce_wanted m (answer_coalesce r)"
  obtain rc2 r2 s2 where t: "dev_kernel_request (set_coalesce ?dev ?w) SIOCETHTOOL s1 = ((rc2, r2), s2)" by (metis surj_pair)
  note tr = dev_kernel_request_result [OF t]
  note tf = dev_kernel_request_frame [of "set_coalesce ?dev ?w" SIOCETHTOOL s1, unfolded t snd_conv]
  have acc: "accepted s1 h q x = accepted s h q x" for h q x using gf by (simp add: accepted_def)
  have ok: "rc2 = 0 \<Longrightarrow> accepted s (os_hist s1) SIOCETHTOOL (set_coalesce ?dev ?w)" using tr gf by (auto simp: granted_def accepted_def)
  note no = dev_kernel_request_refused [OF t, unfolded acc]
  obtain ap where mg: "coalesce_merge m (answer_coalesce r) = (?w, ap)" "ap = coalesce_asks m"
    by (metis coalesce_merge_fst coalesce_merge_snd prod.collapse)
  have "(rc, s') = (if rc1 \<noteq> 0 then (rc1, s1) else if coalesce_asks m then (rc2, s2) else (0, s1))"
    using assms g t mg
    by (simp add: dabbad_interface_coalesce_modify_def ldab_dev_coalesce_get_def ldab_dev_coalesce_set_def get_coalesce_def
        set_coalesce_def answer_coalesce_def Let_def split: if_splits)
  then show ?thesis using gr tr gf tf ok no by (auto simp: Let_def split: if_splits)
qed

text \<open>A kernel that grants every request and answers with what it got.\<close>

definition demo_kernel :: os where
  "demo_kernel = (boot (\<lambda>_. Succeed))\<lparr>os_ioctl := (\<lambda>h q r. (Succeed, r))\<rparr>"

definition echoes :: "os \<Rightarrow> bool" where
  "echoes s \<longleftrightarrow> faultless s \<and> free_fds s \<noteq> [] \<and> os_ioctl s = (\<lambda>h q r. (Succeed, r))"

lemma echoes_demo: "echoes demo_kernel"
  by (simp add: echoes_def demo_kernel_def faultless_def free_fds_def upt_rec)

lemma echoes_request:
  assumes "echoes s"
  obtains s' where "dev_kernel_request r q s = ((0, r), s')" "echoes s'"
  using dev_kernel_request_ok [of s q r r] assms that
  by (auto simp: echoes_def granted_def faultless_def free_fds_def)

definition demo_coalesce :: coalesce_request where
  "demo_coalesce = \<lparr>cq_name = ''eth0'', cq_pkt_rate_high = None, cq_pkt_rate_low = None, cq_rate_sample_interval = None,
     cq_stats_block_coalesce_usecs = None, cq_use_adaptive_rx_coalesce = None, cq_rx_coalesce_usecs = Some 7,
     cq_rx_coalesce_usecs_irq = None, cq_rx_coalesce_usecs_high = None, cq_rx_coalesce_usecs_low = None,
     cq_rx_max_coalesced_frames = None, cq_rx_max_coalesced_frames_irq = None, cq_rx_max_coalesced_frames_high = None,
     cq_rx_max_coalesced_frames_low = None, cq_use_adaptive_tx_coalesce = None, cq_tx_coalesce_usecs = None,
     cq_tx_coalesce_usecs_irq = None, cq_tx_coalesce_usecs_high = None, cq_tx_coalesce_usecs_low = None,
     cq_tx_max_coalesced_frames = None, cq_tx_max_coalesced_frames_irq = None, cq_tx_max_coalesced_frames_high = None,
     cq_tx_max_coalesced_frames_low = None\<rparr>"

lemma demo_coalesce_simps:
  "cq_name demo_coalesce = ''eth0''" "coalesce_asks demo_coalesce"
  "coalesce_wanted demo_coalesce c = c\<lparr>rx_coalesce_usecs := 7\<rparr>"
  by (simp_all add: demo_coalesce_def coalesce_asks_def coalesce_wanted_def)

lemma demo_coalesce_runs: "\<exists>s'. dabbad_interface_coalesce_modify demo_coalesce demo_kernel = (0, s')"
proof -
  obtain s1 where s1: "dev_kernel_request (get_coalesce ''eth0'') SIOCETHTOOL demo_kernel = ((0, get_coalesce ''eth0''), s1)" "echoes s1"
    by (rule echoes_request [OF echoes_demo])
  let ?t = "set_coalesce ''eth0'' (empty_coalesce\<lparr>co_cmd := ETHTOOL_GCOALESCE, rx_coalesce_usecs := 7\<rparr>)"
  obtain s2 where s2: "dev_kernel_request ?t SIOCETHTOOL s1 = ((0, ?t), s2)" by (rule echoes_request [OF s1(2)])
  have "coalesce_merge demo_coalesce c = (c\<lparr>rx_coalesce_usecs := 7\<rparr>, True)" for c
    by (rule prod_eqI) (simp_all add: coalesce_merge_fst coalesce_merge_snd demo_coalesce_simps)
  with s1(1) s2 show ?thesis
    by (simp add: dabbad_interface_coalesce_modify_def ldab_dev_coalesce_get_def ldab_dev_coalesce_set_def get_coalesce_def
        set_coalesce_def demo_coalesce_simps coalesce_of_def)
qed

theorem coalesce_modify_spec_witness:
  "\<exists>s'. dabbad_interface_coalesce_modify demo_coalesce demo_kernel = (0, s') \<and>
     accepted demo_kernel [(SIOCETHTOOL, get_coalesce ''eth0'')] SIOCETHTOOL (set_coalesce ''eth0'' (empty_coalesce\<lparr>rx_coalesce_usecs := 7\<rparr>)) \<and>
     os_hist s' = [(SIOCETHTOOL, get_coalesce ''eth0''),
       (SIOCETHTOOL, set_coalesce ''eth0'' (empty_coalesce\<lparr>rx_coalesce_usecs := 7\<rparr>))]"
proof -
  obtain s' where m: "dabbad_interface_coalesce_modify demo_coalesce demo_kernel = (0, s')" using demo_coalesce_runs by blast
  from coalesce_modify_spec [OF m] m show ?thesis
    by (auto simp: demo_coalesce_simps answer_coalesce_def granted_def accepted_def demo_kernel_def set_coalesce_def get_coalesce_def coalesce_of_def)
qed

section \<open>What a change leaves\<close>

text \<open>Every change gives back the memory and the descriptors it takes.\<close>

definition gives_back :: "os \<Rightarrow> os \<Rightarrow> bool" where
  "gives_back s s' \<longleftrightarrow> acq s [] s' \<and> os_fd s' = os_fd s"

lemma gives_back_refl [simp]: "gives_back s s"
  by (simp add: gives_back_def acq_refl)

lemma gives_back_request:
  assumes "gives_back s t"
  shows "gives_back s (tick t)" "gives_back s (snd (dev_kernel_request r q t))" "gives_back s (snd (dev_ethtool_request dev cmd v t))"
  using assms acq_request [of s "[]" t] by (simp_all add: gives_back_def)

lemmas settings_requests = ldab_dev_settings_get_def ldab_dev_settings_set_def Let_def split_beta gives_back_request

lemma gives_back_cache:
  assumes "Option.bind (link_cache_alloc nl s) f = Some x"
  obtains c s1 where "f (c, s1) = Some x" "gives_back s s1"
  using assms by (rule cache_bindE) (simp add: gives_back_def that)

lemma status_modify_back:
  assumes "dabbad_interface_status_modify nl m s = Some (rc, s')" shows "gives_back s s'"
  using assms unfolding dabbad_interface_status_modify_def
proof (rule gives_back_cache, goal_cases)
  case (1 c s1)
  then show ?case
    by (cases c; cases "rtnl_link_get_by_name nl (the c) (sq_name m)") (auto simp: Let_def gives_back_request split: if_splits)
qed

lemma settings_modify_back:
  assumes "dabbad_interface_settings_modify nl m s = Some (rc, s')" shows "gives_back s s'"
  using assms unfolding dabbad_interface_settings_modify_def
proof (rule gives_back_cache, goal_cases)
  case (1 c s1)
  then show ?case
    by (cases c; cases "rtnl_link_get_by_name nl (the c) (tq_name m)") (auto simp: settings_requests split: if_splits)
qed

lemma set_next_back:
  assumes "gives_back s (snd r)" and "\<And>v t. gives_back s t \<Longrightarrow> gives_back s (snd (f v t))"
  shows "gives_back s (snd (set_next field f r))"
  using assms by (simp add: set_next_def split: option.split)

lemmas offload_requests = ldab_dev_rx_csum_offload_set_def ldab_dev_tx_csum_offload_set_def ldab_dev_scatter_gather_set_def
  ldab_dev_tcp_seg_offload_set_def ldab_dev_udp_frag_offload_set_def ldab_dev_generic_seg_offload_set_def
  ldab_dev_generic_rcv_offload_set_def Let_def split_beta gives_back_request

lemma offload_modify_back:
  assumes "dabbad_interface_offload_modify nl m s = Some (rc, s')" shows "gives_back s s'"
  using assms unfolding dabbad_interface_offload_modify_def
proof (rule gives_back_cache, goal_cases)
  case (1 c s1)
  have last: "gives_back s s'"
    if "set_next f g r = (rc, s')" "gives_back s (snd r)" "\<And>v t. gives_back s t \<Longrightarrow> gives_back s (snd (g v t))" for f g r
    using set_next_back [of s r g f] that by simp
  show ?case
  proof (cases c)
    case (Some ls)
    with 1 show ?thesis
      by (cases "rtnl_link_get_by_name nl ls (oq_name m)")
        (auto simp: Let_def intro!: set_next_back elim!: last simp: offload_requests)
  qed (use 1 in simp)
qed

lemma pause_coalesce_modify_back:
  "gives_back s (snd (dabbad_interface_pause_modify m s))" "gives_back s (snd (dabbad_interface_coalesce_modify m' s))"
  by (simp_all add: dabbad_interface_pause_modify_def dabbad_interface_coalesce_modify_def ldab_dev_pause_get_def ldab_dev_pause_set_def
      ldab_dev_coalesce_get_def ldab_dev_coalesce_set_def Let_def split_beta gives_back_request)

section \<open>Errors of the hardware settings\<close>

definition get_settings :: "string \<Rightarrow> ifreq" where
  "get_settings dev = (set_name dev)\<lparr>ifr_data := Cmd (empty_cmd\<lparr>ec_cmd := ETHTOOL_GSET\<rparr>)\<rparr>"

text \<open>A device without the ethtool operations.\<close>

definition no_ethtool :: "os \<Rightarrow> bool" where
  "no_ethtool s \<longleftrightarrow> (\<forall>h r. \<exists>e. fst (os_ioctl s h SIOCETHTOOL r) = Fail e)"

lemma no_ethtool_get:
  assumes "no_ethtool s"
  obtains rc c s' where "ldab_dev_settings_get dev s = ((rc, c), s')" "rc \<noteq> 0"
    "set (os_hist s') \<subseteq> set (os_hist s) \<union> {(SIOCETHTOOL, get_settings dev)}"
proof -
  let ?r = "get_settings dev"
  obtain rc r' s' where k: "dev_kernel_request ?r SIOCETHTOOL s = ((rc, r'), s')" by (metis surj_pair)
  have "\<not> granted s SIOCETHTOOL ?r r'"
    using assms by (auto simp: no_ethtool_def granted_def split: outcome.splits dest: spec2 [of _ "os_hist s" ?r])
  with dev_kernel_request_result [OF k] k show ?thesis by (intro that [of rc "cmd_of (empty_cmd\<lparr>ec_cmd := ETHTOOL_GSET\<rparr>) (ifr_data r')" s'])
      (auto simp: ldab_dev_settings_get_def get_settings_def Let_def)
qed

text \<open>What a request changes through netlink.\<close>

definition link_changes :: "settings_request \<Rightarrow> link_set list" where
  "link_changes m = (case tq_mtu m of None \<Rightarrow> [] | Some v \<Rightarrow> [Set_Mtu v]) @ (case tq_tx_qlen m of None \<Rightarrow> [] | Some v \<Rightarrow> [Set_Txqlen v])"

text \<open>
  C40: On a device that refuses the ethtool requests, a request to change settings never reaches the hardware: no value
  is written, whatever speed, duplex mode or port it asks for. The reply reports the failure only if the request names
  neither a maximum transfer unit nor a queue length; if it does and netlink accepts these, the reply is 0.
\<close>

theorem settings_error_masked:
  assumes "link_cache_alloc nl s = Some (Some ls, s1)" and "rtnl_link_alloc nl s1"
    and "rtnl_link_get_by_name nl ls (tq_name m) = Some link"
    and "no_ethtool (tick s1)" and "\<And>t. rtnl_link_change nl link (link_changes m) t = 0"
  shows "\<exists>rc s'. dabbad_interface_settings_modify nl m s = Some (rc, s') \<and> (rc = 0 \<longleftrightarrow> link_changes m \<noteq> []) \<and>
    set (os_hist s') \<subseteq> set (os_hist s1) \<union> {(SIOCETHTOOL, get_settings (tq_name m))}"
proof -
  obtain rc c s3 where "ldab_dev_settings_get (tq_name m) (tick s1) = ((rc, c), s3)" "rc \<noteq> 0"
    "set (os_hist s3) \<subseteq> set (os_hist (tick s1)) \<union> {(SIOCETHTOOL, get_settings (tq_name m))}"
    by (rule no_ethtool_get [OF assms(4)])
  with assms(1-3,5) show ?thesis
    by (auto simp: dabbad_interface_settings_modify_def link_changes_def Let_def)
qed

definition demo_settings :: settings_request where
  "demo_settings = \<lparr>tq_name = ''eth0'', tq_speed = Some 100, tq_duplex = None, tq_autoneg = None, tq_mtu = Some 9000,
     tq_tx_qlen = None, tq_port = None, tq_maxrxpkt = None, tq_maxtxpkt = None\<rparr>"

theorem settings_error_masked_witness:
  "\<exists>s'. dabbad_interface_settings_modify demo_netlink demo_settings (boot (\<lambda>_. Succeed)) = Some (0, s') \<and>
     tq_speed demo_settings \<noteq> None \<and> set (os_hist s') \<subseteq> {(SIOCETHTOOL, get_settings ''eth0'')}"
proof -
  let ?s = "boot (\<lambda>_. Succeed)"
  have "rtnl_link_alloc demo_netlink (tick (tick (tick ?s)))"
    "rtnl_link_get_by_name demo_netlink [demo_link ''lo'', demo_link ''eth0''] (tq_name demo_settings) = Some (demo_link ''eth0'')"
    "no_ethtool (tick (tick (tick (tick ?s))))"
    "\<And>t. rtnl_link_change demo_netlink (demo_link ''eth0'') (link_changes demo_settings) t = 0"
    by (simp_all add: demo_netlink_def demo_link_def demo_settings_def no_ethtool_def)
  from settings_error_masked [OF demo_cache this] show ?thesis
    by (auto simp: link_changes_def demo_settings_def)
qed

end
