(* ===== verification/Capabilities.thy ===== *)
theory Capabilities
  imports Interface_Modify
begin

text \<open>
  The capabilities of an interface, \<^verbatim>\<open>src/dabbad/interface-capabilities.c\<close>: the list of supported and advertised
  speeds and options, and the procedure that changes what is advertised. The words of \<^verbatim>\<open>struct ethtool_cmd\<close> are
  sets of bits; a boolean of the reply is the bit where it stands in the word, so it is not 0 or 1.
\<close>

section \<open>Bits\<close>

text \<open>\<^verbatim>\<open>SUPPORTED_\<close> and \<^verbatim>\<open>ADVERTISED_\<close> name the same bits.\<close>

definition CAP_10baseT_Half :: u32 where "CAP_10baseT_Half = 0x1"
definition CAP_10baseT_Full :: u32 where "CAP_10baseT_Full = 0x2"
definition CAP_100baseT_Half :: u32 where "CAP_100baseT_Half = 0x4"
definition CAP_100baseT_Full :: u32 where "CAP_100baseT_Full = 0x8"
definition CAP_1000baseT_Half :: u32 where "CAP_1000baseT_Half = 0x10"
definition CAP_1000baseT_Full :: u32 where "CAP_1000baseT_Full = 0x20"
definition CAP_Autoneg :: u32 where "CAP_Autoneg = 0x40"
definition CAP_TP :: u32 where "CAP_TP = 0x80"
definition CAP_AUI :: u32 where "CAP_AUI = 0x100"
definition CAP_MII :: u32 where "CAP_MII = 0x200"
definition CAP_FIBRE :: u32 where "CAP_FIBRE = 0x400"
definition CAP_BNC :: u32 where "CAP_BNC = 0x800"
definition CAP_10000baseT_Full :: u32 where "CAP_10000baseT_Full = 0x1000"
definition CAP_Pause :: u32 where "CAP_Pause = 0x2000"

definition PORT_TP :: u8 where "PORT_TP = 0"
definition PORT_AUI :: u8 where "PORT_AUI = 1"
definition PORT_MII :: u8 where "PORT_MII = 2"
definition PORT_FIBRE :: u8 where "PORT_FIBRE = 3"
definition PORT_BNC :: u8 where "PORT_BNC = 4"

section \<open>Listing\<close>

record duplex_capabilities =
  dx_half :: u32
  dx_full :: u32

record option_capabilities =
  op_autoneg :: u32
  op_pause :: u32

record speed_capabilities =
  sp_ethernet :: duplex_capabilities
  sp_fast_ethernet :: duplex_capabilities
  sp_gbps_ethernet :: duplex_capabilities
  sp_10gbps_ethernet :: duplex_capabilities

record interface_capabilities =
  ca_code :: int
  ca_name :: string
  ca_tp :: u32
  ca_aui :: u32
  ca_mii :: u32
  ca_fibre :: u32
  ca_bnc :: u32
  ca_supported_opt :: option_capabilities
  ca_advertising_opt :: option_capabilities
  ca_lp_advertising_opt :: option_capabilities
  ca_supported_speed :: speed_capabilities
  ca_advertising_speed :: speed_capabilities
  ca_lp_advertising_speed :: speed_capabilities

text \<open>The three groups of assignments differ only in the word they read.\<close>

definition speed_of :: "u32 \<Rightarrow> speed_capabilities" where
  "speed_of w = \<lparr>
     sp_ethernet = \<lparr>dx_half = w AND CAP_10baseT_Half, dx_full = w AND CAP_10baseT_Full\<rparr>,
     sp_fast_ethernet = \<lparr>dx_half = w AND CAP_100baseT_Half, dx_full = w AND CAP_100baseT_Full\<rparr>,
     sp_gbps_ethernet = \<lparr>dx_half = w AND CAP_1000baseT_Half, dx_full = w AND CAP_1000baseT_Full\<rparr>,
     sp_10gbps_ethernet = \<lparr>dx_half = 0, dx_full = w AND CAP_10000baseT_Full\<rparr>\<rparr>"

definition option_of :: "u32 \<Rightarrow> option_capabilities" where
  "option_of w = \<lparr>op_autoneg = w AND CAP_Autoneg, op_pause = w AND CAP_Pause\<rparr>"

definition interface_capabilities_fill :: "rtnl_link \<Rightarrow> nat option list \<Rightarrow> os \<Rightarrow> (nat option list \<times> interface_capabilities) \<times> os" where
  "interface_capabilities_fill l blocks s =
     (let ((rc, c), s1) = ldab_dev_settings_get (rl_name l) s
      in ((blocks, \<lparr>ca_code = rc, ca_name = rl_name l,
           ca_tp = supported c AND CAP_TP, ca_aui = supported c AND CAP_AUI, ca_mii = supported c AND CAP_MII,
           ca_fibre = supported c AND CAP_FIBRE, ca_bnc = supported c AND CAP_BNC,
           ca_supported_opt = option_of (supported c), ca_advertising_opt = option_of (advertising c),
           ca_lp_advertising_opt = option_of (lp_advertising c),
           ca_supported_speed = speed_of (supported c), ca_advertising_speed = speed_of (advertising c),
           ca_lp_advertising_speed = speed_of (lp_advertising c)\<rparr>), s1))"

text \<open>
  The eight parts of an element are allocated and checked, then the twelve duplex messages. When one of these is
  missing everything is released, but the callback goes on and writes to what it released: \<open>None\<close>.
\<close>

definition interface_capabilities_cb ::
  "rtnl_link \<Rightarrow> interface_capabilities link_list \<Rightarrow> os \<Rightarrow> (interface_capabilities link_list \<times> os) option" where
  "interface_capabilities_cb link lst s =
     do {
       (b, s1) \<leftarrow> realloc (ll_list lst) s;
       if b = None then Some (lst, s1) else
       let lst = lst\<lparr>ll_list := b\<rparr>;
           (e, s2) = malloc s1
       in case e of
         None \<Rightarrow> Some (lst, s2)
       | Some e \<Rightarrow>
           let (parts, s3) = malloc_each 8 s2 in
           if None \<in> set parts then do { s4 \<leftarrow> free_each parts s3; s5 \<leftarrow> free (Some e) s4; Some (lst, s5) }
           else
             let (blocks, s4) = malloc_each 12 s3 in
             if None \<in> set blocks then None
             else
               let ((blocks, info), s5) = interface_capabilities_fill link blocks s4
               in Some (lst\<lparr>ll_entries := ll_entries lst @ [Some (e, parts @ blocks)], ll_infos := ll_infos lst @ [info]\<rparr>, s5)
     }"

definition dabbad_interface_capabilities_get :: "netlink \<Rightarrow> string list \<Rightarrow> os \<Rightarrow> (interface_capabilities list option \<times> os) option" where
  "dabbad_interface_capabilities_get = link_get interface_capabilities_cb"

section \<open>Modifying\<close>

record duplex_request =
  dq_half :: "u32 option"
  dq_full :: "u32 option"

record option_request =
  aq_autoneg :: "u32 option"
  aq_pause :: "u32 option"

record speed_request =
  vq_ethernet :: "duplex_request option"
  vq_fast_ethernet :: "duplex_request option"
  vq_gbps_ethernet :: "duplex_request option"
  vq_10gbps_ethernet :: "duplex_request option"

record capabilities_request =
  kq_name :: string
  kq_tp :: "u32 option"
  kq_aui :: "u32 option"
  kq_mii :: "u32 option"
  kq_fibre :: "u32 option"
  kq_bnc :: "u32 option"
  kq_advertising_opt :: "option_request option"
  kq_advertising_speed :: "speed_request option"

text \<open>One conditional group: set or clear the bits, and mark the change.\<close>

definition bit_if :: "u32 option \<Rightarrow> 'a::len word \<Rightarrow> 'a word \<times> bool \<Rightarrow> 'a word \<times> bool" where
  "bit_if field b = mark_if field (\<lambda>v w. if v \<noteq> 0 then w OR b else w AND NOT b)"

definition interface_advertising_option_set :: "option_request \<Rightarrow> u32 \<times> bool \<Rightarrow> u32 \<times> bool" where
  "interface_advertising_option_set caps x = bit_if (aq_pause caps) CAP_Pause (bit_if (aq_autoneg caps) CAP_Autoneg x)"

definition interface_speed_option_set :: "speed_request \<Rightarrow> u32 \<times> bool \<Rightarrow> u32 \<times> bool" where
  "interface_speed_option_set sp x =
     (let x = set_if (vq_ethernet sp) (\<lambda>d x. bit_if (dq_full d) CAP_10baseT_Full (bit_if (dq_half d) CAP_10baseT_Half x)) x;
          x = set_if (vq_fast_ethernet sp) (\<lambda>d x. bit_if (dq_full d) CAP_100baseT_Full (bit_if (dq_half d) CAP_100baseT_Half x)) x;
          x = set_if (vq_gbps_ethernet sp) (\<lambda>d x. bit_if (dq_full d) CAP_1000baseT_Full (bit_if (dq_half d) CAP_1000baseT_Half x)) x
      in set_if (vq_10gbps_ethernet sp) (\<lambda>d x. bit_if (dq_full d) CAP_10000baseT_Full x) x)"

text \<open>
  The port numbers are used as bits. The empty change is sent in any case, and its result dropped.
\<close>

definition dabbad_interface_capabilities_modify :: "netlink \<Rightarrow> capabilities_request \<Rightarrow> os \<Rightarrow> (int \<times> os) option" where
  "dabbad_interface_capabilities_modify nl m s =
     do {
       (cache, s1) \<leftarrow> link_cache_alloc nl s;
       let change = rtnl_link_alloc nl s1;
       let s2 = tick s1;
       (case cache of
          None \<Rightarrow> Some (ENOMEM, s2)
        | Some ls \<Rightarrow>
            if \<not> change then Some (ENOMEM, s2) else
            (case rtnl_link_get_by_name nl ls (kq_name m) of
               None \<Rightarrow> Some (ENODEV, s2)
             | Some link \<Rightarrow>
                 let ((rc, eth_set), s3) = ldab_dev_settings_get (kq_name m) s2 in
                 if rc \<noteq> 0 then Some (rc, s3) else
                 let x = bit_if (kq_aui m) PORT_AUI (port eth_set, False);
                     x = bit_if (kq_bnc m) PORT_BNC x;
                     x = bit_if (kq_fibre m) PORT_FIBRE x;
                     x = bit_if (kq_mii m) PORT_MII x;
                     x = bit_if (kq_tp m) PORT_TP x;
                     a = set_if (kq_advertising_speed m) interface_speed_option_set (advertising eth_set, snd x);
                     a = set_if (kq_advertising_opt m) interface_advertising_option_set a;
                     (rc, s4) = (if snd a
                       then let ((rc, _), s4) = ldab_dev_settings_set (kq_name m) (eth_set\<lparr>port := fst x, advertising := fst a\<rparr>) s3 in (rc, s4)
                       else (rc, s3))
                 in Some (rc, tick s4)))
     }"

section \<open>What the procedures leave\<close>

text \<open>Where the callback is defined it appends the entry whose last twelve parts this function allocates.\<close>

definition capabilities_fill :: "rtnl_link \<Rightarrow> os \<Rightarrow> (nat option list \<times> interface_capabilities) \<times> os" where
  "capabilities_fill l s = (let (blocks, s1) = malloc_each 12 s in interface_capabilities_fill l blocks s1)"

interpretation capabilities_r: link_reply capabilities_fill ca_name
proof unfold_locales
  fix l s1 extra x s2 assume f: "capabilities_fill l s1 = ((extra, x), s2)"
  obtain blocks s3 where m: "malloc_each 12 s1 = (blocks, s3)" by force
  with f have x: "extra = blocks" "s2 = snd (ldab_dev_settings_get (rl_name l) s3)" "ca_name x = rl_name l"
    by (auto simp: capabilities_fill_def interface_capabilities_fill_def Let_def split_beta)
  show "acq s (somes extra @ bs) s2" if "acq s bs s1" "heap_wf s" for s bs
  proof -
    have "acq s (somes blocks @ bs) s3" using acq_allocs [OF that(1) conjunct1 [OF allocs_malloc_each [OF m acq_heap_wf [OF that]]]] .
    then show ?thesis by (simp add: x ldab_dev_settings_get_def Let_def split_beta acq_request)
  qed
  show "ca_name x = rl_name l" by (rule x)
  show "faultless s2" if "faultless s1"
    using malloc_each_faultless [OF that m] by (simp add: x ldab_dev_settings_get_def Let_def split_beta faultless_request)
  show "os_fd s2 = os_fd s1" using malloc_each_fd [OF m] by (simp add: x ldab_dev_settings_get_def Let_def split_beta)
qed

lemma capabilities_cb_append:
  "interface_capabilities_cb l lst s = Some r \<Longrightarrow> link_append 8 capabilities_fill l lst s = Some r"
  unfolding interface_capabilities_cb_def link_append_def capabilities_fill_def
  by (cases "realloc (ll_list lst) s") (auto simp: Let_def split: option.splits prod.splits if_splits)


lemma capabilities_get_back:
  "heap_wf s \<Longrightarrow> dabbad_interface_capabilities_get nl names s = Some (r, s') \<Longrightarrow> gives_back s s'"
  unfolding dabbad_interface_capabilities_get_def gives_back_def
  by (rule capabilities_r.given_back [OF _ link_get_mono [OF capabilities_cb_append]])

lemma capabilities_modify_back:
  assumes "dabbad_interface_capabilities_modify nl m s = Some (rc, s')" shows "gives_back s s'"
  using assms unfolding dabbad_interface_capabilities_modify_def
proof (rule gives_back_cache, goal_cases)
  case (1 c s1)
  then show ?case
    by (cases c; cases "rtnl_link_get_by_name nl (the c) (kq_name m)") (auto simp: settings_requests split: if_splits)
qed

end
