(* ===== verification/Getopt.thy ===== *)
theory Getopt
  imports Text
begin

text \<open>
  What the command line programs use of the C library beyond \<^verbatim>\<open>Text\<close>: conversion of decimal arguments, hexadecimal
  output, comparison without case, and \<open>getopt_long_only\<close> with an empty string of short options. An option table is a list
  of the long options with the code of the \<open>switch\<close> branch each selects, so that the sequence of results of \<open>getopt_long_only\<close>
  is a list of branches to run; \<open>None\<close> stands for the result \<^verbatim>\<open>'?'\<close>.
\<close>

definition eol :: string where "eol = [CHR 0x0A]"

section \<open>Numbers\<close>

text \<open>The sign and the digits \<open>strtol\<close> and its relatives read in base 10.\<close>

definition scan_digits :: "string \<Rightarrow> bool \<times> string" where
  "scan_digits p =
     (let q = dropWhile is_space p;
          neg = (q \<noteq> [] \<and> hd q = CHR ''-'');
          q = (if q \<noteq> [] \<and> hd q \<in> {CHR ''-'', CHR ''+''} then tl q else q)
      in (neg, takeWhile is_digit q))"

text \<open>\<open>strtoul\<close> and \<open>strtoull\<close> agree on a 64-bit host: no digits give 0, a number that is too large the maximum.\<close>

definition strtoull :: "string \<Rightarrow> u64" where
  "strtoull p =
     (let (neg, ds) = scan_digits p; v = nat_of_digits ds
      in if v > ULONG_MAX then of_nat ULONG_MAX else if neg then - of_nat v else of_nat v)"

definition LONG_MAX :: int where "LONG_MAX = 2 ^ 63 - 1"

definition strtol :: "string \<Rightarrow> int" where
  "strtol p =
     (let (neg, ds) = scan_digits p; v = int (nat_of_digits ds)
      in if neg then max (- v) (- LONG_MAX - 1) else min v LONG_MAX)"

lemma scan_digits_show_nat: "scan_digits (show_nat n) = (False, show_nat n)"
proof -
  obtain c cs where c: "show_nat n = c # cs" by (cases "show_nat n") auto
  with show_nat_digits [of n] have d: "is_digit c" by simp
  have "takeWhile is_digit (show_nat n) = show_nat n"
    using show_nat_digits [of n] by (simp add: list_all_iff)
  with d show ?thesis using digit_not_sign [OF d] by (simp add: scan_digits_def Let_def c digit_not_space)
qed

lemma strtoull_show_nat [simp]: "n < 2 ^ 64 \<Longrightarrow> strtoull (show_nat n) = of_nat n"
  by (simp add: strtoull_def scan_digits_show_nat ULONG_MAX_def)

definition hex_digit :: "nat \<Rightarrow> char" where
  "hex_digit d = (if d < 10 then digit d else char_of (87 + d))"

fun show_hex :: "nat \<Rightarrow> string" where
  "show_hex n = (if n < 16 then [hex_digit n] else show_hex (n div 16) @ [hex_digit (n mod 16)])"

declare show_hex.simps [simp del]

text \<open>\<^verbatim>\<open>%i\<close> and \<^verbatim>\<open>%#x\<close>.\<close>

definition show_int :: "int \<Rightarrow> string" where
  "show_int i = (if i < 0 then CHR ''-'' # show_nat (nat (- i)) else show_nat (nat i))"

definition show_alt_hex :: "u32 \<Rightarrow> string" where
  "show_alt_hex w = (if w = 0 then ''0'' else ''0x'' @ show_hex (unat w))"

definition to_lower :: "char \<Rightarrow> char" where
  "to_lower c = (let n = of_char c :: nat in if 65 \<le> n \<and> n \<le> 90 then char_of (n + 32) else c)"

definition strcasecmp_eq :: "string \<Rightarrow> string \<Rightarrow> bool" where
  "strcasecmp_eq a b \<longleftrightarrow> map to_lower a = map to_lower b"

section \<open>Options\<close>

datatype 'b opt = No_Argument string 'b | Required_Argument string "string \<Rightarrow> 'b" | Optional_Argument string "string option \<Rightarrow> 'b"

primrec opt_name :: "'b opt \<Rightarrow> string" where
  "opt_name (No_Argument n b) = n"
| "opt_name (Required_Argument n f) = n"
| "opt_name (Optional_Argument n f) = n"

text \<open>A name selects the option it equals, else the only one it abbreviates.\<close>

definition find_option :: "'b opt list \<Rightarrow> string \<Rightarrow> 'b opt option" where
  "find_option opts name =
     (case find (\<lambda>o1. opt_name o1 = name) opts of
        Some o1 \<Rightarrow> Some o1
      | None \<Rightarrow>
          (case filter (\<lambda>o1. take (length name) (opt_name o1) = name) opts of
             [o1] \<Rightarrow> Some o1
           | _ \<Rightarrow> None))"

text \<open>The name and the value of an argument \<^verbatim>\<open>--name=value\<close>.\<close>

definition split_arg :: "string \<Rightarrow> string \<times> string option" where
  "split_arg a =
     (let body = (if take 2 a = ''--'' then drop 2 a else drop 1 a);
          name = takeWhile (\<lambda>c. c \<noteq> CHR ''='') body
      in (name, if name = body then None else Some (drop (Suc (length name)) body)))"

definition is_option :: "string \<Rightarrow> bool" where
  "is_option a \<longleftrightarrow> 2 \<le> length a \<and> hd a = CHR ''-''"

fun getopt_long_only :: "'b opt list \<Rightarrow> string list \<Rightarrow> 'b option list" where
  "getopt_long_only opts [] = []"
| "getopt_long_only opts (a # args) =
     (if a = ''--'' then []
      else if \<not> is_option a then getopt_long_only opts args
      else
        let (name, val) = split_arg a in
        case find_option opts name of
          None \<Rightarrow> None # getopt_long_only opts args
        | Some (No_Argument _ b) \<Rightarrow> (if val = None then Some b else None) # getopt_long_only opts args
        | Some (Optional_Argument _ f) \<Rightarrow> Some (f val) # getopt_long_only opts args
        | Some (Required_Argument _ f) \<Rightarrow>
            (case val of
               Some v \<Rightarrow> Some (f v) # getopt_long_only opts args
             | None \<Rightarrow>
                 (case args of
                    [] \<Rightarrow> [None]
                  | v # args' \<Rightarrow> Some (f v) # getopt_long_only opts args')))"

text \<open>A long option without a value, and a required option with its value as two arguments.\<close>

lemma split_arg_long:
  assumes "CHR ''='' \<notin> set name"
  shows "split_arg (''--'' @ name) = (name, None)"
proof -
  have "takeWhile (\<lambda>c. c \<noteq> CHR ''='') name = name" using assms by (induction name) auto
  then show ?thesis by (simp add: split_arg_def del: takeWhile_eq_all_conv)
qed

lemma getopt_required:
  assumes "find_option opts name = Some (Required_Argument n f)" and "name \<noteq> []" and "CHR ''='' \<notin> set name"
  shows "getopt_long_only opts ((''--'' @ name) # v # args) = Some (f v) # getopt_long_only opts args"
  using assms split_arg_long [OF assms(3)] by (simp add: is_option_def)

lemma getopt_flag:
  assumes "find_option opts name = Some (No_Argument n b)" and "name \<noteq> []" and "CHR ''='' \<notin> set name"
  shows "getopt_long_only opts ((''--'' @ name) # args) = Some b # getopt_long_only opts args"
  using assms split_arg_long [OF assms(3)] by (simp add: is_option_def)

end
