(* ===== verification/Filter_File.thy ===== *)
theory Filter_File
  imports Getopt Links
begin

text \<open>
  Socket filters from a file, \<^verbatim>\<open>src/dabba/sock-filter.c\<close>: a file in the format of \<^verbatim>\<open>tcpdump -dd\<close> becomes a message. The standard
  input and output library is modelled as far as it is used: a stream is a descriptor with the bytes read
  ahead, \<open>fgets\<close> refills it by reads of at most 4096 bytes, and \<open>sscanf\<close> follows its one format.
\<close>

section \<open>Streams\<close>

text \<open>The marks for the end of the file and for an error stay set once they are. The memory of a stream is not part of the state.\<close>

record stream =
  f_fd :: int
  f_ahead :: "byte list"
  f_eof :: bool
  f_error :: bool

definition new_stream :: "int \<Rightarrow> stream" where
  "new_stream fd = \<lparr>f_fd = fd, f_ahead = [], f_eof = False, f_error = False\<rparr>"

lemma new_stream_simps [simp]:
  "f_fd (new_stream fd) = fd" "f_ahead (new_stream fd) = []" "\<not> f_eof (new_stream fd)" "\<not> f_error (new_stream fd)"
  by (simp_all add: new_stream_def)

text \<open>
  Fill the buffer until it holds a line or the room of \<open>fgets\<close>, or a mark is set. A read that does neither adds a byte at least, so
  as many reads as there is room for are enough.
\<close>

fun refill :: "nat \<Rightarrow> nat \<Rightarrow> stream \<Rightarrow> os \<Rightarrow> stream \<times> os" where
  "refill 0 room fp s = (fp, s)"
| "refill (Suc n) room fp s =
     (if 10 \<in> set (f_ahead fp) \<or> room \<le> length (f_ahead fp) \<or> f_eof fp \<or> f_error fp then (fp, s)
      else let ((r, bs), s1) = read_fd (f_fd fp) 4096 s
           in if r < 0 then (fp\<lparr>f_error := True\<rparr>, s1)
              else if r = 0 then (fp\<lparr>f_eof := True\<rparr>, s1)
              else refill n room (fp\<lparr>f_ahead := f_ahead fp @ bs\<rparr>) s1)"

text \<open>The bytes up to and with the first newline.\<close>

definition line_of :: "byte list \<Rightarrow> byte list" where
  "line_of bs = takeWhile (\<lambda>b. b \<noteq> 10) bs @ take 1 (dropWhile (\<lambda>b. b \<noteq> 10) bs)"

text \<open>NULL at the end of the file, when nothing was read, and on an error.\<close>

definition fgets :: "nat \<Rightarrow> stream \<Rightarrow> os \<Rightarrow> (byte list option \<times> stream) \<times> os" where
  "fgets n fp s =
     (let (fp, s1) = refill (n - 1) (n - 1) fp s;
          bs = take (n - 1) (line_of (f_ahead fp))
      in ((if bs = [] \<or> f_error fp then None else Some bs, fp\<lparr>f_ahead := drop (length bs) (f_ahead fp)\<rparr>), s1))"

text \<open>The string in a buffer, up to its first 0.\<close>

definition c_string :: "byte list \<Rightarrow> string" where
  "c_string bs = map (\<lambda>b. char_of (unat b)) (takeWhile (\<lambda>b. b \<noteq> 0) bs)"

section \<open>Instructions\<close>

definition is_hex :: "char \<Rightarrow> bool" where
  "is_hex c \<longleftrightarrow> is_digit c \<or> (let n = of_char (to_lower c) :: nat in 97 \<le> n \<and> n \<le> 102)"

definition hex_val :: "char \<Rightarrow> nat" where
  "hex_val c = (if is_digit c then digit_val c else of_char (to_lower c) - 87)"

definition nat_of_hex :: "string \<Rightarrow> nat" where
  "nat_of_hex ds = foldl (\<lambda>acc c. acc * 16 + hex_val c) 0 ds"

definition scan_lit :: "string \<Rightarrow> string \<Rightarrow> string option" where
  "scan_lit l p = (if take (length l) p = l then Some (drop (length l) p) else None)"

definition scan_sign :: "string \<Rightarrow> bool \<times> string" where
  "scan_sign p = (if p \<noteq> [] \<and> hd p \<in> {CHR ''-'', CHR ''+''} then (hd p = CHR ''-'', tl p) else (False, p))"

definition scan_0x :: "string \<Rightarrow> string" where
  "scan_0x p = (if map to_lower (take 2 p) = ''0x'' then drop 2 p else p)"

text \<open>\<^verbatim>\<open>%x\<close> in a field of at most \<open>width\<close> characters: the number and what is left.\<close>

definition scan_x :: "nat \<Rightarrow> string \<Rightarrow> (u32 \<times> string) option" where
  "scan_x width p =
     (let p = dropWhile is_space p;
          (neg, q) = scan_sign (take width p);
          q = scan_0x q;
          ds = takeWhile is_hex q;
          v = nat_of_hex ds;
          rest = drop (length ds) q @ drop width p
      in if ds = [] then None
         else Some (if v > ULONG_MAX then of_nat ULONG_MAX else if neg then - of_nat v else of_nat v, rest))"

definition scan_d :: "string \<Rightarrow> (u32 \<times> string) option" where
  "scan_d p =
     (let (neg, q) = scan_sign (dropWhile is_space p);
          ds = takeWhile is_digit q;
          v = int (nat_of_digits ds)
      in if ds = [] then None
         else Some (of_int (if neg then max (- v) (- LONG_MAX - 1) else min v LONG_MAX), drop (length ds) q))"

text \<open>The format \<^verbatim>\<open>{ 0x%x, %d, %d, 0x%08x },\<close>, \<open>None\<close> unless all four numbers are converted.\<close>

definition scan_filter :: "string \<Rightarrow> pbuf_sock_filter option" where
  "scan_filter p =
     do {
       p \<leftarrow> scan_lit ''{'' p;
       p \<leftarrow> scan_lit ''0x'' (dropWhile is_space p);
       (c, p) \<leftarrow> scan_x (length p) p;
       p \<leftarrow> scan_lit '','' p;
       (t, p) \<leftarrow> scan_d (dropWhile is_space p);
       p \<leftarrow> scan_lit '','' p;
       (f, p) \<leftarrow> scan_d (dropWhile is_space p);
       p \<leftarrow> scan_lit '','' p;
       p \<leftarrow> scan_lit ''0x'' (dropWhile is_space p);
       (v, p) \<leftarrow> scan_x 8 p;
       Some \<lparr>pb_code = c, pb_jt = t, pb_jf = f, pb_k = v\<rparr>
     }"

section \<open>Files\<close>

text \<open>
  The loop over the lines. An instruction that cannot be stored is not released. The state of the message is kept
  on an error, as the caller sees it.
\<close>

partial_function (option) filter_lines ::
  "stream \<Rightarrow> pbuf_sock_fprog \<Rightarrow> os \<Rightarrow> ((int \<times> pbuf_sock_fprog) \<times> stream \<times> os) option" where
  "filter_lines fp pbuf_sfp s =
     (let ((line, fp), s1) = fgets 128 fp s in
      case line of
        None \<Rightarrow> Some ((0, pbuf_sfp), fp, s1)
      | Some bs \<Rightarrow>
          let str = c_string bs in
          if str = [] \<or> hd str \<noteq> CHR ''{'' then filter_lines fp pbuf_sfp s1 else
          let (sf, s2) = malloc s1 in
          case sf of
            None \<Rightarrow> Some ((ENOMEM, pbuf_sfp), fp, s2)
          | Some b \<Rightarrow>
              (case scan_filter str of
                 None \<Rightarrow> Some ((EINVAL, pbuf_sfp), fp, s2)
               | Some insn \<Rightarrow>
                   Option.bind (realloc (pb_arr pbuf_sfp) s2) (\<lambda>(tmp, s3).
                     if tmp = None then Some ((ENOMEM, pbuf_sfp), fp, s3)
                     else filter_lines fp (pbuf_sfp\<lparr>pb_arr := tmp, pb_filter := pb_filter pbuf_sfp @ [(b, insn)]\<rparr>) s3)))"

definition sock_filter_parse :: "string \<Rightarrow> pbuf_sock_fprog \<Rightarrow> os \<Rightarrow> ((int \<times> pbuf_sock_fprog) \<times> os) option" where
  "sock_filter_parse sf_path pbuf_sfp s =
     (let (fd, s1) = open_file sf_path O_RDONLY s in
      if fd < 0 then Some ((os_errno s1, pbuf_sfp), s1)
      else do {
        (r, fp, s2) \<leftarrow> filter_lines (new_stream fd) pbuf_sfp s1;
        let (_, s3) = close_fd (f_fd fp) s2;
        Some (r, s3)
      })"

definition sock_filter_destroy :: "pbuf_sock_fprog \<Rightarrow> os \<Rightarrow> (pbuf_sock_fprog \<times> os) option" where
  "sock_filter_destroy pbuf_sfp s =
     (if pb_filter pbuf_sfp \<noteq> [] \<and> pb_arr pbuf_sfp = None then None else
      do {
        s1 \<leftarrow> free_all (map fst (pb_filter pbuf_sfp)) s;
        s2 \<leftarrow> free (pb_arr pbuf_sfp) s1;
        Some (dabba__sock_fprog__init, s2)
      })"

section \<open>Scanning what was printed\<close>

lemma of_char_hex_digit: "d < 16 \<Longrightarrow> (of_char (hex_digit d) :: nat) = (if d < 10 then 48 + d else 87 + d)"
  by (simp add: hex_digit_def digit_def)

lemma hex_digit [simp]:
  assumes "d < 16"
  shows "is_hex (hex_digit d)" "hex_val (hex_digit d) = d"
  using assms of_char_hex_digit [OF assms]
  by (auto simp: is_hex_def hex_val_def is_digit_def digit_val_def to_lower_def Let_def)

text \<open>Digits no scanner takes for a sign, a space or a prefix.\<close>

definition plain_hex :: "string \<Rightarrow> bool" where
  "plain_hex ds \<longleftrightarrow> list_all (\<lambda>c. is_hex c \<and> \<not> is_space c \<and> c \<notin> {CHR ''-'', CHR ''+''} \<and> to_lower c \<noteq> CHR ''x'') ds"

lemma plain_hex_digit [simp]:
  assumes "d < 16"
  shows "plain_hex [hex_digit d]"
proof -
  have "to_lower (hex_digit d) = hex_digit d" using of_char_hex_digit [OF assms] by (simp add: to_lower_def Let_def)
  moreover have "hex_digit d \<noteq> c" if "of_char c < (48 :: nat) \<or> of_char c > (102 :: nat)" for c
    using that of_char_hex_digit [OF assms] assms by (auto split: if_splits)
  ultimately show ?thesis using assms of_char_hex_digit [OF assms] by (auto simp: plain_hex_def is_space_def split: if_splits)
qed

lemma plain_hex_append [simp]: "plain_hex (xs @ ys) \<longleftrightarrow> plain_hex xs \<and> plain_hex ys"
  by (simp add: plain_hex_def)

lemma show_hex_plain: "plain_hex (show_hex n)"
  by (induction n rule: show_hex.induct) (subst show_hex.simps, simp)

lemma show_hex_nonempty [simp]: "show_hex n \<noteq> []"
  by (subst show_hex.simps) simp

lemma nat_of_hex_append: "nat_of_hex (xs @ [c]) = nat_of_hex xs * 16 + hex_val c"
  by (simp add: nat_of_hex_def)

lemma nat_of_hex_show_hex [simp]: "nat_of_hex (show_hex n) = n"
proof (induction n rule: show_hex.induct)
  case (1 n)
  show ?case
  proof (cases "n < 16")
    case True
    then show ?thesis by (subst show_hex.simps) (simp add: nat_of_hex_def)
  next
    case False
    with 1 show ?thesis by (subst show_hex.simps) (simp add: nat_of_hex_append)
  qed
qed

text \<open>Eight digits, as \<^verbatim>\<open>%08x\<close> prints them, and a line of \<^verbatim>\<open>tcpdump -dd\<close>.\<close>

definition hex8 :: "nat \<Rightarrow> string" where
  "hex8 n = replicate (8 - length (show_hex n)) (CHR ''0'') @ show_hex n"

lemma nat_of_hex_zeros: "nat_of_hex (replicate m (CHR ''0'') @ ds) = nat_of_hex ds"
  by (induction m) (simp_all add: nat_of_hex_def hex_val_def is_digit_def digit_val_def)

lemma plain_zeros: "plain_hex (replicate m (CHR ''0''))"
proof -
  have "plain_hex ''0''" by code_simp
  then show ?thesis by (simp add: plain_hex_def list_all_iff)
qed

lemma show_hex_length: "n < 16 ^ Suc m \<Longrightarrow> length (show_hex n) \<le> Suc m"
proof (induction m arbitrary: n)
  case 0
  then show ?case by (subst show_hex.simps) simp
next
  case (Suc m)
  then have "n div 16 < 16 ^ Suc m" by (simp add: less_mult_imp_div_less)
  from Suc.IH [OF this] show ?case by (subst show_hex.simps) simp
qed

lemma show_nat_length: "n < 10 ^ Suc m \<Longrightarrow> length (show_nat n) \<le> Suc m"
proof (induction m arbitrary: n)
  case 0
  then show ?case by (subst show_nat.simps) simp
next
  case (Suc m)
  then have "n div 10 < 10 ^ Suc m" by (simp add: less_mult_imp_div_less)
  from Suc.IH [OF this] show ?case by (subst show_nat.simps) simp
qed

lemma hex8_length: "n < 2 ^ 32 \<Longrightarrow> length (hex8 n) = 8"
  using show_hex_length [of n 7] by (simp add: hex8_def)

lemma scan_x_plain:
  assumes p: "plain_hex ds" and ne: "ds \<noteq> []" and len: "length ds \<le> w" and v: "nat_of_hex ds \<le> ULONG_MAX"
    and r: "length ds = w \<or> rest = [] \<or> \<not> is_hex (hd rest) \<and> to_lower (hd rest) \<noteq> CHR ''x''"
  shows "scan_x w (ds @ rest) = Some (of_nat (nat_of_hex ds), rest)"
proof -
  let ?q = "ds @ take (w - length ds) rest"
  obtain c cs where c: "ds = c # cs" using ne by (cases ds) auto
  have tk: "take w (ds @ rest) = ?q" using len by simp
  have h: "is_hex d" "\<not> is_space d" "d \<notin> {CHR ''-'', CHR ''+''}" "to_lower d \<noteq> CHR ''x''" if "d \<in> set ds" for d
    using p that by (auto simp: plain_hex_def list_all_iff)
  have sp: "dropWhile is_space (ds @ rest) = ds @ rest" using h(2) [of c] by (simp add: c)
  have sg: "scan_sign ?q = (False, ?q)" using h(3) [of c] by (simp add: scan_sign_def c)
  have "to_lower (?q ! 1) \<noteq> CHR ''x''" if "2 \<le> length ?q"
    using that r h(4) by (cases cs; cases rest) (auto simp: c nth_append)
  then have ox: "scan_0x ?q = ?q"
    by (cases "take (w - length ds) rest"; cases cs) (auto simp: scan_0x_def c)
  have tw: "takeWhile is_hex ?q = ds"
  proof (cases "take (w - length ds) rest")
    case Nil
    then show ?thesis using h(1) by (metis append_Nil2 takeWhile_eq_all_conv)
  next
    case (Cons e es)
    then have "e = hd rest" "length ds \<noteq> w" "rest \<noteq> []" by (cases rest; cases "w - length ds"; auto)+
    with r have "\<not> is_hex e" by auto
    with h(1) Cons show ?thesis by (simp add: takeWhile_append takeWhile_tail)
  qed
  show ?thesis unfolding scan_x_def Let_def sp tk sg prod.case ox tw using ne v len by (simp add: append_eq_conv_conj)
qed

lemma scan_d_show:
  assumes "n < 2 ^ 32" and "rest = [] \<or> \<not> is_digit (hd rest)"
  shows "scan_d (show_nat n @ rest) = Some (of_nat n, rest)"
proof -
  obtain c cs where c: "show_nat n = c # cs" by (cases "show_nat n") auto
  with show_nat_digits [of n] have d: "is_digit c" by simp
  have tw: "takeWhile is_digit (show_nat n @ rest) = show_nat n" using takeWhile_digits [OF show_nat_digits assms(2)] .
  have sp: "dropWhile is_space (show_nat n @ rest) = show_nat n @ rest" using d by (simp add: c digit_not_space)
  have sg: "scan_sign (show_nat n @ rest) = (False, show_nat n @ rest)" using digit_not_sign [OF d] by (simp add: scan_sign_def c)
  have m: "min (int n) LONG_MAX = int n" using assms(1) by (simp add: LONG_MAX_def)
  show ?thesis unfolding scan_d_def sp sg Let_def prod.case tw nat_of_digits_show_nat m by simp
qed

definition insn_line :: "pbuf_sock_filter \<Rightarrow> string" where
  "insn_line f = ''{ 0x'' @ show_hex (unat (pb_code f)) @ '', '' @ show_nat (unat (pb_jt f)) @ '', '' @ show_nat (unat (pb_jf f)) @
     '', 0x'' @ hex8 (unat (pb_k f)) @ '' },'' @ eol"

lemma u32_lt: "unat (w :: u32) < 2 ^ 32" using unsigned_less [of w, where 'a = nat] by simp

lemma u32_le: "unat (w :: u32) \<le> ULONG_MAX" unfolding ULONG_MAX_def by (rule order.trans [OF less_imp_le [OF u32_lt]]) simp

lemma sep_props: "\<not> is_hex (CHR '','')" "to_lower (CHR '','') \<noteq> CHR ''x''" "\<not> is_digit (CHR '','')"
  "is_space (CHR '' '')" "\<not> is_space (CHR ''0'')"
  by code_simp+

lemma scan_filter_line: "scan_filter (insn_line f) = Some f"
proof -
  let ?k = "'' },'' @ eol"
  let ?r4 = "hex8 (unat (pb_k f)) @ ?k"
  let ?r3 = "'', 0x'' @ ?r4"
  let ?r2 = "'', '' @ show_nat (unat (pb_jf f)) @ ?r3"
  let ?r1 = "'', '' @ show_nat (unat (pb_jt f)) @ ?r2"
  have 1: "scan_x (length (show_hex (unat (pb_code f)) @ ?r1)) (show_hex (unat (pb_code f)) @ ?r1) = Some (pb_code f, ?r1)"
    using scan_x_plain [OF show_hex_plain show_hex_nonempty, of "unat (pb_code f)" "length (show_hex (unat (pb_code f)) @ ?r1)" ?r1] u32_le [of "pb_code f"]
    by (simp add: sep_props)
  have 2: "scan_d (show_nat (unat (pb_jt f)) @ ?r2) = Some (pb_jt f, ?r2)"
    using scan_d_show [where n = "unat (pb_jt f)" and rest = ?r2, OF u32_lt] by (simp add: sep_props)
  have 3: "scan_d (show_nat (unat (pb_jf f)) @ ?r3) = Some (pb_jf f, ?r3)"
    using scan_d_show [where n = "unat (pb_jf f)" and rest = ?r3, OF u32_lt] by (simp add: sep_props)
  have 4: "scan_x 8 ?r4 = Some (pb_k f, ?k)"
    using scan_x_plain [of "hex8 (unat (pb_k f))" 8 ?k] hex8_length [OF u32_lt, of "pb_k f"] u32_le [of "pb_k f"]
    by (simp add: hex8_def plain_zeros show_hex_plain nat_of_hex_zeros)
  have ds: "dropWhile is_space (show_nat n @ r) = show_nat n @ r" for n r
    using show_nat_digits [of n] by (cases "show_nat n") (auto simp: digit_not_space)
  show ?thesis
    using 1 2 3 4 by (simp add: insn_line_def scan_filter_def scan_lit_def sep_props ds)
qed

section \<open>Reading lines\<close>

definition text_bytes :: "string \<Rightarrow> byte list" where
  "text_bytes str = map (\<lambda>c. of_nat (of_char c)) str"

lemma byte_char: "unat (of_nat (of_char c) :: byte) = of_char c"
  by (simp add: unat_of_nat)

lemma c_string_text: "CHR 0x00 \<notin> set str \<Longrightarrow> c_string (text_bytes str) = str"
proof -
  assume nz: "CHR 0x00 \<notin> set str"
  have "(of_nat (of_char c) :: byte) \<noteq> 0" if "c \<in> set str" for c
  proof
    assume "(of_nat (of_char c) :: byte) = 0"
    then have "of_char c = (0 :: nat)" using byte_char [of c] by simp
    then have "of_char c = (of_char (CHR 0x00) :: nat)" by simp
    then have "c = CHR 0x00" by (simp only: of_char_eq_iff)
    with that nz show False by simp
  qed
  then have tw: "takeWhile (\<lambda>b. b \<noteq> 0) (text_bytes str) = text_bytes str" by (auto simp: text_bytes_def)
  show ?thesis unfolding c_string_def tw by (simp add: text_bytes_def comp_def byte_char)
qed

lemma line_of_line:
  assumes "10 \<notin> set l"
  shows "line_of (l @ 10 # r) = l @ [10]"
  using assms by (induction l) (auto simp: line_of_def)

text \<open>What a stream has still to give.\<close>

definition stream_left :: "stream \<Rightarrow> os \<Rightarrow> byte list \<Rightarrow> bool" where
  "stream_left fp s R \<longleftrightarrow> \<not> f_error fp \<and> (f_eof fp \<longrightarrow> R = f_ahead fp) \<and>
     (\<exists>ino pos wr ap. fd_of s (f_fd fp) = Some (Reg ino pos True wr ap) \<and> R = f_ahead fp @ drop pos (os_data s ino))"

lemma refill_left:
  assumes "faultless s" and "stream_left fp s R" and "0 \<le> f_fd fp"
  shows "\<exists>fp' s'. refill n room fp s = (fp', s') \<and> f_fd fp' = f_fd fp \<and> stream_left fp' s' R \<and> only_read (f_fd fp) s s' \<and>
    (10 \<in> set (f_ahead fp') \<or> room \<le> length (f_ahead fp') \<or> f_ahead fp' = R \<or> length (f_ahead fp) + n \<le> length (f_ahead fp'))"
  using assms
proof (induction n arbitrary: fp s)
  case 0
  then show ?case by auto
next
  case (Suc n)
  show ?case
  proof (cases "10 \<in> set (f_ahead fp) \<or> room \<le> length (f_ahead fp) \<or> f_eof fp \<or> f_error fp")
    case True
    with Suc.prems show ?thesis by (auto simp: stream_left_def)
  next
    case False
    from Suc.prems(2) obtain ino pos wr ap where fd: "fd_of s (f_fd fp) = Some (Reg ino pos True wr ap)"
      "R = f_ahead fp @ drop pos (os_data s ino)" by (auto simp: stream_left_def)
    let ?got = "take 4096 (drop pos (os_data s ino))"
    let ?s1 = "set_fd (f_fd fp) (Some (Reg ino (pos + length ?got) True wr ap)) (tick s)"
    let ?fp1 = "fp\<lparr>f_ahead := f_ahead fp @ ?got\<rparr>"
    have rd: "read_fd (f_fd fp) 4096 s = ((int (length ?got), ?got), ?s1)"
      by (rule read_fd_Succeed [OF faultlessD [OF Suc.prems(1)] fd(1)])
    have one: "only_read (f_fd fp) s ?s1" by (auto simp: only_read_def set_fd_def)
    have "os_data s ino = take (pos + length ?got) (os_data s ino) @ drop (pos + length ?got) (os_data s ino)" by simp
    have R: "R = (f_ahead fp @ ?got) @ drop (pos + length ?got) (os_data s ino)"
      using fd(2) by (simp add: min_def) (metis append_take_drop_id drop_drop add.commute)
    have left: "stream_left ?fp1 ?s1 R"
      using R False Suc.prems(3) by (auto simp: stream_left_def fd_of_def set_fd_def)
    show ?thesis
    proof (cases "?got = []")
      case True
      with fd(2) have "f_ahead fp = R" by auto
      moreover have "stream_left (fp\<lparr>f_eof := True\<rparr>) ?s1 R" using left True \<open>f_ahead fp = R\<close> by (auto simp: stream_left_def)
      ultimately show ?thesis using True False rd one by (intro exI [of _ "fp\<lparr>f_eof := True\<rparr>"] exI [of _ ?s1]) auto
    next
      case ne: False
      have "faultless ?s1" using Suc.prems(1) by (simp add: faultless_def set_fd_def)
      from Suc.IH [OF this left] Suc.prems(3) obtain fp' s' where ih: "refill n room ?fp1 ?s1 = (fp', s')" "f_fd fp' = f_fd fp"
        "stream_left fp' s' R" "only_read (f_fd fp) ?s1 s'"
        "10 \<in> set (f_ahead fp') \<or> room \<le> length (f_ahead fp') \<or> f_ahead fp' = R \<or> length (f_ahead ?fp1) + n \<le> length (f_ahead fp')"
        by auto
      have "1 \<le> length ?got" using ne by (cases ?got) auto
      with ih(5) have "10 \<in> set (f_ahead fp') \<or> room \<le> length (f_ahead fp') \<or> f_ahead fp' = R \<or> length (f_ahead fp) + Suc n \<le> length (f_ahead fp')"
        by auto
      moreover have "refill (Suc n) room fp s = (fp', s')" using False rd ne ih(1) by simp
      ultimately show ?thesis using ih(2-4) only_read_trans [OF one] by blast
    qed
  qed
qed

lemma line_of_take: "line_of a = take (Suc (length (takeWhile (\<lambda>b. b \<noteq> 10) a))) a"
  by (induction a) (auto simp: line_of_def)

lemma line_of_prefix:
  assumes "10 \<in> set a \<or> m \<le> length a \<or> r = []"
  shows "take m (line_of (a @ r)) = take m (line_of a)"
proof (cases "10 \<in> set a")
  case True
  then have "length (takeWhile (\<lambda>b. b \<noteq> 10) a) < length a"
    by (metis (mono_tags, lifting) length_takeWhile_le order_less_le takeWhile_eq_take take_all takeWhile_eq_all_conv order_refl)
  with True show ?thesis by (simp add: line_of_take)
next
  case False
  then have n: "takeWhile (\<lambda>b. b \<noteq> 10) a = a" by (induction a) auto
  moreover from False have "takeWhile (\<lambda>b. b \<noteq> 10) (a @ r) = a @ takeWhile (\<lambda>b. b \<noteq> 10) r" by (induction a) auto
  ultimately show ?thesis using assms False by (auto simp: line_of_take simp del: takeWhile_eq_all_conv)
qed

lemma fgets_left:
  assumes "faultless s" and "stream_left fp s R" and "0 \<le> f_fd fp"
  shows "\<exists>fp' s'. fgets 128 fp s = ((if take 127 (line_of R) = [] then None else Some (take 127 (line_of R)), fp'), s') \<and>
    f_fd fp' = f_fd fp \<and> stream_left fp' s' (drop (length (take 127 (line_of R))) R) \<and> only_read (f_fd fp) s s'"
proof -
  from refill_left [OF assms, of 127 127] obtain fp1 s1 where r: "refill 127 127 fp s = (fp1, s1)" "f_fd fp1 = f_fd fp"
    "stream_left fp1 s1 R" "only_read (f_fd fp) s s1"
    "10 \<in> set (f_ahead fp1) \<or> 127 \<le> length (f_ahead fp1) \<or> f_ahead fp1 = R" by auto
  from r(3) obtain ino pos wr ap where fd: "fd_of s1 (f_fd fp1) = Some (Reg ino pos True wr ap)"
    "R = f_ahead fp1 @ drop pos (os_data s1 ino)" by (auto simp: stream_left_def)
  have ln: "take 127 (line_of R) = take 127 (line_of (f_ahead fp1))"
    using line_of_prefix [of "f_ahead fp1" 127 "drop pos (os_data s1 ino)"] r(5) fd(2) by auto
  let ?m = "length (take 127 (line_of (f_ahead fp1)))"
  have "?m \<le> length (f_ahead fp1)" by (simp add: line_of_take)
  then have "stream_left (fp1\<lparr>f_ahead := drop ?m (f_ahead fp1)\<rparr>) s1 (drop ?m R)"
    using fd r(3) by (auto simp: stream_left_def)
  moreover have "\<not> f_error fp1" using r(3) by (simp add: stream_left_def)
  ultimately show ?thesis using r(1,2,4) ln by (simp add: fgets_def)
qed

section \<open>The text of a filter\<close>

lemma is_hex_ge: "is_hex c \<Longrightarrow> (48 :: nat) \<le> of_char c"
  by (auto simp: is_hex_def is_digit_def to_lower_def Let_def split: if_splits)

lemma insn_line_chars:
  "\<exists>b. insn_line f = CHR ''{'' # b @ eol \<and> list_all (\<lambda>c. (32 :: nat) \<le> of_char c) b \<and> length b \<le> 60"
proof -
  let ?c = "show_hex (unat (pb_code f))" and ?t = "show_nat (unat (pb_jt f))" and ?f = "show_nat (unat (pb_jf f))" and ?k = "hex8 (unat (pb_k f))"
  have h: "list_all (\<lambda>c. (32 :: nat) \<le> of_char c) ds" if "plain_hex ds" for ds
    using that is_hex_ge by (fastforce simp: plain_hex_def list_all_iff)
  have d: "list_all (\<lambda>c. (32 :: nat) \<le> of_char c) (show_nat n)" for n
    using show_nat_digits [of n] by (fastforce simp: list_all_iff is_digit_def)
  have n: "unat (w :: u32) < 10 ^ Suc 9" for w by (rule less_le_trans [OF u32_lt]) simp
  have l: "length ?c \<le> 8" "length ?t \<le> 10" "length ?f \<le> 10" "length ?k = 8"
    using show_hex_length [of "unat (pb_code f)" 7] show_nat_length [OF n] hex8_length [OF u32_lt] by simp_all
  show ?thesis
    using h [OF show_hex_plain] h [of ?k] d l
    by (intro exI [of _ "'' 0x'' @ ?c @ '', '' @ ?t @ '', '' @ ?f @ '', 0x'' @ ?k @ '' },''"])
      (simp add: insn_line_def hex8_def plain_zeros show_hex_plain)
qed

lemma insn_line_bytes:
  obtains l where "text_bytes (insn_line f) = l @ [10]" "10 \<notin> set l" "length l \<le> 61" "c_string (l @ [10]) = insn_line f"
    "insn_line f \<noteq> []" "hd (insn_line f) = CHR ''{''"
proof -
  from insn_line_chars [of f] obtain b where b: "insn_line f = CHR ''{'' # b @ eol" "list_all (\<lambda>c. (32 :: nat) \<le> of_char c) b" "length b \<le> 60"
    by blast
  let ?l = "text_bytes (CHR ''{'' # b)"
  have e: "text_bytes (insn_line f) = ?l @ [10]" by (simp add: b(1) text_bytes_def eol_def)
  have ge: "(32 :: nat) \<le> of_char c" if "c \<in> set (CHR ''{'' # b)" for c using b(2) that by (auto simp: list_all_iff)
  have "(of_nat (of_char c) :: byte) \<noteq> 10" if "c \<in> set (CHR ''{'' # b)" for c
  proof
    assume "(of_nat (of_char c) :: byte) = 10"
    then have "of_char c = (10 :: nat)" using byte_char [of c] by simp
    with ge [OF that] show False by simp
  qed
  then have "10 \<notin> set ?l" unfolding text_bytes_def set_map image_iff by metis
  moreover have "CHR 0x00 \<notin> set (insn_line f)" using ge [of "CHR 0x00"] by (auto simp: b(1) eol_def)
  ultimately show ?thesis using that [of ?l] e b c_string_text [of "insn_line f"] by (simp add: text_bytes_def)
qed

section \<open>The loop\<close>

definition owns :: "nat set \<Rightarrow> nat list \<Rightarrow> os \<Rightarrow> bool" where
  "owns H bs s \<longleftrightarrow> heap_wf s \<and> distinct bs \<and> set bs \<inter> H = {} \<and> os_heap s = H \<union> set bs"

lemma owns_malloc:
  assumes "faultless s" and "owns H bs s"
  obtains b s1 where "malloc s = (Some b, s1)" "owns H (b # bs) s1" "faultless s1" "os_fd s1 = os_fd s" "os_data s1 = os_data s"
proof -
  obtain b s1 where m: "malloc s = (b, s1)" by force
  with malloc_faultless [OF assms(1) m] obtain c where "b = Some c" "faultless s1" by auto
  with m malloc_SomeD [of s c s1] assms(2) malloc_frame [of s] that [of c s1] show ?thesis by (auto simp: owns_def)
qed

lemma owns_realloc:
  assumes "faultless s" and "owns H (bs @ somes [p]) s"
  obtains b s1 where "realloc p s = Some (Some b, s1)" "owns H (bs @ [b]) s1" "faultless s1" "os_fd s1 = os_fd s" "os_data s1 = os_data s"
proof -
  from owns_malloc [OF assms] obtain b s1 where m: "malloc s = (Some b, s1)" "owns H (b # bs @ somes [p]) s1" "faultless s1"
    "os_fd s1 = os_fd s" "os_data s1 = os_data s" .
  have "free p s1 = Some (s1\<lparr>os_heap := os_heap s1 - set (somes [p])\<rparr>)"
    using m(2) by (cases p) (auto simp: free_def owns_def)
  with m have "realloc p s = Some (Some b, s1\<lparr>os_heap := os_heap s1 - set (somes [p])\<rparr>)" by (simp add: realloc_def)
  moreover have "owns H (bs @ [b]) (s1\<lparr>os_heap := os_heap s1 - set (somes [p])\<rparr>)"
    using m(2) by (cases p) (auto simp: owns_def heap_wf_def)
  ultimately show ?thesis using m that by (auto simp: faultless_def)
qed

lemma pbuf_blocks_somes: "pbuf_blocks p = map fst (pb_filter p) @ somes [pb_arr p]"
  by (cases "pb_arr p") (simp_all add: pbuf_blocks_def)

lemma filter_lines_ok:
  assumes "faultless s" and "0 \<le> f_fd fp" and "stream_left fp s (text_bytes (concat (map insn_line fs)))"
    and "owns H (pbuf_blocks p) s" and "pb_arr p = None \<longrightarrow> pb_filter p = []"
  shows "\<exists>p' fp' s' d. filter_lines fp p s = Some ((0, p'), fp', s') \<and> map snd (pb_filter p') = map snd (pb_filter p) @ fs \<and>
    owns H (pbuf_blocks p') s' \<and> f_fd fp' = f_fd fp \<and> os_fd s' = (os_fd s)(nat (f_fd fp) := d) \<and> faultless s' \<and>
    (pb_arr p' = None \<longrightarrow> pb_filter p' = [])"
  using assms
proof (induction fs arbitrary: fp p s)
  case Nil
  from fgets_left [OF Nil.prems(1,3,2)] obtain fp' s' where "fgets 128 fp s = ((None, fp'), s')" "f_fd fp' = f_fd fp" "only_read (f_fd fp) s s'"
    by (auto simp: text_bytes_def line_of_def)
  with Nil.prems show ?case
    by (subst filter_lines.simps) (auto simp: only_read_def owns_def heap_wf_def faultless_def)
next
  case (Cons f fs)
  obtain l where l: "text_bytes (insn_line f) = l @ [10]" "10 \<notin> set l" "length l \<le> 61" "c_string (l @ [10]) = insn_line f"
    "insn_line f \<noteq> []" "hd (insn_line f) = CHR ''{''" by (rule insn_line_bytes)
  let ?R = "text_bytes (concat (map insn_line fs))"
  have R: "text_bytes (concat (map insn_line (f # fs))) = l @ 10 # ?R" using l(1) by (simp add: text_bytes_def)
  have ln: "take 127 (line_of (l @ 10 # ?R)) = l @ [10]" using l(2,3) by (simp add: line_of_line)
  from fgets_left [OF Cons.prems(1) Cons.prems(3) [unfolded R] Cons.prems(2)] ln obtain fp1 s1 where
    g: "fgets 128 fp s = ((Some (l @ [10]), fp1), s1)" "f_fd fp1 = f_fd fp" "stream_left fp1 s1 ?R" "only_read (f_fd fp) s s1"
    by auto
  have o1: "faultless s1" "owns H (pbuf_blocks p) s1" using g(4) Cons.prems(1,4) by (auto simp: only_read_def owns_def heap_wf_def faultless_def)
  from owns_malloc [OF o1] obtain b s2 where m: "malloc s1 = (Some b, s2)" "owns H (b # pbuf_blocks p) s2" "faultless s2"
    "os_fd s2 = os_fd s1" "os_data s2 = os_data s1" .
  have "owns H ((map fst (pb_filter p) @ [b]) @ somes [pb_arr p]) s2"
    using m(2) by (auto simp: owns_def pbuf_blocks_somes)
  from owns_realloc [OF m(3) this] obtain a s3 where r: "realloc (pb_arr p) s2 = Some (Some a, s3)"
    "owns H ((map fst (pb_filter p) @ [b]) @ [a]) s3" "faultless s3" "os_fd s3 = os_fd s2" "os_data s3 = os_data s2" .
  let ?p = "p\<lparr>pb_arr := Some a, pb_filter := pb_filter p @ [(b, f)]\<rparr>"
  have o3: "owns H (pbuf_blocks ?p) s3" using r(2) by (simp add: pbuf_blocks_somes)
  have left: "stream_left fp1 s3 ?R" using g(3) m(4,5) r(4,5) by (auto simp: stream_left_def fd_of_def)
  have "filter_lines fp p s = filter_lines fp1 ?p s3"
    by (subst filter_lines.simps) (simp add: g(1) l(4,5,6) m(1) scan_filter_line r(1))
  moreover have "0 \<le> f_fd fp1" "pb_arr ?p = None \<longrightarrow> pb_filter ?p = []" using g(2) Cons.prems(2) by simp_all
  from Cons.IH [OF r(3) this(1) left o3 this(2)] obtain p' fp' s' d where
    "filter_lines fp1 ?p s3 = Some ((0, p'), fp', s')" "map snd (pb_filter p') = map snd (pb_filter ?p) @ fs"
    "owns H (pbuf_blocks p') s'" "f_fd fp' = f_fd fp1" "os_fd s' = (os_fd s3)(nat (f_fd fp1) := d)" "faultless s'"
    "pb_arr p' = None \<longrightarrow> pb_filter p' = []" by (elim exE conjE) (rule that)
  moreover from g(4) obtain d1 where "os_fd s1 = (os_fd s)(nat (f_fd fp) := d1)" by (auto simp: only_read_def)
  ultimately show ?case using g(2) m(4) r(4) by (intro exI [of _ p'] exI [of _ fp'] exI [of _ s'] exI [of _ d]) auto
qed

text \<open>The client has its own copy of the function of the daemon.\<close>

lemma sock_filter_destroy_eq: "sock_filter_destroy = dabbad_pbuf_sfp_destroy"
  by (intro ext) (simp add: sock_filter_destroy_def dabbad_pbuf_sfp_destroy_def)

text \<open>
  The rest of the development of this theory holds for every file and every schedule of failures. Each line that \<^const>\<open>fgets\<close> gives shortens
  what is left of the file, so the loop ends; the memory of the message is accounted for by \<^const>\<open>owns\<close>.
\<close>

definition left_over :: "stream \<Rightarrow> os \<Rightarrow> nat" where
  "left_over fp s = length (f_ahead fp) +
     (case fd_of s (f_fd fp) of Some (Reg ino pos rd wr ap) \<Rightarrow> length (os_data s ino) - pos | _ \<Rightarrow> 0)"

lemma left_over_same: "os_fd s' = os_fd s \<Longrightarrow> os_data s' = os_data s \<Longrightarrow> left_over fp s' = left_over fp s"
  by (simp add: left_over_def fd_of_def split: option.split ofd.split)

lemma read_over:
  assumes "read_fd (f_fd fp) n s = ((r, bs), s1)" and "0 \<le> f_fd fp"
  shows "only_read (f_fd fp) s s1 \<and> left_over (fp\<lparr>f_ahead := f_ahead fp @ bs\<rparr>) s1 = left_over fp s \<and> (r \<le> 0 \<longrightarrow> bs = [])"
  using assms(1)
proof (cases rule: read_fd_cases)
  case bad
  with left_over_same [of s1 s fp] show ?thesis by simp
next
  case (good ino pos wr ap m)
  have "fd_of s1 (f_fd fp) = Some (Reg ino (pos + length bs) True wr ap)" using good(4) assms(2) by (simp add: fd_of_def set_fd_def)
  moreover have "os_data s1 = os_data s" using good(4) by simp
  moreover have "length bs \<le> length (os_data s ino) - pos" using good(2) by simp
  ultimately have "left_over (fp\<lparr>f_ahead := f_ahead fp @ bs\<rparr>) s1 = left_over fp s" using good(1) by (simp add: left_over_def)
  moreover have "only_read (f_fd fp) s s1" using good(4) by (auto simp: only_read_def set_fd_def)
  ultimately show ?thesis using good(3) by simp
qed

lemma refill_over:
  assumes "refill n room fp s = (fp', s')" and "0 \<le> f_fd fp"
  shows "f_fd fp' = f_fd fp \<and> only_read (f_fd fp) s s' \<and> left_over fp' s' = left_over fp s"
  using assms
proof (induction n arbitrary: fp s)
  case (Suc n)
  obtain r bs s1 where rd: "read_fd (f_fd fp) 4096 s = ((r, bs), s1)" by (metis surj_pair)
  note o = read_over [OF rd Suc.prems(2)]
  show ?case
  proof (cases "10 \<in> set (f_ahead fp) \<or> room \<le> length (f_ahead fp) \<or> f_eof fp \<or> f_error fp")
    case False
    note rf = Suc.prems(1) [unfolded refill.simps if_not_P [OF False] rd Let_def prod.case]
    have m: "left_over (fp\<lparr>f_error := True\<rparr>) s1 = left_over fp s1" "left_over (fp\<lparr>f_eof := True\<rparr>) s1 = left_over fp s1"
      by (simp_all add: left_over_def)
    show ?thesis
    proof (cases "r \<le> 0")
      case True
      with rf o m show ?thesis by (auto split: if_splits)
    next
      case False
      with rf have "refill n room (fp\<lparr>f_ahead := f_ahead fp @ bs\<rparr>) s1 = (fp', s')" by auto
      from Suc.IH [OF this] Suc.prems(2) o show ?thesis by (auto intro: only_read_trans)
    qed
  qed (use Suc.prems in simp)
qed simp

lemma fgets_over:
  assumes "fgets n fp s = ((line, fp'), s')" and "0 \<le> f_fd fp"
  shows "f_fd fp' = f_fd fp \<and> only_read (f_fd fp) s s' \<and> (line = None \<or> left_over fp' s' < left_over fp s)"
proof -
  obtain fp1 s1 where r: "refill (n - 1) (n - 1) fp s = (fp1, s1)" by force
  let ?bs = "take (n - 1) (line_of (f_ahead fp1))"
  have le: "length ?bs \<le> length (f_ahead fp1)" by (simp add: line_of_take)
  have "left_over (fp1\<lparr>f_ahead := drop (length ?bs) (f_ahead fp1)\<rparr>) s1 < left_over fp1 s1" if "?bs \<noteq> []"
  proof -
    have "0 < length ?bs" using that by blast
    with le have "length (f_ahead fp1) - length ?bs < length (f_ahead fp1)" by linarith
    then show ?thesis unfolding left_over_def by (simp del: length_take)
  qed
  moreover have "fp' = fp1\<lparr>f_ahead := drop (length ?bs) (f_ahead fp1)\<rparr>" "s' = s1" "line = None \<or> ?bs \<noteq> []"
    using assms(1) unfolding fgets_def r Let_def by (auto simp del: length_take split: if_splits)
  ultimately show ?thesis using refill_over [OF r assms(2)] by auto
qed

lemma owns_alloc:
  assumes "malloc s = (b, s1)" and "owns H bs s"
  shows "owns H (somes [b] @ bs) s1 \<and> os_fd s1 = os_fd s \<and> os_data s1 = os_data s"
proof (cases b)
  case None
  with assms show ?thesis by (auto simp: malloc_def owns_def heap_wf_def tick_def errno_def split: outcome.splits)
next
  case (Some c)
  with assms malloc_SomeD [of s c s1] malloc_frame [of s] show ?thesis by (auto simp: owns_def)
qed

lemma owns_grow:
  assumes "owns H (bs @ somes [p]) s"
  shows "\<exists>b s1. realloc p s = Some (b, s1) \<and> owns H (bs @ somes [if b = None then p else b]) s1 \<and> os_fd s1 = os_fd s \<and> os_data s1 = os_data s"
proof -
  obtain b s1 where m: "malloc s = (b, s1)" by force
  note o = owns_alloc [OF m assms]
  show ?thesis
  proof (cases b)
    case None
    with m o show ?thesis by (auto simp: realloc_def)
  next
    case (Some c)
    have "free p s1 = Some (s1\<lparr>os_heap := os_heap s1 - set (somes [p])\<rparr>)"
      using o Some by (cases p) (auto simp: free_def owns_def)
    moreover have "owns H (bs @ [c]) (s1\<lparr>os_heap := os_heap s1 - set (somes [p])\<rparr>)"
      using o Some by (cases p) (auto simp: owns_def heap_wf_def)
    ultimately show ?thesis using m o Some by (auto simp: realloc_def)
  qed
qed

text \<open>One line that holds an instruction: the loop ends with it, or goes on with the instruction in the message.\<close>

lemma filter_line_step:
  assumes g: "fgets 128 fp s = ((Some bs, fp1), s1)" and brace: "c_string bs \<noteq> []" "hd (c_string bs) = CHR ''{''"
    and o1: "owns H (pbuf_blocks p) s1" and p: "pb_arr p = None \<longrightarrow> pb_filter p = []"
  obtains (stop) rc p' s' L where "filter_lines fp p s = Some ((rc, p'), fp1, s')" "owns H (L @ pbuf_blocks p') s'" "length L \<le> 1"
      "rc = 0 \<longrightarrow> L = []" "pb_arr p' = None \<longrightarrow> pb_filter p' = []" "os_fd s' = os_fd s1"
  | (go_on) p' s' where "filter_lines fp p s = filter_lines fp1 p' s'" "owns H (pbuf_blocks p') s'" "pb_arr p' = None \<longrightarrow> pb_filter p' = []"
      "os_fd s' = os_fd s1" "os_data s' = os_data s1"
proof -
  obtain b s2 where m: "malloc s1 = (b, s2)" by force
  note o2 = owns_alloc [OF m o1]
  show ?thesis
  proof (cases b)
    case None
    with brace g m o2 p show ?thesis by (intro stop [of _ p s2 "[]"]) (subst filter_lines.simps, auto)
  next
    case b: (Some c)
    show ?thesis
    proof (cases "scan_filter (c_string bs)")
      case None
      with brace g m b o2 p show ?thesis by (intro stop [of EINVAL p s2 "[c]"]) (subst filter_lines.simps, auto simp: EINVAL_def)
    next
      case i: (Some insn)
      have "owns H ((c # map fst (pb_filter p)) @ somes [pb_arr p]) s2" using o2 b by (simp add: pbuf_blocks_somes)
      from owns_grow [OF this] obtain a s3 where r: "realloc (pb_arr p) s2 = Some (a, s3)"
        "owns H ((c # map fst (pb_filter p)) @ somes [if a = None then pb_arr p else a]) s3" "os_fd s3 = os_fd s2" "os_data s3 = os_data s2" by blast
      show ?thesis
      proof (cases a)
        case None
        with brace g m b i r o2 p show ?thesis
          by (intro stop [of ENOMEM p s3 "[c]"]) (subst filter_lines.simps, auto simp: pbuf_blocks_somes ENOMEM_def)
      next
        case a: (Some e)
        let ?p = "p\<lparr>pb_arr := a, pb_filter := pb_filter p @ [(c, insn)]\<rparr>"
        have "owns H (pbuf_blocks ?p) s3" using r(2) a by (auto simp: owns_def pbuf_blocks_somes)
        with brace g m b i r a o2 show ?thesis by (intro go_on [of ?p s3]) (subst filter_lines.simps, auto)
      qed
    qed
  qed
qed

lemma filter_lines_total:
  assumes "0 \<le> f_fd fp" and "owns H (pbuf_blocks p) s" and "pb_arr p = None \<longrightarrow> pb_filter p = []"
  shows "\<exists>rc p' fp' s' L d. filter_lines fp p s = Some ((rc, p'), fp', s') \<and> owns H (L @ pbuf_blocks p') s' \<and> length L \<le> 1 \<and>
    (rc = 0 \<longrightarrow> L = []) \<and> (pb_arr p' = None \<longrightarrow> pb_filter p' = []) \<and> f_fd fp' = f_fd fp \<and> os_fd s' = (os_fd s)(nat (f_fd fp) := d)"
  using assms
proof (induction "left_over fp s" arbitrary: fp p s rule: less_induct)
  case less
  obtain line fp1 s1 where g: "fgets 128 fp s = ((line, fp1), s1)" by (metis surj_pair)
  from fgets_over [OF g less.prems(1)] obtain d1 where
    g1: "f_fd fp1 = f_fd fp" "os_heap s1 = os_heap s" "os_brk s1 = os_brk s" "os_fd s1 = (os_fd s)(nat (f_fd fp) := d1)" and
    dec: "line = None \<or> left_over fp1 s1 < left_over fp s" by (auto simp: only_read_def)
  have o1: "owns H (pbuf_blocks p) s1" using less.prems(2) g1 by (simp add: owns_def heap_wf_def)
  show ?case
  proof (cases line)
    case None
    with g g1 o1 less.prems(3) show ?thesis by (subst filter_lines.simps) (auto intro!: exI [of _ "[]"])
  next
    case (Some bs)
    with dec have dec1: "left_over fp1 s1 < left_over fp s" by simp
    show ?thesis
    proof (cases "c_string bs = [] \<or> hd (c_string bs) \<noteq> CHR ''{''")
      case True
      with g Some have eq: "filter_lines fp p s = filter_lines fp1 p s1" by (subst filter_lines.simps) simp
      from less.hyps [OF dec1 _ o1 less.prems(3)] less.prems(1) g1 show ?thesis unfolding eq by auto
    next
      case False
      then have brace: "c_string bs \<noteq> []" "hd (c_string bs) = CHR ''{''" by simp_all
      from g [unfolded Some] brace o1 less.prems(3) show ?thesis
      proof (cases rule: filter_line_step)
        case (stop rc p' s' L)
        with g1 show ?thesis by (intro exI [of _ rc] exI [of _ p'] exI [of _ fp1] exI [of _ s'] exI [of _ L] exI [of _ d1]) simp
      next
        case (go_on p' s')
        with dec1 left_over_same [of s' s1 fp1] have "left_over fp1 s' < left_over fp s" by simp
        from less.hyps [OF this _ go_on(2,3)] less.prems(1) g1 go_on(4) show ?thesis unfolding go_on(1) by auto
      qed
    qed
  qed
qed

lemma destroy_owned:
  assumes "owns H (L @ pbuf_blocks p) s" and "pb_arr p = None \<longrightarrow> pb_filter p = []"
  shows "\<exists>s'. sock_filter_destroy p s = Some (dabba__sock_fprog__init, s') \<and> os_heap s' = H \<union> set L \<and> os_fd s' = os_fd s"
proof -
  have "sock_filter_destroy p s = Some (dabba__sock_fprog__init, s\<lparr>os_heap := os_heap s - set (pbuf_blocks p)\<rparr>)"
  proof (cases "pb_arr p")
    case None
    with assms(2) show ?thesis by (simp add: sock_filter_destroy_def free_def pbuf_blocks_def)
  next
    case (Some a)
    with assms(1) have "pbuf_owned p s" by (auto simp: pbuf_owned_def owns_def)
    then show ?thesis unfolding sock_filter_destroy_eq by (rule dabbad_pbuf_sfp_destroy_ok)
  qed
  with assms(1) show ?thesis by (auto simp: owns_def)
qed

text \<open>The end of a parse: the file is closed.\<close>

lemma parse_opened:
  assumes o: "open_file path O_RDONLY s = (fd, s1)" "0 \<le> fd"
    and f: "filter_lines (new_stream fd) p0 s1 = Some ((rc, p), fp, s2)" "f_fd fp = fd" "os_fd s2 = (os_fd s1)(nat fd := d)" "owns H bs s2"
  shows "\<exists>s3. sock_filter_parse path p0 s = Some ((rc, p), s3) \<and> os_fd s3 = os_fd s \<and> owns H bs s3"
proof -
  obtain r s3 where c: "close_fd fd s2 = (r, s3)" by force
  have cl: "os_fd s3 = (os_fd s2)(nat fd := None)" "os_heap s3 = os_heap s2" "os_brk s3 = os_brk s2"
    using os_fd_close_fd [OF o(2), of s2] close_fd_frame [of fd s2] by (simp_all add: c)
  from open_file_ok [OF o] have "os_fd s3 = os_fd s" using cl(1) f(3) by (auto simp: fun_eq_iff)
  moreover have "owns H bs s3" using f(4) cl by (simp add: owns_def heap_wf_def)
  ultimately show ?thesis using o f(1,2) c by (simp add: sock_filter_parse_def)
qed

lemma parse_total:
  assumes "owns H (pbuf_blocks p0) s" and "pb_arr p0 = None \<longrightarrow> pb_filter p0 = []"
  shows "\<exists>rc p s' L. sock_filter_parse path p0 s = Some ((rc, p), s') \<and> os_fd s' = os_fd s \<and> owns H (L @ pbuf_blocks p) s' \<and>
    length L \<le> 1 \<and> (rc = 0 \<longrightarrow> L = []) \<and> (pb_arr p = None \<longrightarrow> pb_filter p = [])"
proof -
  obtain fd s1 where o: "open_file path O_RDONLY s = (fd, s1)" by force
  have o1: "owns H (pbuf_blocks p0) s1"
    using assms(1) open_file_frame [of path O_RDONLY s] by (simp add: o owns_def heap_wf_def)
  show ?thesis
  proof (cases "0 \<le> fd")
    case False
    then have "os_fd s1 = os_fd s" "fd = -1" "os_errno s1 \<noteq> 0" using o
      by (auto simp: open_file_def syscall_def O_RDONLY_def O_CREAT_def errno_def errno_defs Let_def split: outcome.splits option.splits if_splits)
    with o o1 assms(2) show ?thesis by (auto simp: sock_filter_parse_def intro!: exI [of _ "[]"])
  next
    case True
    then have "0 \<le> f_fd (new_stream fd)" by simp
    from filter_lines_total [OF this o1 assms(2)] obtain rc p fp s2 L d where
      f: "filter_lines (new_stream fd) p0 s1 = Some ((rc, p), fp, s2)" "owns H (L @ pbuf_blocks p) s2" "length L \<le> 1" "rc = 0 \<longrightarrow> L = []"
        "pb_arr p = None \<longrightarrow> pb_filter p = []" "f_fd fp = fd" "os_fd s2 = (os_fd s1)(nat fd := d)"
      unfolding new_stream_simps by (elim exE conjE) (rule that)
    from parse_opened [OF o True f(1,6,7,2)] obtain s3 where
      "sock_filter_parse path p0 s = Some ((rc, p), s3)" "os_fd s3 = os_fd s" "owns H (L @ pbuf_blocks p) s3" by blast
    with f(3-5) show ?thesis by (intro exI [of _ rc] exI [of _ p] exI [of _ s3] exI [of _ L]) simp
  qed
qed

lemma open_text:
  assumes "faultless s" and "free_fds s \<noteq> []" and "os_dir s path = Some ino"
  obtains fd s1 where "open_file path O_RDONLY s = (fd, s1)" "0 \<le> fd" "fd_of s fd = None"
    "stream_left (new_stream fd) s1 (os_data s ino)" "only_read fd s s1"
proof -
  obtain n fs where n: "free_fds s = n # fs" using assms(2) by (cases "free_fds s") auto
  from open_file_total [OF assms(1) n assms(3)] obtain s1 where o: "open_file path O_RDONLY s = (int n, s1)" by blast
  note ok = open_file_ok [OF o]
  note d = open_file_rdonly_data [OF o]
  note fr = open_file_frame [of path O_RDONLY s, unfolded o snd_conv]
  have "stream_left (new_stream (int n)) s1 (os_data s ino)"
    using ok d assms(3) by (auto simp: stream_left_def fd_of_def O_RDONLY_def)
  moreover have "only_read (int n) s s1" using ok fr by (auto simp: only_read_def)
  moreover have "fd_of s (int n) = None" using ok by (simp add: fd_of_def)
  ultimately show ?thesis using that o by simp
qed

section \<open>Round trip\<close>

text \<open>
  C33: A filter survives the trip through a text file: if a readable file holds the instructions in the format of
  \<^verbatim>\<open>tcpdump -dd\<close>, one to a line, any number of them and with any 32-bit values, then parsing the file gives a message with exactly
  these instructions in their order, the file is closed again, and releasing the message gives all memory back.
\<close>

theorem sock_filter_parse_roundtrip:
  assumes "faultless s" and "heap_wf s" and "free_fds s \<noteq> []" and "os_dir s path = Some ino"
    and "os_data s ino = text_bytes (concat (map insn_line fs))"
  shows "\<exists>p s1 s2. sock_filter_parse path dabba__sock_fprog__init s = Some ((0, p), s1) \<and> map snd (pb_filter p) = fs \<and>
    os_fd s1 = os_fd s \<and> sock_filter_destroy p s1 = Some (dabba__sock_fprog__init, s2) \<and> os_heap s2 = os_heap s"
proof -
  from open_text [OF assms(1,3,4)] obtain fd s1 where o: "open_file path O_RDONLY s = (fd, s1)" "0 \<le> fd" "fd_of s fd = None"
    "stream_left (new_stream fd) s1 (os_data s ino)" "only_read fd s s1" .
  have "faultless s1" "owns (os_heap s) (pbuf_blocks dabba__sock_fprog__init) s1"
    using o(5) assms(1,2) by (auto simp: only_read_def owns_def heap_wf_def faultless_def pbuf_blocks_def dabba__sock_fprog__init_def)
  from filter_lines_ok [OF this(1) _ o(4) [unfolded assms(5)] this(2)] o(2) obtain p fp s2 d where
    f: "filter_lines (new_stream fd) dabba__sock_fprog__init s1 = Some ((0, p), fp, s2)"
    "map snd (pb_filter p) = map snd (pb_filter dabba__sock_fprog__init) @ fs" "owns (os_heap s) (pbuf_blocks p) s2" "f_fd fp = fd"
    "os_fd s2 = (os_fd s1)(nat fd := d)" "pb_arr p = None \<longrightarrow> pb_filter p = []"
    by (auto simp: dabba__sock_fprog__init_def)
  from parse_opened [OF o(1,2) f(1,4,5,3)] obtain s3 where
    p: "sock_filter_parse path dabba__sock_fprog__init s = Some ((0, p), s3)" "os_fd s3 = os_fd s" "owns (os_heap s) (pbuf_blocks p) s3" by blast
  from destroy_owned [of _ "[]", simplified, OF p(3) f(6)] p f(2) show ?thesis by (auto simp: dabba__sock_fprog__init_def)
qed

definition demo_insns :: "pbuf_sock_filter list" where
  "demo_insns = [\<lparr>pb_code = 0x28, pb_jt = 0, pb_jf = 0, pb_k = 12\<rparr>, \<lparr>pb_code = 6, pb_jt = 0, pb_jf = 0, pb_k = 0xffff\<rparr>]"

definition demo_filter_os :: os where
  "demo_filter_os = (boot (\<lambda>_. Succeed))\<lparr>os_dir := [''f'' \<mapsto> 0], os_data := (\<lambda>_. text_bytes (concat (map insn_line demo_insns)))\<rparr>"

theorem sock_filter_parse_roundtrip_witness:
  "\<exists>p s. sock_filter_parse ''f'' dabba__sock_fprog__init demo_filter_os = Some ((0, p), s) \<and>
     map pb_code (map snd (pb_filter p)) = [0x28, 6] \<and> map pb_k (map snd (pb_filter p)) = [12, 0xffff]"
proof -
  have "faultless demo_filter_os" "heap_wf demo_filter_os" "free_fds demo_filter_os \<noteq> []" "os_dir demo_filter_os ''f'' = Some 0"
    "os_data demo_filter_os 0 = text_bytes (concat (map insn_line demo_insns))"
    by (simp_all add: demo_filter_os_def faultless_def heap_wf_def free_fds_def upt_rec)
  from sock_filter_parse_roundtrip [OF this] show ?thesis by (auto simp: demo_insns_def)
qed

section \<open>Every file and every failure\<close>

text \<open>
  C34: Whatever a filter file holds and whatever system calls and allocations fail or come short, the parser returns, with the file closed again,
  and the message it leaves can be released; at most one instruction then stays allocated (the one of the line that was refused),
  and none when the parser reports success.
\<close>

theorem sock_filter_parse_total:
  assumes "heap_wf s"
  shows "\<exists>rc p s1 s2 L. sock_filter_parse path dabba__sock_fprog__init s = Some ((rc, p), s1) \<and> os_fd s1 = os_fd s \<and>
    sock_filter_destroy p s1 = Some (dabba__sock_fprog__init, s2) \<and> os_heap s2 = os_heap s \<union> set L \<and> length L \<le> 1 \<and> (rc = 0 \<longrightarrow> L = [])"
proof -
  have "owns (os_heap s) (pbuf_blocks dabba__sock_fprog__init) s"
    "pb_arr dabba__sock_fprog__init = None \<longrightarrow> pb_filter dabba__sock_fprog__init = []"
    using assms by (auto simp: owns_def pbuf_blocks_def dabba__sock_fprog__init_def)
  from parse_total [OF this, of path] obtain rc p s1 L where
    "sock_filter_parse path dabba__sock_fprog__init s = Some ((rc, p), s1)" "os_fd s1 = os_fd s"
    "owns (os_heap s) (L @ pbuf_blocks p) s1" "length L \<le> 1" "rc = 0 \<longrightarrow> L = []" "pb_arr p = None \<longrightarrow> pb_filter p = []"
    by (elim exE conjE) (rule that)
  with destroy_owned [OF this(3,6)] show ?thesis by blast
qed

definition faulty_filter_os :: os where
  "faulty_filter_os = (boot (\<lambda>n. if n < 3 then Succeed else Fail 4))\<lparr>os_dir := [''f'' \<mapsto> 0], os_data := (\<lambda>_. text_bytes ''{ 0x28, '')\<rparr>"

theorem sock_filter_parse_total_witness:
  "\<exists>rc p s1 s2 L. sock_filter_parse ''f'' dabba__sock_fprog__init faulty_filter_os = Some ((rc, p), s1) \<and> os_fd s1 3 = None \<and>
    sock_filter_destroy p s1 = Some (dabba__sock_fprog__init, s2) \<and> os_heap s2 = set L \<and> length L \<le> 1 \<and> (rc = 0 \<longrightarrow> L = [])"
proof -
  have "heap_wf faulty_filter_os" "os_fd faulty_filter_os 3 = None" "os_heap faulty_filter_os = {}"
    by (simp_all add: faulty_filter_os_def heap_wf_def)
  note w = this
  from sock_filter_parse_total [OF w(1), of "''f''"] obtain rc p s1 s2 L where
    r: "sock_filter_parse ''f'' dabba__sock_fprog__init faulty_filter_os = Some ((rc, p), s1)" "os_fd s1 = os_fd faulty_filter_os"
      "sock_filter_destroy p s1 = Some (dabba__sock_fprog__init, s2)" "os_heap s2 = os_heap faulty_filter_os \<union> set L" "length L \<le> 1" "rc = 0 \<longrightarrow> L = []"
    by (elim exE conjE) (rule that)
  then show ?thesis using w
    by (intro exI [of _ rc] exI [of _ p] exI [of _ s1] exI [of _ s2] exI [of _ L]) simp
qed

end
