(* ===== verification/Client.thy ===== *)
theory Client
  imports Getopt Service Capabilities
begin

text \<open>
  The frame of the command line client: its state, the conversions of \<^verbatim>\<open>src/dabba/cli.c\<close>, the remote calls of
  \<^verbatim>\<open>src/dabba/rpc.c\<close>, the help of \<^verbatim>\<open>src/dabba/help.c\<close> and the tables of commands of \<^verbatim>\<open>src/dabba/dabba.c\<close>. The library that carries
  the calls is a parameter: whether a server can be reached, and what it answers to a call in its state (\<open>None\<close> when
  no answer ever arrives, for which the client waits forever). So are the messages for error numbers, the program \<^verbatim>\<open>man\<close> and the
  version the build puts in.
\<close>

section \<open>Calls and answers\<close>

text \<open>
  The procedures of \<^verbatim>\<open>src/libdabba-rpc/dabba.proto\<close>. \<open>No_Id\<close> marks a message whose required identifier is
  missing; the field of the record is then meaningless. A list of threads to report is always empty, see \<open>no_ids\<close>.
\<close>

datatype interface_part = Status | Driver | Pauses | Offload | Settings | Coalescing | Capabilities | Statistics

datatype call =
    Session request
  | Interface_Get interface_part "string list"
  | Status_Modify status_request
  | Pause_Modify pause_request
  | Offload_Modify offload_request
  | Settings_Modify settings_request
  | Coalesce_Modify coalesce_request
  | Capabilities_Modify capabilities_request
  | No_Id call

text \<open>The message an answer carries; NULL lists and a NULL error code are \<open>None\<close>.\<close>

datatype answer =
    Error_Code "int option"
  | Captures "capture_info list option"
  | Replays "replay_info list option"
  | Threads "thread_info list option"
  | Thread_Capabilities "thread_capabilities list option"
  | Status_List "interface_status list option"
  | Driver_List "interface_driver list option"
  | Pause_List "interface_pause list option"
  | Offload_List "interface_offload list option"
  | Settings_List "interface_settings list option"
  | Coalesce_List "interface_coalesce list option"
  | Capability_List "interface_capabilities list option"
  | Statistics_List "interface_statistics list option"

section \<open>State and parameters\<close>

text \<open>
  Standard output: whether it is open, whether it is a pipe or a socket, the error numbers a flush and a close end with (0 for none),
  and its error flag.
\<close>

record stdout =
  so_open :: bool
  so_pipe :: bool
  so_flush :: int
  so_error :: bool
  so_close :: int

record 'd client =
  c_os :: os
  c_out :: string
  c_stdout :: stdout
  c_peer :: 'd

datatype address_type = ADDRESS_LOCAL | ADDRESS_TCP

text \<open>\<open>e_man\<close> is \<open>None\<close> when the process is replaced by the manual, else the error number.\<close>

record 'd env =
  e_client_new :: "address_type \<Rightarrow> string \<Rightarrow> bool"
  e_is_connected :: "address_type \<Rightarrow> string \<Rightarrow> nat \<Rightarrow> bool"
  e_call :: "address_type \<Rightarrow> string \<Rightarrow> call \<Rightarrow> 'd \<Rightarrow> (answer \<times> 'd) option"
  e_strerror :: "int \<Rightarrow> string"
  e_man :: "string \<Rightarrow> int option"
  e_version :: string

datatype outcome_of = Ret int | Replaced string

type_synonym 'd result = "(outcome_of \<times> 'd client) option"
type_synonym 'd command = "int \<Rightarrow> string list \<Rightarrow> 'd client \<Rightarrow> 'd result"

definition printf :: "string \<Rightarrow> 'd client \<Rightarrow> 'd client" where
  "printf str c = c\<lparr>c_out := c_out c @ str\<rparr>"

section \<open>Conversions\<close>

definition str2bool :: "string \<Rightarrow> u32 \<Rightarrow> int \<times> u32" where
  "str2bool str val =
     (if strcasecmp_eq str ''false'' then (0, 0)
      else if strcasecmp_eq str ''true'' then (0, 1)
      else (EINVAL, val))"

definition SPEED_10 :: u32 where "SPEED_10 = 10"
definition SPEED_100 :: u32 where "SPEED_100 = 100"
definition SPEED_1000 :: u32 where "SPEED_1000 = 1000"
definition SPEED_2500 :: u32 where "SPEED_2500 = 2500"
definition SPEED_10000 :: u32 where "SPEED_10000 = 10000"
definition SPEED_UNKNOWN :: u32 where "SPEED_UNKNOWN = - 1"

definition str2speed :: "string \<Rightarrow> int \<times> u32" where
  "str2speed str =
     (if str = ''10'' then (0, SPEED_10)
      else if str = ''100'' then (0, SPEED_100)
      else if str = ''1000'' then (0, SPEED_1000)
      else if str = ''2500'' then (0, SPEED_2500)
      else if str = ''10000'' then (0, SPEED_10000)
      else (EINVAL, SPEED_UNKNOWN))"

definition DUPLEX_HALF :: u32 where "DUPLEX_HALF = 0"
definition DUPLEX_FULL :: u32 where "DUPLEX_FULL = 1"
definition DUPLEX_UNKNOWN :: u32 where "DUPLEX_UNKNOWN = 0xff"

definition str2duplex :: "string \<Rightarrow> int \<times> u32" where
  "str2duplex str =
     (if str = ''full'' then (0, DUPLEX_FULL)
      else if str = ''half'' then (0, DUPLEX_HALF)
      else (EINVAL, DUPLEX_UNKNOWN))"

definition duplex2str :: "u32 \<Rightarrow> string" where
  "duplex2str d = (if d = DUPLEX_HALF then ''half'' else if d = DUPLEX_FULL then ''full'' else ''unknown'')"

definition sched_policy :: "string list" where "sched_policy = [''other'', ''fifo'', ''rr'']"

definition SCHED_OTHER :: nat where "SCHED_OTHER = 0"

fun policy_index :: "string list \<Rightarrow> nat \<Rightarrow> string \<Rightarrow> nat" where
  "policy_index [] a name = SCHED_OTHER"
| "policy_index (p # ps) a name = (if name = p then a else policy_index ps (Suc a) name)"

definition str2sched_policy :: "string \<Rightarrow> u32" where
  "str2sched_policy name = of_nat (policy_index sched_policy 0 name)"

definition sched_policy2str :: "int \<Rightarrow> string" where
  "sched_policy2str policy = (if 0 \<le> policy \<and> policy < 3 then sched_policy ! nat policy else ''unknown'')"

definition thread_type2str :: "int \<Rightarrow> string" where
  "thread_type2str t = (if 0 \<le> t \<and> t < 2 then [''capture'', ''replay''] ! nat t else ''unknown'')"

definition port2str :: "u8 \<Rightarrow> string" where
  "port2str p = (if p < 6 then [''tp'', ''aui'', ''mii'', ''fibre'', ''bnc'', ''da''] ! unat p else ''unknown'')"

definition print_tf :: "u32 \<Rightarrow> string" where
  "print_tf expr = (if expr \<noteq> 0 then ''true'' else ''false'')"

section \<open>Remote calls\<close>

definition DABBA_RPC_DEFAULT_TCP_SERVER_NAME :: string where "DABBA_RPC_DEFAULT_TCP_SERVER_NAME = ''localhost:55994''"
definition DABBA_RPC_DEFAULT_LOCAL_SERVER_NAME :: string where "DABBA_RPC_DEFAULT_LOCAL_SERVER_NAME = ''/var/run/dabba/dabba''"

text \<open>The number of rounds of the event loop before the connection stands, at most \<open>n\<close> more.\<close>

fun connect_loop :: "(nat \<Rightarrow> bool) \<Rightarrow> nat \<Rightarrow> nat \<Rightarrow> nat" where
  "connect_loop up 0 a = a"
| "connect_loop up (Suc n) a = (if up a then a else connect_loop up n (Suc a))"

definition dabba_rpc_client_connect :: "'d env \<Rightarrow> string \<Rightarrow> address_type \<Rightarrow> bool" where
  "dabba_rpc_client_connect env name type =
     (if \<not> e_client_new env type name then False
      else connect_loop (e_is_connected env type name) 4 0 < 4)"

definition rpc_header_print :: "string \<Rightarrow> string" where
  "rpc_header_print title = ''---'' @ eol @ ''  '' @ title @ '':'' @ eol"

definition rpc_error_line :: "'d env \<Rightarrow> int \<Rightarrow> string" where
  "rpc_error_line env error_code = ''  rc: '' @ show_int error_code @ '' # '' @ e_strerror env error_code @ eol"

definition rpc_error_code_print :: "'d env \<Rightarrow> answer \<Rightarrow> string option" where
  "rpc_error_code_print env ans =
     (case ans of
        Error_Code (Some rc) \<Rightarrow> Some (rpc_error_line env rc)
      | Error_Code None \<Rightarrow> Some (rpc_error_line env EINVAL)
      | _ \<Rightarrow> None)"

text \<open>
  A call, the wait until its answer has arrived, and the closure that prints it. The library calls the closure
  with the message type of the procedure, so no other kind of answer occurs (\<open>None\<close>).
\<close>

definition rpc_invoke ::
  "'d env \<Rightarrow> address_type \<Rightarrow> string \<Rightarrow> call \<Rightarrow> (answer \<Rightarrow> string option) \<Rightarrow> 'd client \<Rightarrow> (int \<times> 'd client) option" where
  "rpc_invoke env type name q print c =
     do {
       (ans, peer) \<leftarrow> e_call env type name q (c_peer c);
       str \<leftarrow> print ans;
       Some (0, printf str (c\<lparr>c_peer := peer\<rparr>))
     }"

section \<open>Help\<close>

definition dabba_usage_string :: string where
  "dabba_usage_string = ''dabba [--help] [--version] <command> [<subcommand>] <action> [<args>]'' @ eol"

definition dabba_more_info_string :: string where
  "dabba_more_info_string = ''See '' @ [CHR 0x27] @ ''dabba help <command> [<subcommand>]'' @ [CHR 0x27] @ '' for more specific information.''"

primrec opt_usage :: "'b opt \<Rightarrow> string" where
  "opt_usage (No_Argument n b) = ''  --'' @ n @ eol"
| "opt_usage (Required_Argument n f) = ''  --'' @ n @ '' <arg>'' @ eol"
| "opt_usage (Optional_Argument n f) = ''  --'' @ n @ '' [arg]'' @ eol"

definition show_usage :: "'b opt list \<Rightarrow> string" where
  "show_usage opts = dabba_usage_string @ concat (map opt_usage opts)"

definition help_unknown_cmd :: "string \<Rightarrow> string" where
  "help_unknown_cmd cmd =
     [CHR 0x27] @ cmd @ [CHR 0x27] @ '' is not a dabba command. See '' @ [CHR 0x27] @ ''dabba --help'' @ [CHR 0x27] @ ''.'' @ eol"

definition common_cmds :: "(string \<times> string) list" where
  "common_cmds =
     [(''interface'', ''perform an interface related command''), (''thread'', ''perform a thread related command''),
      (''capture'', ''capture live traffic from an interface''), (''replay'', ''replay traffic from a pcap file'')]"

definition list_common_cmds_help :: string where
  "list_common_cmds_help =
     (let longest = foldl (\<lambda>m (name, help). max m (length name)) 0 common_cmds
      in ''The most commonly used dabba commands are:'' @ eol @
         concat (map (\<lambda>(name, help). ''   '' @ name @ ''   '' @ replicate (longest - length name) (CHR '' '') @ help @ eol) common_cmds))"

text \<open>
  The name of the manual page, built in a buffer of 255 bytes. An offset past the end makes the room that is left a huge
  unsigned number, and the next piece is written outside: \<open>None\<close>.
\<close>

fun help_name :: "nat \<Rightarrow> string list \<Rightarrow> string \<Rightarrow> string option" where
  "help_name offset [] page = Some (take (NAME_MAX - 1) page)"
| "help_name offset (a # args) page =
     (if NAME_MAX < offset then None else help_name (offset + Suc (length a)) args (page @ ''-'' @ a))"

definition cmd_help :: "'d env \<Rightarrow> 'd command" where
  "cmd_help env argc argv c =
     (if argc < 1 \<or> argv = [] then
        Some (Ret 0, printf (''usage: '' @ dabba_usage_string @ eol @ eol @ list_common_cmds_help @ eol @ dabba_more_info_string @ eol) c)
      else do {
        page \<leftarrow> help_name 5 (take (nat argc) argv) ''dabba'';
        Some (case e_man env page of None \<Rightarrow> (Replaced page, c) | Some e \<Rightarrow> (Ret e, c))
      })"

definition cmd_version :: "'d env \<Rightarrow> 'd command" where
  "cmd_version env argc argv c = Some (Ret 0, printf (''dabba version '' @ e_version env @ eol) c)"

section \<open>Commands\<close>

text \<open>Once standard output is closed, asking for its status fails.\<close>

definition run_builtin :: "'d command \<Rightarrow> 'd command" where
  "run_builtin fn argc argv c =
     do {
       (r, c1) \<leftarrow> fn argc argv c;
       case r of
         Replaced page \<Rightarrow> Some (Replaced page, c1)
       | Ret status \<Rightarrow>
           let out = c_stdout c1 in
           Some (if status \<noteq> 0 then (Ret status, c1)
                 else if \<not> so_open out then (Ret 0, c1)
                 else if so_pipe out then (Ret 0, c1)
                 else if so_flush out \<noteq> 0 then (Ret (so_flush out), c1)
                 else if so_error out then (Ret 1, c1)
                 else (Ret (so_close out), c1\<lparr>c_stdout := out\<lparr>so_open := False\<rparr>\<rparr>))
     }"

definition cmd_run_action :: "'d env \<Rightarrow> (string \<times> 'd command) list \<Rightarrow> 'd command" where
  "cmd_run_action env cmd argc argv c =
     (case argv of
        [] \<Rightarrow> cmd_help env argc argv c
      | cmd_str # args \<Rightarrow>
          (case map_of cmd cmd_str of
             Some fn \<Rightarrow> run_builtin fn (argc - 1) args c
           | None \<Rightarrow> Some (Ret ENOSYS, printf (help_unknown_cmd cmd_str) c)))"

text \<open>With no argument the word \<^verbatim>\<open>help\<close> is stored over the NULL that ends the vector, and the count stays 0.\<close>

definition help_args :: "int \<Rightarrow> string list \<Rightarrow> string list" where
  "help_args argc argv =
     (let argv = (if argc = 0 \<or> argv = [] \<or> hd argv = ''--help'' then ''help'' # tl argv else argv);
          argv = (if hd argv = ''--version'' then ''version'' # tl argv else argv)
      in if argc > 1 \<and> hd (tl argv) = ''--help'' then ''help'' # hd argv # drop 2 argv else argv)"

definition cmd_run_command :: "'d env \<Rightarrow> (string \<times> 'd command) list \<Rightarrow> 'd command" where
  "cmd_run_command env cmd argc argv c = cmd_run_action env cmd argc (help_args argc argv) c"

end
