(* ===== verification/Client_Sessions.thy ===== *)
theory Client_Sessions
  imports Client Filter_File
begin

text \<open>
  The commands on captures, replays and threads, \<^verbatim>\<open>src/dabba/capture.c\<close>, \<^verbatim>\<open>replay.c\<close>, \<^verbatim>\<open>thread.c\<close> and \<^verbatim>\<open>thread-capabilities.c\<close>:
  the option table of each action with the branches its \<open>switch\<close> runs, the call it makes and what it prints.
\<close>

section \<open>Option loops\<close>

text \<open>What an action knows while it reads its options: the server to ask, and the message it builds.\<close>

record 'm cmd_args =
  a_type :: address_type
  a_name :: string
  a_msg :: 'm

text \<open>How a branch ends: the next option, \<open>goto out\<close> with a result, a return, or the usage text.\<close>

datatype 'm verdict = Next "'m cmd_args" | Out int "'m cmd_args" | Return int | Usage "'m cmd_args"

type_synonym 'm branch = "'m cmd_args \<Rightarrow> os \<Rightarrow> ('m verdict \<times> os) option"

fun run_options :: "'m branch option list \<Rightarrow> 'm cmd_args \<Rightarrow> os \<Rightarrow> ('m verdict \<times> os) option" where
  "run_options [] a s = Some (Next a, s)"
| "run_options (None # bs) a s = Some (Usage a, s)"
| "run_options (Some b # bs) a s =
     do {
       (v, s1) \<leftarrow> b a s;
       case v of Next a1 \<Rightarrow> run_options bs a1 s1 | _ \<Rightarrow> Some (v, s1)
     }"

definition parse_options :: "'m branch opt list \<Rightarrow> 'm \<Rightarrow> string list \<Rightarrow> 'd client \<Rightarrow> ('m verdict \<times> 'd client) option" where
  "parse_options opts msg argv c =
     do {
       (v, s) \<leftarrow> run_options (getopt_long_only opts argv)
         \<lparr>a_type = ADDRESS_TCP, a_name = DABBA_RPC_DEFAULT_TCP_SERVER_NAME, a_msg = msg\<rparr> (c_os c);
       let c1 = c\<lparr>c_os := s\<rparr>;
       Some (v, case v of Usage a \<Rightarrow> printf (show_usage opts) c1 | _ \<Rightarrow> c1)
     }"

text \<open>The branches every action has.\<close>

definition opt_tcp :: "string option \<Rightarrow> 'm branch" where
  "opt_tcp optarg a s =
     Some (Next (a\<lparr>a_type := ADDRESS_TCP,
       a_name := (case optarg of Some n \<Rightarrow> n | None \<Rightarrow> DABBA_RPC_DEFAULT_TCP_SERVER_NAME)\<rparr>), s)"

definition opt_local :: "string option \<Rightarrow> 'm branch" where
  "opt_local optarg a s =
     Some (Next (a\<lparr>a_type := ADDRESS_LOCAL,
       a_name := (case optarg of Some n \<Rightarrow> n | None \<Rightarrow> DABBA_RPC_DEFAULT_LOCAL_SERVER_NAME)\<rparr>), s)"

definition opt_help :: "'m branch" where
  "opt_help a s = Some (Usage a, s)"

definition server_options :: "'m branch opt list" where
  "server_options = [Optional_Argument ''tcp'' opt_tcp, Optional_Argument ''local'' opt_local, No_Argument ''help'' opt_help]"

text \<open>A branch that only stores a value in the message.\<close>

definition store :: "(string \<Rightarrow> 'm \<Rightarrow> 'm) \<Rightarrow> string \<Rightarrow> 'm branch" where
  "store f optarg a s = Some (Next (a\<lparr>a_msg := f optarg (a_msg a)\<rparr>), s)"

text \<open>
  The branch that adds an identifier to the list of a query. The new element of the list is a pointer that was never set,
  and the identifier is written through it: \<open>None\<close>.
\<close>

definition no_ids :: "string \<Rightarrow> nat option branch" where
  "no_ids optarg a s =
     do {
       (idpp, s1) \<leftarrow> realloc (a_msg a) s;
       if idpp = None then Some (Return ENOMEM, s1) else None
     }"

text \<open>The end of an action without cleanup: connect, then call.\<close>

definition finish :: "'d env \<Rightarrow> ('m cmd_args \<Rightarrow> 'd client \<Rightarrow> (int \<times> 'd client) option) \<Rightarrow> 'm verdict \<times> 'd client \<Rightarrow> (int \<times> 'd client) option" where
  "finish env rpc r =
     (case fst r of
        Next a \<Rightarrow> if dabba_rpc_client_connect env (a_name a) (a_type a) then rpc a (snd r) else Some (EINVAL, snd r)
      | Usage a \<Rightarrow> Some (- 1, snd r)
      | Out rc a \<Rightarrow> Some (rc, snd r)
      | Return rc \<Rightarrow> Some (rc, snd r))"

definition ret :: "(int \<times> 'd client) option \<Rightarrow> 'd result" where
  "ret r = map_option (\<lambda>(rc, c). (Ret rc, c)) r"

section \<open>Captures\<close>

definition DEFAULT_CAPTURE_FRAME_NUMBER :: u64 where "DEFAULT_CAPTURE_FRAME_NUMBER = 32"

definition sock_filter_print :: "pbuf_sock_filter \<Rightarrow> string" where
  "sock_filter_print sf =
     ''        - { code: '' @ show_alt_hex (pb_code sf) @ '', jt: '' @ show_alt_hex (pb_jt sf) @ '', jf: '' @ show_alt_hex (pb_jf sf) @
     '', k: '' @ show_alt_hex (pb_k sf) @ '' }'' @ eol"

text \<open>The identifier and the filter are optional in the message and read without a check; the daemon sets both in every element of its lists.\<close>

definition capture_print :: "'d env \<Rightarrow> capture_info \<Rightarrow> string" where
  "capture_print env ci =
     ''    - id: '' @ show_nat (ci_id ci) @ eol @
     ''    '' @ rpc_error_line env (ci_code ci) @
     ''      packet mmap size: '' @ show_nat (unat (ci_frame_nr ci * ci_frame_size ci)) @ eol @
     ''      frame number: '' @ show_nat (unat (ci_frame_nr ci)) @ eol @
     ''      pcap: '' @ ci_pcap ci @ eol @
     ''      interface: '' @ ci_interface ci @ eol @
     ''      socket filter: '' @ eol @
     concat (map (sock_filter_print \<circ> snd) (pb_filter (ci_sfp ci)))"

text \<open>A list under its title; the list is NULL when the call failed.\<close>

definition list_print :: "string \<Rightarrow> ('a \<Rightarrow> string) \<Rightarrow> 'a list option \<Rightarrow> string" where
  "list_print title print result = rpc_header_print title @ concat (map print (case result of None \<Rightarrow> [] | Some l \<Rightarrow> l))"

definition capture_settings_print :: "'d env \<Rightarrow> answer \<Rightarrow> string option" where
  "capture_settings_print env ans =
     (case ans of Captures result \<Rightarrow> Some (list_print ''captures'' (capture_print env) result) | _ \<Rightarrow> None)"

definition rpc_capture_start :: "'d env \<Rightarrow> (capture_request \<times> pbuf_sock_fprog) cmd_args \<Rightarrow> 'd client \<Rightarrow> (int \<times> 'd client) option" where
  "rpc_capture_start env a = rpc_invoke env (a_type a) (a_name a) (Session (Capture_Start (fst (a_msg a)))) (rpc_error_code_print env)"

definition rpc_capture_stop :: "'d env \<Rightarrow> u64 cmd_args \<Rightarrow> 'd client \<Rightarrow> (int \<times> 'd client) option" where
  "rpc_capture_stop env a = rpc_invoke env (a_type a) (a_name a) (Session (Capture_Stop (unat (a_msg a)))) (rpc_error_code_print env)"

definition rpc_capture_stop_all :: "'d env \<Rightarrow> unit cmd_args \<Rightarrow> 'd client \<Rightarrow> (int \<times> 'd client) option" where
  "rpc_capture_stop_all env a = rpc_invoke env (a_type a) (a_name a) (Session Capture_Stop_All) (rpc_error_code_print env)"

definition rpc_capture_get :: "'d env \<Rightarrow> nat option cmd_args \<Rightarrow> 'd client \<Rightarrow> (int \<times> 'd client) option" where
  "rpc_capture_get env a = rpc_invoke env (a_type a) (a_name a) (Session Capture_Get) (capture_settings_print env)"

text \<open>The message of a start, and the filter beside it the message points at.\<close>

definition opt_sock_filter :: "string \<Rightarrow> (capture_request \<times> pbuf_sock_fprog) branch" where
  "opt_sock_filter optarg a s =
     do {
       ((rc, sfp), s1) \<leftarrow> sock_filter_parse optarg (snd (a_msg a)) s;
       Some (if rc \<noteq> 0 then (Return rc, s1) else (Next (a\<lparr>a_msg := ((fst (a_msg a))\<lparr>cr_sfp := Some sfp\<rparr>, sfp)\<rparr>), s1))
     }"

definition opt_append :: "(capture_request \<times> pbuf_sock_fprog) branch" where
  "opt_append a s = Some (Next (a\<lparr>a_msg := apfst (\<lambda>m. m\<lparr>cr_append := True\<rparr>) (a_msg a)\<rparr>), s)"

definition capture_start_option :: "(capture_request \<times> pbuf_sock_fprog) branch opt list" where
  "capture_start_option =
     [Required_Argument ''interface'' (store (\<lambda>v. apfst (\<lambda>m. m\<lparr>cr_interface := Some v\<rparr>))),
      Required_Argument ''pcap'' (store (\<lambda>v. apfst (\<lambda>m. m\<lparr>cr_pcap := Some v\<rparr>))),
      Required_Argument ''frame-number'' (store (\<lambda>v. apfst (\<lambda>m. m\<lparr>cr_frame_nr := strtoull v\<rparr>))),
      Required_Argument ''frame-size'' (store (\<lambda>v. apfst (\<lambda>m. m\<lparr>cr_frame_size := strtoull v\<rparr>))),
      Required_Argument ''sock-filter'' opt_sock_filter,
      No_Argument ''append'' opt_append] @ server_options"

definition capture_start_init :: "capture_request \<times> pbuf_sock_fprog" where
  "capture_start_init =
     (\<lparr>cr_pcap = None, cr_interface = None, cr_frame_nr = DEFAULT_CAPTURE_FRAME_NUMBER, cr_frame_size = of_nat PACKET_MMAP_ETH_FRAME_LEN,
       cr_append = False, cr_sfp = None\<rparr>, dabba__sock_fprog__init)"

text \<open>The filter is released at the end, but not when the usage is shown or a filter file is refused.\<close>

definition cmd_capture_start :: "'d env \<Rightarrow> 'd command" where
  "cmd_capture_start env argc argv c =
     do {
       (v, c1) \<leftarrow> parse_options capture_start_option capture_start_init argv c;
       (rc, c2) \<leftarrow> finish env (rpc_capture_start env) (v, c1);
       case v of
         Next a \<Rightarrow> do { (_, s) \<leftarrow> sock_filter_destroy (snd (a_msg a)) (c_os c2); Some (Ret rc, c2\<lparr>c_os := s\<rparr>) }
       | _ \<Rightarrow> Some (Ret rc, c2)
     }"

definition id_option :: "u64 branch opt list" where
  "id_option = [Required_Argument ''id'' (store (\<lambda>v _. strtoull v))] @ server_options"

definition cmd_capture_stop :: "'d env \<Rightarrow> 'd command" where
  "cmd_capture_stop env argc argv c =
     ret (do { r \<leftarrow> parse_options id_option 0 argv c; finish env (rpc_capture_stop env) r })"

definition cmd_capture_stop_all :: "'d env \<Rightarrow> 'd command" where
  "cmd_capture_stop_all env argc argv c =
     ret (do { r \<leftarrow> parse_options server_options () argv c; finish env (rpc_capture_stop_all env) r })"

definition id_list_option :: "nat option branch opt list" where
  "id_list_option = [Required_Argument ''id'' no_ids] @ server_options"

text \<open>The list of identifiers is released; it was never allocated when the end is reached.\<close>

definition get_session ::
  "'d env \<Rightarrow> (nat option cmd_args \<Rightarrow> 'd client \<Rightarrow> (int \<times> 'd client) option) \<Rightarrow> string list \<Rightarrow> 'd client \<Rightarrow> 'd result" where
  "get_session env rpc argv c =
     do {
       (v, c1) \<leftarrow> parse_options id_list_option None argv c;
       (rc, c2) \<leftarrow> finish env rpc (v, c1);
       case v of
         Next a \<Rightarrow> do { s \<leftarrow> free (a_msg a) (c_os c2); Some (Ret rc, c2\<lparr>c_os := s\<rparr>) }
       | Usage a \<Rightarrow> do { s \<leftarrow> free (a_msg a) (c_os c2); Some (Ret rc, c2\<lparr>c_os := s\<rparr>) }
       | _ \<Rightarrow> Some (Ret rc, c2)
     }"

definition cmd_capture_get :: "'d env \<Rightarrow> 'd command" where
  "cmd_capture_get env argc argv c = get_session env (rpc_capture_get env) argv c"

definition cmd_capture :: "'d env \<Rightarrow> 'd command" where
  "cmd_capture env = cmd_run_command env
     [(''start'', cmd_capture_start env), (''stop'', cmd_capture_stop env), (''stop-all'', cmd_capture_stop_all env),
      (''get'', cmd_capture_get env)]"

section \<open>Replays\<close>

definition DEFAULT_REPLAY_FRAME_NUMBER :: u64 where "DEFAULT_REPLAY_FRAME_NUMBER = 32"

definition replay_print :: "'d env \<Rightarrow> replay_info \<Rightarrow> string" where
  "replay_print env ri =
     ''    - id: '' @ show_nat (ri_id ri) @ eol @
     ''    '' @ rpc_error_line env (ri_code ri) @
     ''      packet mmap size: '' @ show_nat (unat (ri_frame_nr ri * ri_frame_size ri)) @ eol @
     ''      frame number: '' @ show_nat (unat (ri_frame_nr ri)) @ eol @
     ''      pcap: '' @ ri_pcap ri @ eol @
     ''      interface: '' @ ri_interface ri @ eol"

definition replay_settings_print :: "'d env \<Rightarrow> answer \<Rightarrow> string option" where
  "replay_settings_print env ans =
     (case ans of Replays result \<Rightarrow> Some (list_print ''replays'' (replay_print env) result) | _ \<Rightarrow> None)"

definition rpc_replay_start :: "'d env \<Rightarrow> replay_request cmd_args \<Rightarrow> 'd client \<Rightarrow> (int \<times> 'd client) option" where
  "rpc_replay_start env a = rpc_invoke env (a_type a) (a_name a) (Session (Replay_Start (a_msg a))) (rpc_error_code_print env)"

definition rpc_replay_stop :: "'d env \<Rightarrow> u64 cmd_args \<Rightarrow> 'd client \<Rightarrow> (int \<times> 'd client) option" where
  "rpc_replay_stop env a = rpc_invoke env (a_type a) (a_name a) (Session (Replay_Stop (unat (a_msg a)))) (rpc_error_code_print env)"

definition rpc_replay_stop_all :: "'d env \<Rightarrow> unit cmd_args \<Rightarrow> 'd client \<Rightarrow> (int \<times> 'd client) option" where
  "rpc_replay_stop_all env a = rpc_invoke env (a_type a) (a_name a) (Session Replay_Stop_All) (rpc_error_code_print env)"

definition rpc_replay_get :: "'d env \<Rightarrow> nat option cmd_args \<Rightarrow> 'd client \<Rightarrow> (int \<times> 'd client) option" where
  "rpc_replay_get env a = rpc_invoke env (a_type a) (a_name a) (Session Replay_Get) (replay_settings_print env)"

definition replay_start_option :: "replay_request branch opt list" where
  "replay_start_option =
     [Required_Argument ''interface'' (store (\<lambda>v m. m\<lparr>rr_interface := Some v\<rparr>)),
      Required_Argument ''pcap'' (store (\<lambda>v m. m\<lparr>rr_pcap := Some v\<rparr>)),
      Required_Argument ''frame-number'' (store (\<lambda>v m. m\<lparr>rr_frame_nr := strtoull v\<rparr>)),
      Required_Argument ''frame-size'' (store (\<lambda>v m. m\<lparr>rr_frame_size := strtoull v\<rparr>))] @ server_options"

definition replay_start_init :: replay_request where
  "replay_start_init = \<lparr>rr_pcap = None, rr_interface = None, rr_frame_nr = DEFAULT_REPLAY_FRAME_NUMBER,
     rr_frame_size = of_nat PACKET_MMAP_ETH_FRAME_LEN\<rparr>"

definition cmd_replay_start :: "'d env \<Rightarrow> 'd command" where
  "cmd_replay_start env argc argv c =
     ret (do { r \<leftarrow> parse_options replay_start_option replay_start_init argv c; finish env (rpc_replay_start env) r })"

definition cmd_replay_stop :: "'d env \<Rightarrow> 'd command" where
  "cmd_replay_stop env argc argv c =
     ret (do { r \<leftarrow> parse_options id_option 0 argv c; finish env (rpc_replay_stop env) r })"

definition cmd_replay_stop_all :: "'d env \<Rightarrow> 'd command" where
  "cmd_replay_stop_all env argc argv c =
     ret (do { r \<leftarrow> parse_options server_options () argv c; finish env (rpc_replay_stop_all env) r })"

text \<open>The vector is not moved back by one here, so the first argument is taken for the name of the program.\<close>

definition cmd_replay_get :: "'d env \<Rightarrow> 'd command" where
  "cmd_replay_get env argc argv c = get_session env (rpc_replay_get env) (tl argv) c"

definition cmd_replay :: "'d env \<Rightarrow> 'd command" where
  "cmd_replay env = cmd_run_command env
     [(''start'', cmd_replay_start env), (''stop'', cmd_replay_stop env), (''stop-all'', cmd_replay_stop_all env),
      (''get'', cmd_replay_get env)]"

section \<open>Threads\<close>

definition thread_info_print :: "'d env \<Rightarrow> thread_info \<Rightarrow> string" where
  "thread_info_print env ti =
     ''    - id: '' @ show_nat (ti_id ti) @ eol @
     ''    '' @ rpc_error_line env (ti_code ti) @
     ''      type: '' @ thread_type2str (ti_type ti) @ eol @
     ''      scheduling policy: '' @ sched_policy2str (sint (ti_sched_policy ti)) @ eol @
     ''      scheduling priority: '' @ show_int (sint (ti_sched_priority ti)) @ eol @
     ''      cpu affinity: '' @ ti_cpu_set ti @ eol"

definition thread_print :: "'d env \<Rightarrow> answer \<Rightarrow> string option" where
  "thread_print env ans =
     (case ans of Threads result \<Rightarrow> Some (list_print ''threads'' (thread_info_print env) result) | _ \<Rightarrow> None)"

definition rpc_thread_get :: "'d env \<Rightarrow> nat option cmd_args \<Rightarrow> 'd client \<Rightarrow> (int \<times> 'd client) option" where
  "rpc_thread_get env a = rpc_invoke env (a_type a) (a_name a) (Session Thread_Get) (thread_print env)"

text \<open>The message of a change, and the block of its identifier: NULL when none was given.\<close>

definition rpc_thread_modify :: "'d env \<Rightarrow> (thread_request \<times> nat option) cmd_args \<Rightarrow> 'd client \<Rightarrow> (int \<times> 'd client) option" where
  "rpc_thread_modify env a =
     (let q = Session (Thread_Modify (fst (a_msg a)))
      in rpc_invoke env (a_type a) (a_name a) (if snd (a_msg a) = None then No_Id q else q) (rpc_error_code_print env))"

definition cmd_thread_get :: "'d env \<Rightarrow> 'd command" where
  "cmd_thread_get env argc argv c = get_session env (rpc_thread_get env) argv c"

text \<open>The branch that allocates an identifier; one given before is not released.\<close>

definition opt_id :: "(string \<Rightarrow> 'm \<Rightarrow> 'm) \<Rightarrow> string \<Rightarrow> ('m \<times> nat option) branch" where
  "opt_id upd optarg a s =
     (let (b, s1) = malloc s in
      Some (if b = None then (Return ENOMEM, s1) else (Next (a\<lparr>a_msg := (upd optarg (fst (a_msg a)), b)\<rparr>), s1)))"

definition thread_modify_option :: "(thread_request \<times> nat option) branch opt list" where
  "thread_modify_option =
     [Required_Argument ''id'' (opt_id (\<lambda>v m. m\<lparr>tm_id := unat (strtoull v)\<rparr>)),
      No_Argument ''settings'' opt_help,
      Required_Argument ''sched-prio'' (store (\<lambda>v. apfst (\<lambda>m. m\<lparr>tm_sched_priority := Some (of_int (strtol v))\<rparr>))),
      Required_Argument ''sched-policy'' (store (\<lambda>v. apfst (\<lambda>m. m\<lparr>tm_sched_policy := Some (str2sched_policy v)\<rparr>))),
      Required_Argument ''cpu-affinity'' (store (\<lambda>v. apfst (\<lambda>m. m\<lparr>tm_cpu_set := Some v\<rparr>)))] @ server_options"

definition thread_modify_init :: "thread_request \<times> nat option" where
  "thread_modify_init = (\<lparr>tm_id = 0, tm_cpu_set = None, tm_sched_policy = None, tm_sched_priority = None\<rparr>, None)"

text \<open>The identifier is not released when there is no connection.\<close>

definition cmd_thread_modify :: "'d env \<Rightarrow> 'd command" where
  "cmd_thread_modify env argc argv c =
     do {
       (v, c1) \<leftarrow> parse_options thread_modify_option thread_modify_init argv c;
       (rc, c2) \<leftarrow> finish env (rpc_thread_modify env) (v, c1);
       case v of
         Next a \<Rightarrow>
           if \<not> dabba_rpc_client_connect env (a_name a) (a_type a) then Some (Ret rc, c2)
           else do { s \<leftarrow> free (snd (a_msg a)) (c_os c2); Some (Ret 0, c2\<lparr>c_os := s\<rparr>) }
       | Usage a \<Rightarrow> do { s \<leftarrow> free (snd (a_msg a)) (c_os c2); Some (Ret rc, c2\<lparr>c_os := s\<rparr>) }
       | _ \<Rightarrow> Some (Ret rc, c2)
     }"

definition thread_capability_print :: "'d env \<Rightarrow> thread_capabilities \<Rightarrow> string" where
  "thread_capability_print env cap =
     ''    '' @ sched_policy2str (tc_policy cap) @ '':'' @ eol @
     ''    '' @ rpc_error_line env (tc_code cap) @
     ''        scheduling priority:'' @ eol @
     ''            minimum: '' @ show_int (tc_prio_min cap) @ eol @
     ''            maximum: '' @ show_int (tc_prio_max cap) @ eol"

definition thread_capabilities_print :: "'d env \<Rightarrow> answer \<Rightarrow> string option" where
  "thread_capabilities_print env ans =
     (case ans of Thread_Capabilities result \<Rightarrow> Some (list_print ''thread capabilities'' (thread_capability_print env) result) | _ \<Rightarrow> None)"

definition rpc_thread_capabilities_get :: "'d env \<Rightarrow> unit cmd_args \<Rightarrow> 'd client \<Rightarrow> (int \<times> 'd client) option" where
  "rpc_thread_capabilities_get env a =
     rpc_invoke env (a_type a) (a_name a) (Session Thread_Capabilities_Get) (thread_capabilities_print env)"

definition cmd_thread_capabilities_get :: "'d env \<Rightarrow> 'd command" where
  "cmd_thread_capabilities_get env argc argv c =
     ret (do { r \<leftarrow> parse_options server_options () argv c; finish env (rpc_thread_capabilities_get env) r })"

definition cmd_thread_capabilities :: "'d env \<Rightarrow> 'd command" where
  "cmd_thread_capabilities env = cmd_run_command env [(''get'', cmd_thread_capabilities_get env)]"

definition cmd_thread :: "'d env \<Rightarrow> 'd command" where
  "cmd_thread env = cmd_run_command env
     [(''capabilities'', cmd_thread_capabilities env), (''get'', cmd_thread_get env), (''modify'', cmd_thread_modify env)]"

end
