(* ===== verification/Client_Interface.thy ===== *)
theory Client_Interface
  imports Client_Sessions
begin

text \<open>
  The commands on interfaces, \<^verbatim>\<open>src/dabba/interface.c\<close> and \<^verbatim>\<open>src/dabba/interface-*.c\<close>, and the whole client: what each action
  sends and prints, and the tables of commands down from \<open>main\<close>. The result of a change is printed, its reply is
  never looked at, so an action ends with 0 once its call was answered.
\<close>

section \<open>Queries\<close>

text \<open>The list of a query: its array, and its elements with their blocks.\<close>

record id_list =
  il_arr :: "nat option"
  il_ids :: "(nat \<times> string) list"

definition opt_interface_id :: "string \<Rightarrow> id_list branch" where
  "opt_interface_id optarg a s =
     do {
       (idpp, s1) \<leftarrow> realloc (il_arr (a_msg a)) s;
       if idpp = None then Some (Return ENOMEM, s1) else
       let l = (a_msg a)\<lparr>il_arr := idpp\<rparr>;
           (b, s2) = malloc s1
       in Some (case b of
            None \<Rightarrow> (Return ENOMEM, s2)
          | Some b \<Rightarrow> (Next (a\<lparr>a_msg := l\<lparr>il_ids := il_ids l @ [(b, optarg)]\<rparr>\<rparr>), s2))
     }"

definition interface_get_option :: "id_list branch opt list" where
  "interface_get_option = [Required_Argument ''id'' opt_interface_id] @ server_options"

definition id_list_free :: "id_list \<Rightarrow> os \<Rightarrow> os option" where
  "id_list_free l s = do { s1 \<leftarrow> free_all (map fst (il_ids l)) s; free (il_arr l) s1 }"

definition rpc_interface_get :: "'d env \<Rightarrow> (id_list cmd_args \<Rightarrow> 'd client \<Rightarrow> (int \<times> 'd client) option) \<Rightarrow> 'd command" where
  "rpc_interface_get env rpc argc argv c =
     do {
       (v, c1) \<leftarrow> parse_options interface_get_option \<lparr>il_arr = None, il_ids = []\<rparr> argv c;
       (rc, c2) \<leftarrow> finish env rpc (v, c1);
       case v of
         Next a \<Rightarrow> do { s \<leftarrow> id_list_free (a_msg a) (c_os c2); Some (Ret rc, c2\<lparr>c_os := s\<rparr>) }
       | Usage a \<Rightarrow> do { s \<leftarrow> id_list_free (a_msg a) (c_os c2); Some (Ret rc, c2\<lparr>c_os := s\<rparr>) }
       | _ \<Rightarrow> Some (Ret rc, c2)
     }"

definition interface_query ::
  "'d env \<Rightarrow> interface_part \<Rightarrow> (answer \<Rightarrow> string option) \<Rightarrow> id_list cmd_args \<Rightarrow> 'd client \<Rightarrow> (int \<times> 'd client) option" where
  "interface_query env part print a =
     rpc_invoke env (a_type a) (a_name a) (Interface_Get part (map snd (il_ids (a_msg a)))) print"

definition head_print :: "'d env \<Rightarrow> string \<Rightarrow> int \<Rightarrow> string" where
  "head_print env name rc = ''    - name: '' @ name @ eol @ ''    '' @ rpc_error_line env rc"

text \<open>\<^verbatim>\<open>%s\<close> of a pointer that may be NULL, and \<^verbatim>\<open>%u\<close>.\<close>

definition show_str :: "string option \<Rightarrow> string" where
  "show_str p = (case p of None \<Rightarrow> ''(null)'' | Some str \<Rightarrow> str)"

definition show_u :: "'a::len word \<Rightarrow> string" where
  "show_u w = show_nat (unat w)"

definition bool32 :: "bool \<Rightarrow> u32" where "bool32 b = (if b then 1 else 0)"

section \<open>Printing\<close>

definition interface_status_print :: "'d env \<Rightarrow> interface_status \<Rightarrow> string" where
  "interface_status_print env st =
     head_print env (st_name st) (st_code st) @
     ''      status: {'' @
     ''connectivity: '' @ print_tf (st_connectivity st) @ '', '' @
     ''up: '' @ print_tf (bool32 (st_up st)) @ '', '' @
     ''running: '' @ print_tf (bool32 (st_running st)) @ '', '' @
     ''promiscuous: '' @ print_tf (bool32 (st_promiscuous st)) @ '', '' @
     ''loopback: '' @ print_tf (bool32 (st_loopback st)) @ ''}'' @ eol"

definition interface_status_list_print :: "'d env \<Rightarrow> answer \<Rightarrow> string option" where
  "interface_status_list_print env ans =
     (case ans of Status_List result \<Rightarrow> Some (list_print ''interfaces'' (interface_status_print env) result) | _ \<Rightarrow> None)"

definition interface_driver_print :: "'d env \<Rightarrow> interface_driver \<Rightarrow> string" where
  "interface_driver_print env dr =
     head_print env (dr_id dr) (dr_code dr) @
     ''      driver name: '' @ show_str (dr_name dr) @ eol @
     ''      driver version: '' @ show_str (dr_version dr) @ eol @
     ''      firmware version: '' @ show_str (dr_fw_version dr) @ eol @
     ''      bus info: '' @ show_str (dr_bus_info dr) @ eol"

definition interface_driver_list_print :: "'d env \<Rightarrow> answer \<Rightarrow> string option" where
  "interface_driver_list_print env ans =
     (case ans of Driver_List result \<Rightarrow> Some (list_print ''interfaces'' (interface_driver_print env) result) | _ \<Rightarrow> None)"

definition interface_pause_print :: "'d env \<Rightarrow> interface_pause \<Rightarrow> string" where
  "interface_pause_print env pa =
     head_print env (pa_name pa) (pa_code pa) @
     ''      pause:'' @ eol @
     ''        autoneg: '' @ print_tf (pa_autoneg pa) @ eol @
     ''        rx: '' @ print_tf (pa_rx_pause pa) @ eol @
     ''        tx: '' @ print_tf (pa_tx_pause pa) @ eol"

definition interface_pause_list_print :: "'d env \<Rightarrow> answer \<Rightarrow> string option" where
  "interface_pause_list_print env ans =
     (case ans of Pause_List result \<Rightarrow> Some (list_print ''interfaces'' (interface_pause_print env) result) | _ \<Rightarrow> None)"

text \<open>A field that is absent from the message is read as 0.\<close>

definition interface_offload_print :: "'d env \<Rightarrow> interface_offload \<Rightarrow> string" where
  "interface_offload_print env ol =
     head_print env (of_name ol) (of_code ol) @
     ''      offload:'' @ eol @
     ''        rx-csum: '' @ print_tf (of_rx_csum ol) @ eol @
     ''        tx-csum: '' @ print_tf (of_tx_csum ol) @ eol @
     ''        sg: '' @ print_tf (of_sg ol) @ eol @
     ''        tso: '' @ print_tf (of_tso ol) @ eol @
     ''        ufo: '' @ print_tf (of_ufo ol) @ eol @
     ''        gso: '' @ print_tf (of_gso ol) @ eol @
     ''        gro: '' @ print_tf (of_gro ol) @ eol @
     ''        rx-hash: '' @ print_tf (if of_has_rxhash ol then of_rxhash ol else 0) @ eol"

definition interface_offload_list_print :: "'d env \<Rightarrow> answer \<Rightarrow> string option" where
  "interface_offload_list_print env ans =
     (case ans of Offload_List result \<Rightarrow> Some (list_print ''interfaces'' (interface_offload_print env) result) | _ \<Rightarrow> None)"

definition interface_settings_print :: "'d env \<Rightarrow> interface_settings \<Rightarrow> string" where
  "interface_settings_print env se =
     head_print env (se_name se) (se_code se) @
     ''      settings:'' @ eol @
     ''        speed: '' @ show_u (se_speed se) @ eol @
     ''        duplex: '' @ duplex2str (se_duplex se) @ eol @
     ''        autoneg: '' @ print_tf (bool32 (se_autoneg se)) @ eol @
     ''        mtu: '' @ show_u (se_mtu se) @ eol @
     ''        txqlen: '' @ show_u (se_tx_qlen se) @ eol @
     ''        port: '' @ port2str (ucast (se_port se)) @ eol @
     ''        max rx packet: '' @ show_u (se_maxrxpkt se) @ eol @
     ''        max tx packet: '' @ show_u (se_maxtxpkt se) @ eol"

definition interface_settings_list_print :: "'d env \<Rightarrow> answer \<Rightarrow> string option" where
  "interface_settings_list_print env ans =
     (case ans of Settings_List result \<Rightarrow> Some (list_print ''interfaces'' (interface_settings_print env) result) | _ \<Rightarrow> None)"

text \<open>A group \<^verbatim>\<open>{name: value, ...}\<close>.\<close>

definition group_print :: "(string \<times> string) list \<Rightarrow> string" where
  "group_print fs = ''{'' @ concat (map (\<lambda>(n, v). n @ '': '' @ v @ '', '') (butlast fs)) @
     fst (last fs) @ '': '' @ snd (last fs) @ ''}'' @ eol"

definition interface_coalesce_print :: "'d env \<Rightarrow> interface_coalesce \<Rightarrow> string" where
  "interface_coalesce_print env ic =
     head_print env (ic_name ic) (ic_code ic) @
     ''      coalesce:'' @ eol @
     ''        packet rate high: '' @ show_u (ic_pkt_rate_high ic) @ eol @
     ''        packet rate low: '' @ show_u (ic_pkt_rate_low ic) @ eol @
     ''        rate sample interval: '' @ show_u (ic_rate_sample_interval ic) @ eol @
     ''        stats block: '' @ show_u (ic_stats_block_coalesce_usecs ic) @ eol @
     ''        rx:'' @ eol @
     ''            adaptive: '' @ print_tf (ic_use_adaptive_rx_coalesce ic) @ eol @
     ''            usec: '' @ group_print [(''normal'', show_u (ic_rx_coalesce_usecs ic)), (''irq'', show_u (ic_rx_coalesce_usecs_irq ic)),
       (''high'', show_u (ic_rx_coalesce_usecs_high ic)), (''low'', show_u (ic_rx_coalesce_usecs_low ic))] @
     ''            max frame: '' @ group_print [(''normal'', show_u (ic_rx_max_coalesced_frames ic)), (''irq'', show_u (ic_rx_max_coalesced_frames_irq ic)),
       (''high'', show_u (ic_rx_max_coalesced_frames_high ic)), (''low'', show_u (ic_rx_max_coalesced_frames_low ic))] @
     ''        tx:'' @ eol @
     ''            adaptive: '' @ print_tf (ic_use_adaptive_tx_coalesce ic) @ eol @
     ''            usec: '' @ group_print [(''normal'', show_u (ic_tx_coalesce_usecs ic)), (''irq'', show_u (ic_tx_coalesce_usecs_irq ic)),
       (''high'', show_u (ic_tx_coalesce_usecs_high ic)), (''low'', show_u (ic_tx_coalesce_usecs_low ic))] @
     ''            max frame: '' @ group_print [(''normal'', show_u (ic_tx_max_coalesced_frames ic)), (''irq'', show_u (ic_tx_max_coalesced_frames_irq ic)),
       (''high'', show_u (ic_tx_max_coalesced_frames_high ic)), (''low'', show_u (ic_tx_max_coalesced_frames_low ic))]"

definition interface_coalesce_list_print :: "'d env \<Rightarrow> answer \<Rightarrow> string option" where
  "interface_coalesce_list_print env ans =
     (case ans of Coalesce_List result \<Rightarrow> Some (list_print ''interfaces'' (interface_coalesce_print env) result) | _ \<Rightarrow> None)"

definition interface_statistics_print :: "'d env \<Rightarrow> interface_statistics \<Rightarrow> string" where
  "interface_statistics_print env sx =
     head_print env (sx_name sx) (sx_code sx) @
     ''      statistics:'' @ eol @
     ''          rx: '' @ group_print [(''byte'', show_u (sx_rx_byte sx)), (''packet'', show_u (sx_rx_packet sx)), (''error'', show_u (sx_rx_error sx)),
       (''dropped'', show_u (sx_rx_dropped sx)), (''compressed'', show_u (sx_rx_compressed sx))] @
     ''          tx: '' @ group_print [(''byte'', show_u (sx_tx_byte sx)), (''packet'', show_u (sx_tx_packet sx)), (''error'', show_u (sx_tx_error sx)),
       (''dropped'', show_u (sx_tx_dropped sx)), (''compressed'', show_u (sx_tx_compressed sx))] @
     ''          rx error: '' @ group_print [(''fifo'', show_u (sx_rx_error_fifo sx)), (''frame'', show_u (sx_rx_error_frame sx)),
       (''crc'', show_u (sx_rx_error_crc sx)), (''length'', show_u (sx_rx_error_length sx)), (''missed'', show_u (sx_rx_error_missed sx)),
       (''overflow'', show_u (sx_rx_error_over sx))] @
     ''          tx error: '' @ group_print [(''fifo'', show_u (sx_tx_error_fifo sx)), (''carrier'', show_u (sx_tx_error_carrier sx)),
       (''heartbeat'', show_u (sx_tx_error_heartbeat sx)), (''window'', show_u (sx_tx_error_window sx)), (''aborted'', show_u (sx_tx_error_aborted sx))]"

definition interface_statistics_list_print :: "'d env \<Rightarrow> answer \<Rightarrow> string option" where
  "interface_statistics_list_print env ans =
     (case ans of Statistics_List result \<Rightarrow> Some (list_print ''interfaces'' (interface_statistics_print env) result) | _ \<Rightarrow> None)"

definition speed_print :: "speed_capabilities \<Rightarrow> string" where
  "speed_print sp =
     ''          speed:'' @ eol @
     ''            10:    {half: '' @ print_tf (dx_half (sp_ethernet sp)) @ '', full: '' @ print_tf (dx_full (sp_ethernet sp)) @ ''}'' @ eol @
     ''            100:   {half: '' @ print_tf (dx_half (sp_fast_ethernet sp)) @ '', full: '' @ print_tf (dx_full (sp_fast_ethernet sp)) @ ''}'' @ eol @
     ''            1000:  {half: '' @ print_tf (dx_half (sp_gbps_ethernet sp)) @ '', full: '' @ print_tf (dx_full (sp_gbps_ethernet sp)) @ ''}'' @ eol @
     ''            10000: {half: false, full: '' @ print_tf (dx_full (sp_10gbps_ethernet sp)) @ ''}'' @ eol"

definition option_print :: "option_capabilities \<Rightarrow> string" where
  "option_print op =
     ''          autoneg: '' @ print_tf (op_autoneg op) @ eol @
     ''          pause: '' @ print_tf (op_pause op) @ eol"

definition interface_capabilities_print :: "'d env \<Rightarrow> interface_capabilities \<Rightarrow> string" where
  "interface_capabilities_print env ca =
     head_print env (ca_name ca) (ca_code ca) @
     ''      capabilities:'' @ eol @
     ''        port: '' @ group_print [(port2str PORT_TP, print_tf (ca_tp ca)), (port2str PORT_AUI, print_tf (ca_aui ca)),
       (port2str PORT_MII, print_tf (ca_mii ca)), (port2str PORT_FIBRE, print_tf (ca_fibre ca)), (port2str PORT_BNC, print_tf (ca_bnc ca))] @
     ''        supported:'' @ eol @ option_print (ca_supported_opt ca) @ speed_print (ca_supported_speed ca) @
     ''        advertised:'' @ eol @ option_print (ca_advertising_opt ca) @ speed_print (ca_advertising_speed ca) @
     ''        link-partner advertised:'' @ eol @ option_print (ca_lp_advertising_opt ca) @ speed_print (ca_lp_advertising_speed ca)"

definition interface_capabilities_list_print :: "'d env \<Rightarrow> answer \<Rightarrow> string option" where
  "interface_capabilities_list_print env ans =
     (case ans of Capability_List result \<Rightarrow> Some (list_print ''interfaces'' (interface_capabilities_print env) result) | _ \<Rightarrow> None)"

definition rpc_interface_status_get :: "'d env \<Rightarrow> id_list cmd_args \<Rightarrow> 'd client \<Rightarrow> (int \<times> 'd client) option" where
  "rpc_interface_status_get env = interface_query env Status (interface_status_list_print env)"

definition rpc_interface_driver_get :: "'d env \<Rightarrow> id_list cmd_args \<Rightarrow> 'd client \<Rightarrow> (int \<times> 'd client) option" where
  "rpc_interface_driver_get env = interface_query env Driver (interface_driver_list_print env)"

definition rpc_interface_pause_get :: "'d env \<Rightarrow> id_list cmd_args \<Rightarrow> 'd client \<Rightarrow> (int \<times> 'd client) option" where
  "rpc_interface_pause_get env = interface_query env Pauses (interface_pause_list_print env)"

definition rpc_interface_offload_get :: "'d env \<Rightarrow> id_list cmd_args \<Rightarrow> 'd client \<Rightarrow> (int \<times> 'd client) option" where
  "rpc_interface_offload_get env = interface_query env Offload (interface_offload_list_print env)"

definition rpc_interface_settings_get :: "'d env \<Rightarrow> id_list cmd_args \<Rightarrow> 'd client \<Rightarrow> (int \<times> 'd client) option" where
  "rpc_interface_settings_get env = interface_query env Settings (interface_settings_list_print env)"

definition rpc_interface_coalesce_get :: "'d env \<Rightarrow> id_list cmd_args \<Rightarrow> 'd client \<Rightarrow> (int \<times> 'd client) option" where
  "rpc_interface_coalesce_get env = interface_query env Coalescing (interface_coalesce_list_print env)"

definition rpc_interface_capabilities_get :: "'d env \<Rightarrow> id_list cmd_args \<Rightarrow> 'd client \<Rightarrow> (int \<times> 'd client) option" where
  "rpc_interface_capabilities_get env = interface_query env Capabilities (interface_capabilities_list_print env)"

definition rpc_interface_statistics_get :: "'d env \<Rightarrow> id_list cmd_args \<Rightarrow> 'd client \<Rightarrow> (int \<times> 'd client) option" where
  "rpc_interface_statistics_get env = interface_query env Statistics (interface_statistics_list_print env)"

section \<open>Changes\<close>

text \<open>A branch that stores a boolean, and one that stores a number as \<^verbatim>\<open>uint32_t\<close>.\<close>

definition opt_bool :: "(u32 \<Rightarrow> 'm \<Rightarrow> 'm) \<Rightarrow> string \<Rightarrow> ('m \<times> nat option) branch" where
  "opt_bool upd optarg a s =
     (let (rc, v) = str2bool optarg 0
      in Some (if rc \<noteq> 0 then Out rc a else Next (a\<lparr>a_msg := apfst (upd v) (a_msg a)\<rparr>), s))"

definition opt_u32 :: "(u32 \<Rightarrow> 'm \<Rightarrow> 'm) \<Rightarrow> string \<Rightarrow> ('m \<times> nat option) branch" where
  "opt_u32 upd = store (\<lambda>v. apfst (upd (ucast (strtoull v))))"

text \<open>The end of a change: the identifier is released unless it could not be allocated.\<close>

definition modify ::
  "'d env \<Rightarrow> ('m \<times> nat option) branch opt list \<Rightarrow> 'm \<Rightarrow> (('m \<times> nat option) cmd_args \<Rightarrow> 'd client \<Rightarrow> (int \<times> 'd client) option) \<Rightarrow> string list \<Rightarrow>
   'd client \<Rightarrow> 'd result" where
  "modify env opts init rpc argv c =
     do {
       (v, c1) \<leftarrow> parse_options opts (init, None) argv c;
       (rc, c2) \<leftarrow> finish env rpc (v, c1);
       let cleanup = (\<lambda>a. do { s \<leftarrow> free (snd (a_msg a)) (c_os c2); Some (Ret rc, c2\<lparr>c_os := s\<rparr>) });
       case v of Next a \<Rightarrow> cleanup a | Usage a \<Rightarrow> cleanup a | Out _ a \<Rightarrow> cleanup a | Return _ \<Rightarrow> Some (Ret rc, c2)
     }"

definition modify_call :: "'d env \<Rightarrow> ('m \<Rightarrow> call) \<Rightarrow> ('m \<times> nat option) cmd_args \<Rightarrow> 'd client \<Rightarrow> (int \<times> 'd client) option" where
  "modify_call env q a =
     (let m = q (fst (a_msg a))
      in rpc_invoke env (a_type a) (a_name a) (if snd (a_msg a) = None then No_Id m else m) (rpc_error_code_print env))"

definition rpc_interface_status_modify :: "'d env \<Rightarrow> (status_request \<times> nat option) cmd_args \<Rightarrow> 'd client \<Rightarrow> (int \<times> 'd client) option" where
  "rpc_interface_status_modify env = modify_call env Status_Modify"

definition status_modify_option :: "(status_request \<times> nat option) branch opt list" where
  "status_modify_option =
     [Required_Argument ''id'' (opt_id (\<lambda>v m. m\<lparr>sq_name := v\<rparr>)),
      Required_Argument ''promiscuous'' (opt_bool (\<lambda>v m. m\<lparr>sq_promiscuous := Some (v \<noteq> 0)\<rparr>)),
      Required_Argument ''up'' (opt_bool (\<lambda>v m. m\<lparr>sq_up := Some (v \<noteq> 0)\<rparr>))] @ server_options"

definition cmd_interface_status_modify :: "'d env \<Rightarrow> 'd command" where
  "cmd_interface_status_modify env argc argv c =
     modify env status_modify_option \<lparr>sq_name = [], sq_up = None, sq_promiscuous = None\<rparr> (rpc_interface_status_modify env) argv c"

definition rpc_interface_pause_modify :: "'d env \<Rightarrow> (pause_request \<times> nat option) cmd_args \<Rightarrow> 'd client \<Rightarrow> (int \<times> 'd client) option" where
  "rpc_interface_pause_modify env = modify_call env Pause_Modify"

definition pause_modify_option :: "(pause_request \<times> nat option) branch opt list" where
  "pause_modify_option =
     [Required_Argument ''id'' (opt_id (\<lambda>v m. m\<lparr>pq_name := v\<rparr>)),
      Required_Argument ''rx'' (opt_bool (\<lambda>v m. m\<lparr>pq_rx_pause := Some v\<rparr>)),
      Required_Argument ''tx'' (opt_bool (\<lambda>v m. m\<lparr>pq_tx_pause := Some v\<rparr>)),
      Required_Argument ''autoneg'' (opt_bool (\<lambda>v m. m\<lparr>pq_autoneg := Some v\<rparr>))] @ server_options"

definition cmd_interface_pause_modify :: "'d env \<Rightarrow> 'd command" where
  "cmd_interface_pause_modify env argc argv c =
     modify env pause_modify_option \<lparr>pq_name = [], pq_autoneg = None, pq_rx_pause = None, pq_tx_pause = None\<rparr>
       (rpc_interface_pause_modify env) argv c"

definition rpc_interface_offload_modify :: "'d env \<Rightarrow> (offload_request \<times> nat option) cmd_args \<Rightarrow> 'd client \<Rightarrow> (int \<times> 'd client) option" where
  "rpc_interface_offload_modify env = modify_call env Offload_Modify"

definition offload_modify_option :: "(offload_request \<times> nat option) branch opt list" where
  "offload_modify_option =
     [Required_Argument ''rx-csum'' (opt_bool (\<lambda>v m. m\<lparr>oq_rx_csum := Some v\<rparr>)),
      Required_Argument ''tx-csum'' (opt_bool (\<lambda>v m. m\<lparr>oq_tx_csum := Some v\<rparr>)),
      Required_Argument ''sg'' (opt_bool (\<lambda>v m. m\<lparr>oq_sg := Some v\<rparr>)),
      Required_Argument ''tso'' (opt_bool (\<lambda>v m. m\<lparr>oq_tso := Some v\<rparr>)),
      Required_Argument ''ufo'' (opt_bool (\<lambda>v m. m\<lparr>oq_ufo := Some v\<rparr>)),
      Required_Argument ''gso'' (opt_bool (\<lambda>v m. m\<lparr>oq_gso := Some v\<rparr>)),
      Required_Argument ''gro'' (opt_bool (\<lambda>v m. m\<lparr>oq_gro := Some v\<rparr>)),
      Required_Argument ''lro'' (opt_bool (\<lambda>v m. m\<lparr>oq_lro := Some v\<rparr>)),
      Required_Argument ''rx-hash'' (opt_bool (\<lambda>v m. m\<lparr>oq_rxhash := Some v\<rparr>)),
      Required_Argument ''id'' (opt_id (\<lambda>v m. m\<lparr>oq_name := v\<rparr>))] @ server_options"

definition cmd_interface_offload_modify :: "'d env \<Rightarrow> 'd command" where
  "cmd_interface_offload_modify env argc argv c =
     modify env offload_modify_option
       \<lparr>oq_name = [], oq_rx_csum = None, oq_tx_csum = None, oq_sg = None, oq_tso = None, oq_ufo = None, oq_gso = None, oq_gro = None,
        oq_lro = None, oq_rxhash = None\<rparr> (rpc_interface_offload_modify env) argv c"

definition rpc_interface_settings_modify :: "'d env \<Rightarrow> (settings_request \<times> nat option) cmd_args \<Rightarrow> 'd client \<Rightarrow> (int \<times> 'd client) option" where
  "rpc_interface_settings_modify env = modify_call env Settings_Modify"

text \<open>Branches that store a converted name, and leave when it is not known.\<close>

definition opt_conv :: "(string \<Rightarrow> int \<times> u32) \<Rightarrow> (u32 \<Rightarrow> 'm \<Rightarrow> 'm) \<Rightarrow> string \<Rightarrow> ('m \<times> nat option) branch" where
  "opt_conv conv upd optarg a s =
     (let (rc, v) = conv optarg
      in Some (if rc \<noteq> 0 then Out rc a else Next (a\<lparr>a_msg := apfst (upd v) (a_msg a)\<rparr>), s))"

definition settings_modify_option :: "(settings_request \<times> nat option) branch opt list" where
  "settings_modify_option =
     [Required_Argument ''speed'' (opt_conv str2speed (\<lambda>v m. m\<lparr>tq_speed := Some v\<rparr>)),
      Required_Argument ''duplex'' (opt_conv str2duplex (\<lambda>v m. m\<lparr>tq_duplex := Some v\<rparr>)),
      Required_Argument ''autoneg'' (opt_bool (\<lambda>v m. m\<lparr>tq_autoneg := Some v\<rparr>)),
      Required_Argument ''mtu'' (opt_u32 (\<lambda>v m. m\<lparr>tq_mtu := Some v\<rparr>)),
      Required_Argument ''txqlen'' (opt_u32 (\<lambda>v m. m\<lparr>tq_tx_qlen := Some v\<rparr>)),
      Required_Argument ''id'' (opt_id (\<lambda>v m. m\<lparr>tq_name := v\<rparr>))] @ server_options"

definition cmd_interface_settings_modify :: "'d env \<Rightarrow> 'd command" where
  "cmd_interface_settings_modify env argc argv c =
     modify env settings_modify_option
       \<lparr>tq_name = [], tq_speed = None, tq_duplex = None, tq_autoneg = None, tq_mtu = None, tq_tx_qlen = None, tq_port = None,
        tq_maxrxpkt = None, tq_maxtxpkt = None\<rparr> (rpc_interface_settings_modify env) argv c"

definition rpc_interface_coalesce_modify :: "'d env \<Rightarrow> (coalesce_request \<times> nat option) cmd_args \<Rightarrow> 'd client \<Rightarrow> (int \<times> 'd client) option" where
  "rpc_interface_coalesce_modify env = modify_call env Coalesce_Modify"

text \<open>The option \<^verbatim>\<open>--stats-block-usecs\<close> has no branch of its own: it shows the usage.\<close>

definition coalesce_modify_option :: "(coalesce_request \<times> nat option) branch opt list" where
  "coalesce_modify_option =
     [Required_Argument ''adaptive-rx'' (opt_bool (\<lambda>v m. m\<lparr>cq_use_adaptive_rx_coalesce := Some v\<rparr>)),
      Required_Argument ''adaptive-tx'' (opt_bool (\<lambda>v m. m\<lparr>cq_use_adaptive_tx_coalesce := Some v\<rparr>)),
      Required_Argument ''rx-usecs'' (opt_u32 (\<lambda>v m. m\<lparr>cq_rx_coalesce_usecs := Some v\<rparr>)),
      Required_Argument ''rx-usecs-irq'' (opt_u32 (\<lambda>v m. m\<lparr>cq_rx_coalesce_usecs_irq := Some v\<rparr>)),
      Required_Argument ''rx-usecs-low'' (opt_u32 (\<lambda>v m. m\<lparr>cq_rx_coalesce_usecs_low := Some v\<rparr>)),
      Required_Argument ''rx-usecs-high'' (opt_u32 (\<lambda>v m. m\<lparr>cq_rx_coalesce_usecs_high := Some v\<rparr>)),
      Required_Argument ''rx-frames'' (opt_u32 (\<lambda>v m. m\<lparr>cq_rx_max_coalesced_frames := Some v\<rparr>)),
      Required_Argument ''rx-frames-irq'' (opt_u32 (\<lambda>v m. m\<lparr>cq_rx_max_coalesced_frames_irq := Some v\<rparr>)),
      Required_Argument ''rx-frames-low'' (opt_u32 (\<lambda>v m. m\<lparr>cq_rx_max_coalesced_frames_low := Some v\<rparr>)),
      Required_Argument ''rx-frames-high'' (opt_u32 (\<lambda>v m. m\<lparr>cq_rx_max_coalesced_frames_high := Some v\<rparr>)),
      Required_Argument ''tx-usecs'' (opt_u32 (\<lambda>v m. m\<lparr>cq_tx_coalesce_usecs := Some v\<rparr>)),
      Required_Argument ''tx-usecs-irq'' (opt_u32 (\<lambda>v m. m\<lparr>cq_tx_coalesce_usecs_irq := Some v\<rparr>)),
      Required_Argument ''tx-usecs-low'' (opt_u32 (\<lambda>v m. m\<lparr>cq_tx_coalesce_usecs_low := Some v\<rparr>)),
      Required_Argument ''tx-usecs-high'' (opt_u32 (\<lambda>v m. m\<lparr>cq_tx_coalesce_usecs_high := Some v\<rparr>)),
      Required_Argument ''tx-frames'' (opt_u32 (\<lambda>v m. m\<lparr>cq_tx_max_coalesced_frames := Some v\<rparr>)),
      Required_Argument ''tx-frames-irq'' (opt_u32 (\<lambda>v m. m\<lparr>cq_tx_max_coalesced_frames_irq := Some v\<rparr>)),
      Required_Argument ''tx-frames-low'' (opt_u32 (\<lambda>v m. m\<lparr>cq_tx_max_coalesced_frames_low := Some v\<rparr>)),
      Required_Argument ''tx-frames-high'' (opt_u32 (\<lambda>v m. m\<lparr>cq_tx_max_coalesced_frames_high := Some v\<rparr>)),
      Required_Argument ''pkt-rate-low'' (opt_u32 (\<lambda>v m. m\<lparr>cq_pkt_rate_low := Some v\<rparr>)),
      Required_Argument ''pkt-rate-high'' (opt_u32 (\<lambda>v m. m\<lparr>cq_pkt_rate_high := Some v\<rparr>)),
      Required_Argument ''stats-block-usecs'' (\<lambda>v. opt_help),
      Required_Argument ''sample-interval'' (opt_u32 (\<lambda>v m. m\<lparr>cq_rate_sample_interval := Some v\<rparr>)),
      Required_Argument ''id'' (opt_id (\<lambda>v m. m\<lparr>cq_name := v\<rparr>))] @ server_options"

definition coalesce_modify_init :: coalesce_request where
  "coalesce_modify_init = \<lparr>cq_name = [], cq_pkt_rate_high = None, cq_pkt_rate_low = None, cq_rate_sample_interval = None,
     cq_stats_block_coalesce_usecs = None, cq_use_adaptive_rx_coalesce = None, cq_rx_coalesce_usecs = None,
     cq_rx_coalesce_usecs_irq = None, cq_rx_coalesce_usecs_high = None, cq_rx_coalesce_usecs_low = None,
     cq_rx_max_coalesced_frames = None, cq_rx_max_coalesced_frames_irq = None, cq_rx_max_coalesced_frames_high = None,
     cq_rx_max_coalesced_frames_low = None, cq_use_adaptive_tx_coalesce = None, cq_tx_coalesce_usecs = None,
     cq_tx_coalesce_usecs_irq = None, cq_tx_coalesce_usecs_high = None, cq_tx_coalesce_usecs_low = None,
     cq_tx_max_coalesced_frames = None, cq_tx_max_coalesced_frames_irq = None, cq_tx_max_coalesced_frames_high = None,
     cq_tx_max_coalesced_frames_low = None\<rparr>"

definition cmd_interface_coalesce_modify :: "'d env \<Rightarrow> 'd command" where
  "cmd_interface_coalesce_modify env argc argv c =
     modify env coalesce_modify_option coalesce_modify_init (rpc_interface_coalesce_modify env) argv c"

text \<open>
  The advertised capabilities are gathered beside the message: one speed, the duplex modes and options. The message refers to
  them when all options have been read.
\<close>

record capability_args =
  k_req :: capabilities_request
  k_speed :: u32
  k_duplex :: duplex_request
  k_option :: option_request

definition capability_request :: "capability_args \<Rightarrow> capabilities_request" where
  "capability_request ka =
     (let d = Some (k_duplex ka);
          none = \<lparr>vq_ethernet = None, vq_fast_ethernet = None, vq_gbps_ethernet = None, vq_10gbps_ethernet = None\<rparr>;
          speed_cap = (if k_speed ka = SPEED_10 then none\<lparr>vq_ethernet := d\<rparr>
            else if k_speed ka = SPEED_100 then none\<lparr>vq_fast_ethernet := d\<rparr>
            else if k_speed ka = SPEED_1000 then none\<lparr>vq_gbps_ethernet := d\<rparr>
            else if k_speed ka = SPEED_10000 then none\<lparr>vq_10gbps_ethernet := d\<rparr>
            else none)
      in (k_req ka)\<lparr>kq_advertising_speed := Some speed_cap, kq_advertising_opt := Some (k_option ka)\<rparr>)"

definition rpc_interface_capabilities_modify :: "'d env \<Rightarrow> (capability_args \<times> nat option) cmd_args \<Rightarrow> 'd client \<Rightarrow> (int \<times> 'd client) option" where
  "rpc_interface_capabilities_modify env = modify_call env (Capabilities_Modify \<circ> capability_request)"

definition on_req :: "(capabilities_request \<Rightarrow> capabilities_request) \<Rightarrow> capability_args \<Rightarrow> capability_args" where
  "on_req f ka = ka\<lparr>k_req := f (k_req ka)\<rparr>"

definition capabilities_modify_option :: "(capability_args \<times> nat option) branch opt list" where
  "capabilities_modify_option =
     [Required_Argument (port2str PORT_AUI) (opt_bool (\<lambda>v. on_req (\<lambda>m. m\<lparr>kq_aui := Some v\<rparr>))),
      Required_Argument (port2str PORT_BNC) (opt_bool (\<lambda>v. on_req (\<lambda>m. m\<lparr>kq_bnc := Some v\<rparr>))),
      Required_Argument (port2str PORT_FIBRE) (opt_bool (\<lambda>v. on_req (\<lambda>m. m\<lparr>kq_fibre := Some v\<rparr>))),
      Required_Argument (port2str PORT_MII) (opt_bool (\<lambda>v. on_req (\<lambda>m. m\<lparr>kq_mii := Some v\<rparr>))),
      Required_Argument (port2str PORT_TP) (opt_bool (\<lambda>v. on_req (\<lambda>m. m\<lparr>kq_tp := Some v\<rparr>))),
      Required_Argument ''speed'' (opt_conv str2speed (\<lambda>v ka. ka\<lparr>k_speed := v\<rparr>)),
      Required_Argument ''half-duplex'' (opt_bool (\<lambda>v ka. ka\<lparr>k_duplex := (k_duplex ka)\<lparr>dq_half := Some v\<rparr>\<rparr>)),
      Required_Argument ''full-duplex'' (opt_bool (\<lambda>v ka. ka\<lparr>k_duplex := (k_duplex ka)\<lparr>dq_full := Some v\<rparr>\<rparr>)),
      Required_Argument ''autoneg'' (opt_bool (\<lambda>v ka. ka\<lparr>k_option := (k_option ka)\<lparr>aq_autoneg := Some v\<rparr>\<rparr>)),
      Required_Argument ''pause'' (opt_bool (\<lambda>v ka. ka\<lparr>k_option := (k_option ka)\<lparr>aq_pause := Some v\<rparr>\<rparr>)),
      Required_Argument ''id'' (opt_id (\<lambda>v. on_req (\<lambda>m. m\<lparr>kq_name := v\<rparr>)))] @ server_options"

definition capability_init :: capability_args where
  "capability_init =
     \<lparr>k_req = \<lparr>kq_name = [], kq_tp = None, kq_aui = None, kq_mii = None, kq_fibre = None, kq_bnc = None, kq_advertising_opt = None,
        kq_advertising_speed = None\<rparr>,
      k_speed = 0, k_duplex = \<lparr>dq_half = None, dq_full = None\<rparr>, k_option = \<lparr>aq_autoneg = None, aq_pause = None\<rparr>\<rparr>"

definition cmd_interface_capabilities_modify :: "'d env \<Rightarrow> 'd command" where
  "cmd_interface_capabilities_modify env argc argv c =
     modify env capabilities_modify_option capability_init (rpc_interface_capabilities_modify env) argv c"

section \<open>Tables\<close>

definition cmd_interface_capabilities :: "'d env \<Rightarrow> 'd command" where
  "cmd_interface_capabilities env = cmd_run_action env
     [(''get'', rpc_interface_get env (rpc_interface_capabilities_get env)), (''modify'', cmd_interface_capabilities_modify env)]"

definition cmd_interface_coalesce :: "'d env \<Rightarrow> 'd command" where
  "cmd_interface_coalesce env = cmd_run_action env
     [(''get'', rpc_interface_get env (rpc_interface_coalesce_get env)), (''modify'', cmd_interface_coalesce_modify env)]"

definition cmd_interface_driver :: "'d env \<Rightarrow> 'd command" where
  "cmd_interface_driver env = cmd_run_action env [(''get'', rpc_interface_get env (rpc_interface_driver_get env))]"

definition cmd_interface_offload :: "'d env \<Rightarrow> 'd command" where
  "cmd_interface_offload env = cmd_run_action env
     [(''get'', rpc_interface_get env (rpc_interface_offload_get env)), (''modify'', cmd_interface_offload_modify env)]"

definition cmd_interface_pause :: "'d env \<Rightarrow> 'd command" where
  "cmd_interface_pause env = cmd_run_action env
     [(''get'', rpc_interface_get env (rpc_interface_pause_get env)), (''modify'', cmd_interface_pause_modify env)]"

definition cmd_interface_settings :: "'d env \<Rightarrow> 'd command" where
  "cmd_interface_settings env = cmd_run_action env
     [(''get'', rpc_interface_get env (rpc_interface_settings_get env)), (''modify'', cmd_interface_settings_modify env)]"

definition cmd_interface_statistics :: "'d env \<Rightarrow> 'd command" where
  "cmd_interface_statistics env = cmd_run_action env [(''get'', rpc_interface_get env (rpc_interface_statistics_get env))]"

definition cmd_interface_status :: "'d env \<Rightarrow> 'd command" where
  "cmd_interface_status env = cmd_run_action env
     [(''get'', rpc_interface_get env (rpc_interface_status_get env)), (''modify'', cmd_interface_status_modify env)]"

definition cmd_interface :: "'d env \<Rightarrow> 'd command" where
  "cmd_interface env = cmd_run_command env
     [(''capabilities'', cmd_interface_capabilities env), (''coalesce'', cmd_interface_coalesce env), (''driver'', cmd_interface_driver env),
      (''offload'', cmd_interface_offload env), (''pause'', cmd_interface_pause env), (''settings'', cmd_interface_settings env),
      (''statistics'', cmd_interface_statistics env), (''status'', cmd_interface_status env)]"

text \<open>The entry point, with the arguments behind the name of the program.\<close>

definition commands :: "'d env \<Rightarrow> (string \<times> 'd command) list" where
  "commands env =
     [(''interface'', cmd_interface env), (''thread'', cmd_thread env), (''capture'', cmd_capture env), (''replay'', cmd_replay env),
      (''version'', cmd_version env), (''help'', cmd_help env)]"

definition dabba_main :: "'d env \<Rightarrow> string list \<Rightarrow> 'd client \<Rightarrow> 'd result" where
  "dabba_main env argv c = cmd_run_command env (commands env) (int (length argv)) argv c"

end
