(* ===== verification/Remote.thy ===== *)
theory Remote
  imports Client_Interface
begin

text \<open>
  The client and the daemon together. \<open>serve\<close> is the service of \<^verbatim>\<open>src/libdabba-rpc/dabba.proto\<close> as the daemon registers it
  (\<^verbatim>\<open>src/dabbad/rpc.c\<close>): every call goes to its procedure, on the state of the daemon. What the library does with a message whose
  required identifier is missing is a parameter. The lemmas follow a command line through option
  parsing, call, procedure and printing.
\<close>

section \<open>The service\<close>

primrec reply_answer :: "reply \<Rightarrow> answer" where
  "reply_answer (Code rc) = Error_Code (Some rc)"
| "reply_answer (Capture_List l) = Captures l"
| "reply_answer (Replay_List l) = Replays l"
| "reply_answer (Thread_List l) = Threads l"
| "reply_answer (Capabilities_List l) = Thread_Capabilities l"

text \<open>A procedure that works on the system only.\<close>

definition on_os :: "('r \<Rightarrow> answer) \<Rightarrow> ('r \<times> os) option \<Rightarrow> daemon \<Rightarrow> (answer \<times> daemon) option" where
  "on_os f r d = map_option (\<lambda>(x, s). (f x, d\<lparr>d_os := s\<rparr>)) r"

abbreviation error_code :: "int \<Rightarrow> answer" where "error_code rc \<equiv> Error_Code (Some rc)"

definition interface_get :: "netlink \<Rightarrow> interface_part \<Rightarrow> string list \<Rightarrow> daemon \<Rightarrow> (answer \<times> daemon) option" where
  "interface_get nl part names d =
     (case part of
        Status \<Rightarrow> on_os Status_List (dabbad_interface_status_get nl names (d_os d)) d
      | Driver \<Rightarrow> on_os Driver_List (dabbad_interface_driver_get nl names (d_os d)) d
      | Pauses \<Rightarrow> on_os Pause_List (dabbad_interface_pause_get nl names (d_os d)) d
      | Offload \<Rightarrow> on_os Offload_List (dabbad_interface_offload_get nl names (d_os d)) d
      | Settings \<Rightarrow> on_os Settings_List (dabbad_interface_settings_get nl names (d_os d)) d
      | Coalescing \<Rightarrow> on_os Coalesce_List (dabbad_interface_coalesce_get nl names (d_os d)) d
      | Capabilities \<Rightarrow> on_os Capability_List (dabbad_interface_capabilities_get nl names (d_os d)) d
      | Statistics \<Rightarrow> on_os Statistics_List (dabbad_interface_statistics_get nl names (d_os d)) d)"

fun serve :: "netlink \<Rightarrow> (call \<Rightarrow> daemon \<Rightarrow> (answer \<times> daemon) option) \<Rightarrow> call \<Rightarrow> daemon \<Rightarrow> (answer \<times> daemon) option" where
  "serve nl bad (Session q) d = map_option (\<lambda>(r, d). (reply_answer r, d)) (dispatch q d)"
| "serve nl bad (Interface_Get part names) d = interface_get nl part names d"
| "serve nl bad (Status_Modify m) d = on_os error_code (dabbad_interface_status_modify nl m (d_os d)) d"
| "serve nl bad (Pause_Modify m) d = on_os error_code (Some (dabbad_interface_pause_modify m (d_os d))) d"
| "serve nl bad (Offload_Modify m) d = on_os error_code (dabbad_interface_offload_modify nl m (d_os d)) d"
| "serve nl bad (Settings_Modify m) d = on_os error_code (dabbad_interface_settings_modify nl m (d_os d)) d"
| "serve nl bad (Coalesce_Modify m) d = on_os error_code (Some (dabbad_interface_coalesce_modify m (d_os d))) d"
| "serve nl bad (Capabilities_Modify m) d = on_os error_code (dabbad_interface_capabilities_modify nl m (d_os d)) d"
| "serve nl bad (No_Id q) d = bad (No_Id q) d"

section \<open>Calls and steps of the daemon\<close>

lemmas get_defs = dabbad_interface_status_get_def interface_status_cb_def dabbad_interface_driver_get_def interface_driver_cb_def
  dabbad_interface_pause_get_def interface_pause_cb_def dabbad_interface_offload_get_def interface_offload_cb_def
  dabbad_interface_settings_get_def interface_settings_cb_def dabbad_interface_coalesce_get_def interface_coalesce_cb_def
  dabbad_interface_statistics_get_def interface_statistics_cb_def

lemma get_back:
  assumes wf: "heap_wf s"
  shows "dabbad_interface_status_get nl names s = Some (r1, s') \<Longrightarrow> gives_back s s'"
    "dabbad_interface_driver_get nl names s = Some (r2, s') \<Longrightarrow> gives_back s s'"
    "dabbad_interface_pause_get nl names s = Some (r3, s') \<Longrightarrow> gives_back s s'"
    "dabbad_interface_offload_get nl names s = Some (r4, s') \<Longrightarrow> gives_back s s'"
    "dabbad_interface_settings_get nl names s = Some (r5, s') \<Longrightarrow> gives_back s s'"
    "dabbad_interface_coalesce_get nl names s = Some (r6, s') \<Longrightarrow> gives_back s s'"
    "dabbad_interface_statistics_get nl names s = Some (r7, s') \<Longrightarrow> gives_back s s'"
  unfolding get_defs gives_back_def
  by (rule status_r.given_back [OF wf] driver_r.given_back [OF wf] pause_r.given_back [OF wf] offload_r.given_back [OF wf]
      settings_r.given_back [OF wf] coalesce_r.given_back [OF wf] statistics_r.given_back [OF wf], assumption)+

text \<open>A call that is no call on sessions leaves the sessions alone.\<close>

lemma on_os_quiet:
  assumes "on_os f r d = Some (a, d')" and "\<And>x s. r = Some (x, s) \<Longrightarrow> gives_back (d_os d) s"
  shows "\<exists>s. d' = d\<lparr>d_os := s\<rparr> \<and> gives_back (d_os d) s"
  using assms by (auto simp: on_os_def)

lemma interface_get_quiet:
  assumes wf: "heap_wf (d_os d)" and "interface_get nl part names d = Some (a, d')"
  shows "\<exists>s. d' = d\<lparr>d_os := s\<rparr> \<and> gives_back (d_os d) s"
  using assms(2) unfolding interface_get_def
  by (cases part) (auto elim!: on_os_quiet intro: capabilities_get_back [OF wf] get_back [OF wf])

lemma serve_quiet:
  assumes "heap_wf (d_os d)" and "serve nl bad q d = Some (a, d')" and "\<not> (\<exists>r. q = Session r)" and "\<not> (\<exists>r. q = No_Id r)"
  shows "\<exists>s. d' = d\<lparr>d_os := s\<rparr> \<and> gives_back (d_os d) s"
proof (cases q)
  case (Interface_Get part names)
  with assms(2) interface_get_quiet [OF assms(1)] show ?thesis by simp
next
  case (Pause_Modify m)
  with assms(2) pause_coalesce_modify_back(1) [of "d_os d" m] show ?thesis by (auto elim!: on_os_quiet)
next
  case (Coalesce_Modify m)
  with assms(2) pause_coalesce_modify_back(2) [of "d_os d" m] show ?thesis by (auto elim!: on_os_quiet)
qed (use assms(2-4) in \<open>auto elim!: on_os_quiet dest: status_modify_back offload_modify_back settings_modify_back capabilities_modify_back\<close>)

text \<open>Every answer of the service is a step of the daemon.\<close>

lemma serve_reach:
  assumes "idle s" and "daemon_reach s d" and "serve nl bad q d = Some (a, d')" and "\<not> (\<exists>r. q = No_Id r)"
  shows "daemon_reach s d'"
proof (cases "\<exists>r. q = Session r")
  case True
  with assms(3) obtain r x where "dispatch r d = Some (x, d')" by auto
  then show ?thesis by (rule daemon_reach.step [OF assms(2) daemon_step.rpc])
next
  case False
  with serve_quiet [OF inv_lengths(2) [OF reach_inv [OF assms(2,1)]] assms(3) _ assms(4)] obtain u where
    "d' = d\<lparr>d_os := u\<rparr>" "acq (d_os d) [] u" by (auto simp: gives_back_def)
  then show ?thesis using daemon_reach.step [OF assms(2) daemon_step.other] by simp
qed

section \<open>Names\<close>

text \<open>
  What the client prints it also reads: the names of duplex modes and of scheduling policies, truth
  values and the supported speeds, as they appear in its output, are accepted by the options that set them and give back the value.
\<close>

lemma cli_names_roundtrip:
  "list_all (\<lambda>d. str2duplex (duplex2str d) = (0, d)) [DUPLEX_HALF, DUPLEX_FULL] \<and>
   list_all (\<lambda>p. str2sched_policy (sched_policy2str (int p)) = of_nat p) [0..<3] \<and>
   str2bool (print_tf v) w = (0, if v = 0 then 0 else 1) \<and>
   list_all (\<lambda>sp. str2speed (show_u sp) = (0, sp)) [SPEED_10, SPEED_100, SPEED_1000, SPEED_2500, SPEED_10000]"
proof -
  have "list_all (\<lambda>sp. str2speed (show_u sp) = (0, sp)) [SPEED_10, SPEED_100, SPEED_1000, SPEED_2500, SPEED_10000]"
    by (simp add: str2speed_def show_u_def SPEED_10_def SPEED_100_def SPEED_1000_def SPEED_2500_def SPEED_10000_def show_nat.simps digit_def char_of_def bit_0)
  moreover have "list_all (\<lambda>d. str2duplex (duplex2str d) = (0, d)) [DUPLEX_HALF, DUPLEX_FULL]"
    by (simp add: str2duplex_def duplex2str_def DUPLEX_HALF_def DUPLEX_FULL_def)
  moreover have "list_all (\<lambda>p. str2sched_policy (sched_policy2str (int p)) = of_nat p) [0..<3]"
    by (simp add: upt_rec str2sched_policy_def sched_policy2str_def sched_policy_def)
  moreover have "str2bool (print_tf v) w = (0, if v = 0 then 0 else 1)"
    by (simp add: str2bool_def print_tf_def strcasecmp_eq_def to_lower_def)
  ultimately show ?thesis by blast
qed

section \<open>A capture from the command line\<close>

definition capture_setting :: "string \<times> string \<Rightarrow> capture_request \<Rightarrow> capture_request" where
  "capture_setting kv m =
     (case kv of (n, v) \<Rightarrow>
        if n = ''interface'' then m\<lparr>cr_interface := Some v\<rparr>
        else if n = ''pcap'' then m\<lparr>cr_pcap := Some v\<rparr>
        else if n = ''frame-number'' then m\<lparr>cr_frame_nr := strtoull v\<rparr>
        else m\<lparr>cr_frame_size := strtoull v\<rparr>)"

definition long_options :: "(string \<times> string) list \<Rightarrow> string list" where
  "long_options kvs = concat (map (\<lambda>(n, v). [''--'' @ n, v]) kvs)"

abbreviation capture_names :: "string set" where
  "capture_names \<equiv> {''interface'', ''pcap'', ''frame-number'', ''frame-size''}"

lemma capture_setting_simps:
  "capture_setting (''interface'', v) = (\<lambda>m. m\<lparr>cr_interface := Some v\<rparr>)"
  "capture_setting (''pcap'', v) = (\<lambda>m. m\<lparr>cr_pcap := Some v\<rparr>)"
  "capture_setting (''frame-number'', v) = (\<lambda>m. m\<lparr>cr_frame_nr := strtoull v\<rparr>)"
  "capture_setting (''frame-size'', v) = (\<lambda>m. m\<lparr>cr_frame_size := strtoull v\<rparr>)"
  by (simp_all add: capture_setting_def fun_eq_iff)

lemma find_capture_option:
  assumes "n \<in> capture_names"
  shows "find_option capture_start_option n = Some (Required_Argument n (store (\<lambda>v. apfst (capture_setting (n, v)))))"
proof -
  from assms consider "n = ''interface''" | "n = ''pcap''" | "n = ''frame-number''" | "n = ''frame-size''" by auto
  then show ?thesis by cases (simp_all add: find_option_def capture_start_option_def capture_setting_simps)
qed

lemma getopt_capture:
  assumes "fst ` set kvs \<subseteq> capture_names"
  shows "getopt_long_only capture_start_option (long_options kvs) =
    map (\<lambda>(n, v). Some (store (\<lambda>v. apfst (capture_setting (n, v))) v)) kvs"
  using assms
proof (induction kvs)
  case Nil
  then show ?case by (simp add: long_options_def)
next
  case (Cons kv kvs)
  obtain n v where kv: "kv = (n, v)" by force
  with Cons.prems have n: "n \<in> capture_names" by auto
  then have "n \<noteq> []" "CHR ''='' \<notin> set n" by auto
  from getopt_required [OF find_capture_option [OF n] this] Cons kv show ?case by (simp add: long_options_def)
qed

lemma run_capture_options:
  "run_options (map (\<lambda>(n, v). Some (store (\<lambda>v. apfst (capture_setting (n, v))) v)) kvs) a s =
     Some (Next (a\<lparr>a_msg := apfst (fold capture_setting kvs) (a_msg a)\<rparr>), s)"
  by (induction kvs arbitrary: a) (auto simp: store_def apfst_def map_prod_def split_beta)

text \<open>The request the default values and a sequence of options describe, the last of a name deciding.\<close>

definition requested :: "(string \<times> string) list \<Rightarrow> capture_request" where
  "requested kvs = fold capture_setting kvs (fst capture_start_init)"

lemma parse_capture:
  assumes "fst ` set kvs \<subseteq> capture_names"
  shows "parse_options capture_start_option capture_start_init (long_options kvs) c =
    Some (Next \<lparr>a_type = ADDRESS_TCP, a_name = DABBA_RPC_DEFAULT_TCP_SERVER_NAME, a_msg = (requested kvs, dabba__sock_fprog__init)\<rparr>, c)"
  unfolding parse_options_def getopt_capture [OF assms] run_capture_options
  by (simp add: requested_def capture_start_init_def)

lemma cmd_capture_start_sends:
  assumes "fst ` set kvs \<subseteq> capture_names" and "dabba_rpc_client_connect env DABBA_RPC_DEFAULT_TCP_SERVER_NAME ADDRESS_TCP"
    and "e_call env ADDRESS_TCP DABBA_RPC_DEFAULT_TCP_SERVER_NAME (Session (Capture_Start (requested kvs))) (c_peer c) = Some (Error_Code (Some rc), d)"
  shows "cmd_capture_start env argc (long_options kvs) c = Some (Ret 0, c\<lparr>c_peer := d, c_out := c_out c @ rpc_error_line env rc\<rparr>)"
  using assms(2,3)
  by (simp add: cmd_capture_start_def parse_capture [OF assms(1)] finish_def rpc_capture_start_def rpc_invoke_def rpc_error_code_print_def
      sock_filter_destroy_def dabba__sock_fprog__init_def printf_def free_def)

text \<open>
  What flushing and closing standard output adds to a command that succeeded: its exit status, and whether standard output stays open.
  The words before the options select the action. Both levels of the command tables finish this way, and the second time there is nothing left to do.
\<close>

definition closing :: "stdout \<Rightarrow> int \<times> stdout" where
  "closing out =
     (if \<not> so_open out \<or> so_pipe out then (0, out) else if so_flush out \<noteq> 0 then (so_flush out, out)
      else if so_error out then (1, out) else (so_close out, out\<lparr>so_open := False\<rparr>))"

lemma run_builtin_closing:
  assumes "fn argc argv c = Some (Ret 0, c1)"
  shows "run_builtin fn argc argv c = Some (Ret (fst (closing (c_stdout c1))), c1\<lparr>c_stdout := snd (closing (c_stdout c1))\<rparr>)"
  using assms by (simp add: run_builtin_def closing_def Let_def)

lemma run_builtin_closing_again:
  assumes "fn argc argv c = Some (Ret (fst (closing (c_stdout c1))), c1\<lparr>c_stdout := snd (closing (c_stdout c1))\<rparr>)"
  shows "run_builtin fn argc argv c = fn argc argv c"
  using assms by (auto simp: run_builtin_def closing_def Let_def)

lemma main_capture_start:
  assumes "fst ` set kvs \<subseteq> capture_names" and r: "cmd_capture_start env (int (length (long_options kvs))) (long_options kvs) c = Some (Ret 0, c1)"
  shows "dabba_main env (''capture'' # ''start'' # long_options kvs) c =
    Some (Ret (fst (closing (c_stdout c1))), c1\<lparr>c_stdout := snd (closing (c_stdout c1))\<rparr>)"
proof -
  have h: "help_args (int (Suc (length (long_options kvs)))) (''start'' # long_options kvs) = ''start'' # long_options kvs"
    using assms(1) by (cases kvs) (auto simp: help_args_def long_options_def)
  have s: "cmd_capture env (int (Suc (length (long_options kvs)))) (''start'' # long_options kvs) c =
      Some (Ret (fst (closing (c_stdout c1))), c1\<lparr>c_stdout := snd (closing (c_stdout c1))\<rparr>)"
    unfolding cmd_capture_def cmd_run_command_def h using run_builtin_closing [where fn = "cmd_capture_start env", OF r] by (simp add: cmd_run_action_def)
  have "help_args (int (length (''capture'' # ''start'' # long_options kvs))) (''capture'' # ''start'' # long_options kvs) =
      ''capture'' # ''start'' # long_options kvs"
    by (simp add: help_args_def)
  with s run_builtin_closing_again [where fn = "cmd_capture env", OF s] show ?thesis
    unfolding dabba_main_def cmd_run_command_def by (simp add: cmd_run_action_def commands_def)
qed

section \<open>Faults of the client\<close>

text \<open>The listing of replays takes its first argument for the name of the program: whatever server or identifier it names is not asked.\<close>

lemma replay_get_ignores: "cmd_replay_get env argc [a] c = cmd_replay_get env argc' [] c"
  by (simp add: cmd_replay_get_def)

text \<open>A query of captures or threads with an identifier writes through a pointer that was never set, if there is memory for the list.\<close>

lemma get_session_id_faults:
  assumes "faultless (c_os c)"
  shows "get_session env rpc [''--id'', v] c = None"
proof -
  obtain b s where "malloc (c_os c) = (Some b, s)" using malloc_faultless [OF assms] by (metis not_None_eq surj_pair)
  then have "realloc None (c_os c) = Some (Some b, s)" by (simp add: realloc_def free_def)
  moreover have "getopt_long_only id_list_option [''--id'', v] = [Some (no_ids v)]"
    using getopt_required [of id_list_option "''id''" "''id''" no_ids v "[]"] by (simp add: id_list_option_def find_option_def)
  ultimately show ?thesis by (simp add: get_session_def parse_options_def no_ids_def)
qed

text \<open>The name of a manual page overruns its buffer when more words follow a long one.\<close>

lemma help_overflows: "NAME_MAX < 6 + length a \<Longrightarrow> cmd_help env 2 [a, b] c = None"
  by (simp add: cmd_help_def)

text \<open>The options of an action never see \<^verbatim>\<open>--help\<close> as their first word: it is turned into a command that the table of actions does not have.\<close>

lemma action_help_unknown: "cmd_capture env 2 [''start'', ''--help''] c = Some (Ret ENOSYS, printf (help_unknown_cmd ''help'') c)"
  by (simp add: cmd_capture_def cmd_run_command_def help_args_def cmd_run_action_def)

end
