(* ===== verification/Startup.thy ===== *)
theory Startup
  imports Client Misc
begin

text \<open>
  How the daemon starts and ends: \<open>main\<close> and the signal handler of \<^verbatim>\<open>src/dabbad/dabbad.c\<close>, \<^verbatim>\<open>src/dabbad/help.c\<close> and the
  server of \<^verbatim>\<open>src/dabbad/rpc.c\<close>. Whether the RPC library can create a server is a parameter; its sockets are not part of the
  state. Polling for messages never returns, so \<open>main\<close> ends with a status or serves for ever; what it serves is the
  service of theory \<open>Remote\<close>.
\<close>

section \<open>The process\<close>

text \<open>The server that listens, the modes given to files, and what \<open>daemon\<close> and \<open>signal\<close> change.\<close>

record process =
  p_os :: os
  p_out :: string
  p_pid :: nat
  p_child :: nat
  p_server :: "(address_type \<times> string) option"
  p_mode :: "string \<rightharpoonup> nat"
  p_detached :: bool
  p_handler :: bool

definition process_printf :: "string \<Rightarrow> process \<Rightarrow> process" where
  "process_printf str p = p\<lparr>p_out := p_out p @ str\<rparr>"

definition chmod :: "string \<Rightarrow> nat \<Rightarrow> process \<Rightarrow> int \<times> process" where
  "chmod name mode p =
     (let (r, s) = syscall (-1) (\<lambda>_ s. (0, s)) (p_os p)
      in (r, p\<lparr>p_os := s, p_mode := if r = 0 then (p_mode p)(name \<mapsto> mode) else p_mode p\<rparr>))"

text \<open>The calling process exits; the program goes on in its child.\<close>

definition daemon_call :: "process \<Rightarrow> int \<times> process" where
  "daemon_call p =
     (let (r, s) = syscall (-1) (\<lambda>_ s. (0, s)) (p_os p)
      in (r, if r = 0 then p\<lparr>p_os := s, p_pid := p_child p, p_detached := True\<rparr> else p\<lparr>p_os := s\<rparr>))"

section \<open>The server\<close>

definition DABBA_RPC_DEFAULT_PORT :: string where "DABBA_RPC_DEFAULT_PORT = ''55994''"

definition dabbad_rpc_server_stop :: "process \<Rightarrow> process" where
  "dabbad_rpc_server_stop p = p\<lparr>p_server := None\<rparr>"

text \<open>Read and write for the owner and the group, 0660 in octal.\<close>

definition socket_mode :: nat where "socket_mode = 6 * 64 + 6 * 8"

definition dabbad_rpc_server_start :: "(address_type \<Rightarrow> string \<Rightarrow> os \<Rightarrow> bool) \<Rightarrow> string \<Rightarrow> address_type \<Rightarrow> process \<Rightarrow> process option" where
  "dabbad_rpc_server_start server_new name type p =
     (if name = [] then None else
      let server = server_new type name (p_os p);
          p = p\<lparr>p_os := tick (p_os p), p_server := if server then Some (type, name) else None\<rparr>
      in if server \<and> type = ADDRESS_LOCAL
         then let (rc, p) = chmod name socket_mode p in Some (if rc \<noteq> 0 then dabbad_rpc_server_stop p else p)
         else Some p)"

section \<open>Help\<close>

definition dabbad_usage :: string where
  "dabbad_usage = ''usage: dabbad [<args>]'' @ eol @ eol @ ''The available options are:'' @ eol"

definition dabbad_show_usage :: "'b opt list \<Rightarrow> string" where
  "dabbad_show_usage opts = dabbad_usage @ concat (map opt_usage opts)"

definition print_version :: "string \<Rightarrow> string" where
  "print_version version = ''dabbad version '' @ version @ eol"

section \<open>The program\<close>

record dabbad_config =
  cf_pidfile :: "string option"
  cf_server_type :: address_type
  cf_daemonize :: bool
  cf_server_id :: string

definition conf :: dabbad_config where
  "conf = \<lparr>cf_pidfile = None, cf_server_type = ADDRESS_TCP, cf_daemonize = False, cf_server_id = DABBA_RPC_DEFAULT_PORT\<rparr>"

text \<open>A branch of the switch over the options changes the configuration, or prints something and leaves \<open>main\<close>.\<close>

type_synonym branch = "dabbad_config \<Rightarrow> dabbad_config + string"

definition listen :: "address_type \<Rightarrow> string \<Rightarrow> string option \<Rightarrow> branch" where
  "listen type standard optarg c =
     Inl (c\<lparr>cf_server_type := type, cf_server_id := (case optarg of None \<Rightarrow> standard | Some v \<Rightarrow> v)\<rparr>)"

text \<open>The usage lists the names of the table, whatever the branches are.\<close>

definition dabbad_options :: "string \<Rightarrow> string \<Rightarrow> branch opt list" where
  "dabbad_options version usage =
     [No_Argument ''daemonize'' (\<lambda>c. Inl (c\<lparr>cf_daemonize := True\<rparr>)),
      Required_Argument ''pidfile'' (\<lambda>v c. Inl (c\<lparr>cf_pidfile := Some v\<rparr>)),
      Optional_Argument ''tcp'' (listen ADDRESS_TCP DABBA_RPC_DEFAULT_PORT),
      Optional_Argument ''local'' (listen ADDRESS_LOCAL DABBA_RPC_DEFAULT_LOCAL_SERVER_NAME),
      No_Argument ''version'' (\<lambda>c. Inr (print_version version)),
      No_Argument ''help'' (\<lambda>c. Inr usage)]"

definition dabbad_long_options :: "string \<Rightarrow> branch opt list" where
  "dabbad_long_options version = dabbad_options version (dabbad_show_usage (dabbad_options version []))"

fun configure :: "string \<Rightarrow> branch option list \<Rightarrow> branch" where
  "configure usage [] c = Inl c"
| "configure usage (None # bs) c = Inr usage"
| "configure usage (Some b # bs) c = (case b c of Inl c \<Rightarrow> configure usage bs c | Inr str \<Rightarrow> Inr str)"

datatype ending = Exits int | Serves

definition dabbad_main :: "(address_type \<Rightarrow> string \<Rightarrow> os \<Rightarrow> bool) \<Rightarrow> string \<Rightarrow> string list \<Rightarrow> process \<Rightarrow> (ending \<times> process) option" where
  "dabbad_main server_new version argv p =
     (let opts = dabbad_long_options version in
      case configure (dabbad_show_usage opts) (getopt_long_only opts argv) conf of
        Inr str \<Rightarrow> Some (Exits 0, process_printf str p)
      | Inl c \<Rightarrow>
          do {
            let p = p\<lparr>p_handler := True\<rparr>;
            let p = p\<lparr>p_os := snd (core_enable (p_os p))\<rparr>;
            p \<leftarrow> dabbad_rpc_server_start server_new (cf_server_id c) (cf_server_type c) p;
            if p_server p = None then Some (Exits EINVAL, p) else
            let (r, p) = (if cf_daemonize c then daemon_call p else (0, p));
                rc = (if r \<noteq> 0 then os_errno (p_os p) else 0)
            in if rc \<noteq> 0 then Some (Exits rc, p) else
            (case cf_pidfile c of
               None \<Rightarrow> Some (Serves, p)
             | Some pidfile \<Rightarrow>
                 do {
                   (rc, s) \<leftarrow> create_pidfile pidfile (p_pid p) (p_os p);
                   Some (if rc \<noteq> 0 then Exits rc else Serves, p\<lparr>p_os := s\<rparr>)
                 })
          })"

definition atexit_cleanup :: "dabbad_config \<Rightarrow> process \<Rightarrow> process" where
  "atexit_cleanup c p =
     dabbad_rpc_server_stop
       (case cf_pidfile c of None \<Rightarrow> p | Some pidfile \<Rightarrow> p\<lparr>p_os := snd (unlink pidfile (p_os p))\<rparr>)"

definition exit_cleanup :: "dabbad_config \<Rightarrow> int \<Rightarrow> process \<Rightarrow> ending \<times> process" where
  "exit_cleanup c arg p = (Exits arg, atexit_cleanup c p)"

section \<open>What start-up does\<close>

lemma chmod_result:
  assumes "chmod name mode p = (r, p')"
  shows "p_server p' = p_server p \<and> p_detached p' = p_detached p \<and> p_handler p' = p_handler p \<and> p_child p' = p_child p \<and>
    p_pid p' = p_pid p \<and> (r = 0 \<longrightarrow> p_mode p' name = Some mode)"
  using assms by (auto simp: chmod_def Let_def split: prod.splits)

lemma daemon_call_result:
  assumes "daemon_call p = (r, p')"
  shows "p_server p' = p_server p \<and> p_mode p' = p_mode p \<and> p_handler p' = p_handler p \<and>
    (if r = 0 then p_detached p' \<and> p_pid p' = p_child p else os_errno (p_os p') \<noteq> 0)"
  using assms by (auto simp: daemon_call_def syscall_def errno_def Let_def split: prod.splits if_splits outcome.splits)

text \<open>A server is there when the library created it and, for a local one, the mode of its file could be set.\<close>

lemma server_start_result:
  assumes "dabbad_rpc_server_start server_new name type p = Some p'"
  shows "p_detached p' = p_detached p \<and> p_handler p' = p_handler p \<and> p_child p' = p_child p \<and> p_pid p' = p_pid p \<and>
    (p_server p' \<noteq> None \<longrightarrow> server_new type name (p_os p) \<and> p_server p' = Some (type, name) \<and>
       (type = ADDRESS_LOCAL \<longrightarrow> p_mode p' name = Some socket_mode))"
  using assms
  by (auto simp: dabbad_rpc_server_start_def dabbad_rpc_server_stop_def Let_def split: if_splits prod.splits dest!: chmod_result)

text \<open>
  What \<open>main\<close> promises once it serves: the server of the configuration listens, a local one only for its owner and group,
  the signals that end the process clean up, the process is detached if asked to, and the process identifier file was written
  without error by the process that serves.
\<close>

definition started :: "dabbad_config \<Rightarrow> process \<Rightarrow> process \<Rightarrow> bool" where
  "started c p p' \<longleftrightarrow> p_server p' = Some (cf_server_type c, cf_server_id c) \<and> p_handler p' \<and>
     (cf_server_type c = ADDRESS_LOCAL \<longrightarrow> p_mode p' (cf_server_id c) = Some socket_mode) \<and>
     (cf_daemonize c \<longrightarrow> p_detached p' \<and> p_pid p' = p_child p) \<and>
     (case cf_pidfile c of None \<Rightarrow> True | Some f \<Rightarrow> \<exists>s. create_pidfile f (p_pid p') s = Some (0, p_os p'))"

lemma main_serves:
  assumes "dabbad_main server_new version argv p = Some (Serves, p')"
  shows "\<exists>c. configure (dabbad_show_usage (dabbad_long_options version)) (getopt_long_only (dabbad_long_options version) argv) conf = Inl c \<and>
    started c p p'"
proof (cases "configure (dabbad_show_usage (dabbad_long_options version)) (getopt_long_only (dabbad_long_options version) argv) conf")
  case (Inl c)
  let ?p = "p\<lparr>p_handler := True, p_os := snd (core_enable (p_os p))\<rparr>"
  from assms Inl obtain p1 where p1: "dabbad_rpc_server_start server_new (cf_server_id c) (cf_server_type c) ?p = Some p1" "p_server p1 \<noteq> None"
    by (auto simp: dabbad_main_def Let_def bind_eq_Some_conv split: if_splits)
  obtain r p2 where p2: "(if cf_daemonize c then daemon_call p1 else (0, p1)) = (r, p2)" by force
  with assms Inl p1 have r: "r = 0" using daemon_call_result [of p1 r p2]
    by (auto simp: dabbad_main_def Let_def split: if_splits)
  have s: "p_server p2 = Some (cf_server_type c, cf_server_id c)" "p_handler p2"
    "cf_server_type c = ADDRESS_LOCAL \<longrightarrow> p_mode p2 (cf_server_id c) = Some socket_mode"
    "cf_daemonize c \<longrightarrow> p_detached p2 \<and> p_pid p2 = p_child p"
    using server_start_result [OF p1(1)] p1(2) p2 r daemon_call_result [of p1 r p2] by (auto split: if_splits)
  have "dabbad_main server_new version argv p = (case cf_pidfile c of None \<Rightarrow> Some (Serves, p2) | Some f \<Rightarrow>
      do { (rc, s) \<leftarrow> create_pidfile f (p_pid p2) (p_os p2); Some (if rc \<noteq> 0 then Exits rc else Serves, p2\<lparr>p_os := s\<rparr>) })"
    using Inl p1 p2 r by (auto simp: dabbad_main_def Let_def)
  with assms s have "started c p p'" unfolding started_def
    by (auto simp: bind_eq_Some_conv split: option.splits if_splits) 
  with Inl show ?thesis by blast
qed (use assms in \<open>simp add: dabbad_main_def Let_def\<close>)


text \<open>The last option that names an address decides; without one the daemon listens on the TCP port.\<close>

lemma address_last:
  "configure usage (bs @ [Some (listen type standard a)]) c = Inl c' \<Longrightarrow>
     cf_server_type c' = type \<and> cf_server_id c' = (case a of None \<Rightarrow> standard | Some v \<Rightarrow> v)"
  by (induction usage bs c rule: configure.induct) (auto simp: listen_def split: sum.splits)

text \<open>An empty port fails an assertion.\<close>

lemma empty_port_aborts: "dabbad_main server_new version [''--tcp=''] p = None"
  by (simp add: dabbad_main_def dabbad_long_options_def dabbad_options_def is_option_def split_arg_def find_option_def listen_def
      dabbad_rpc_server_start_def Let_def)

text \<open>When the process identifier file cannot be written, \<open>main\<close> returns without stopping the server it started.\<close>

lemma pidfile_failure_keeps_server:
  assumes "configure (dabbad_show_usage (dabbad_long_options version)) (getopt_long_only (dabbad_long_options version) argv) conf = Inl c"
    and "cf_pidfile c = Some f" and "\<not> cf_daemonize c" and "cf_server_type c = ADDRESS_TCP" and "cf_server_id c \<noteq> []"
    and "server_new ADDRESS_TCP (cf_server_id c) (snd (core_enable (p_os p)))"
    and "create_pidfile f (p_pid p) (tick (snd (core_enable (p_os p)))) = Some (rc, s)" and "rc \<noteq> 0"
  shows "\<exists>p'. dabbad_main server_new version argv p = Some (Exits rc, p') \<and> p_server p' = Some (ADDRESS_TCP, cf_server_id c)"
  using assms by (simp add: dabbad_main_def dabbad_rpc_server_start_def Let_def)

text \<open>A signal that ends the process removes the process identifier file, if that can be removed, and stops the server; its number is the exit status.\<close>

lemma exit_cleanup_result:
  assumes "cf_pidfile c = Some f" and "faultless (p_os p)"
  shows "\<exists>p'. exit_cleanup c sig p = (Exits sig, p') \<and> p_server p' = None \<and> os_dir (p_os p') f = None"
  using assms by (auto simp: exit_cleanup_def atexit_cleanup_def dabbad_rpc_server_stop_def unlink_def syscall_def faultlessD split: option.splits)

end
