(* ===== verification/Pcap_Tools.thy ===== *)
theory Pcap_Tools
  imports Pcap Getopt
begin

text \<open>
  The programs the repository ships beside the daemon and the client to exercise the PCAP layer: the packet counter
  \<^verbatim>\<open>src/dabba/test/tools/pktcnt.c\<close>, by which the shell tests judge a capture, and the unit test
  \<^verbatim>\<open>src/libdabba/tests/test-pcap.c\<close>. Both are clients of \<^verbatim>\<open>Pcap\<close>.
\<close>

section \<open>The packet counter\<close>

partial_function (option) pktcnt_loop :: "int \<Rightarrow> u64 \<Rightarrow> os \<Rightarrow> (u64 \<times> os) option" where
  [code]: "pktcnt_loop fd a s =
     (let ((n, bs), s1) = read_fd fd 16 s in
      if n \<noteq> 16 then Some (a, s1) else
      let (off, s2) = lseek_fd fd (unat (caplen (pkthdr_of (os_endian s) bs))) SEEK_CUR s1 in
      if off < 0 then Some (a, s2) else pktcnt_loop fd (a + 1) s2)"

definition pktcnt :: "string \<Rightarrow> os \<Rightarrow> (int \<times> os) option" where
  "pktcnt pcap s =
     (let (fd, s1) = ldab_pcap_open pcap 0 s in
      if fd < 0 then Some (0, s1) else
      do {
        (a, s2) \<leftarrow> pktcnt_loop fd 0 s1;
        let (_, s3) = close_fd fd s2;
        Some (sint (ucast a :: 32 word), s3)
      })"

text \<open>The main program: the lines it prints for the files named on its command line.\<close>

fun pktcnt_main :: "string list \<Rightarrow> os \<Rightarrow> (string \<times> os) option" where
  "pktcnt_main [] s = Some ([], s)"
| "pktcnt_main (arg # argv) s =
     do {
       (n, s1) \<leftarrow> pktcnt arg s;
       (out, s2) \<leftarrow> pktcnt_main argv s1;
       Some (show_int n @ [CHR 0x0A] @ out, s2)
     }"

section \<open>Counting\<close>

text \<open>What is left of a file behind a descriptor: each turn of the loop takes sixteen bytes of it at least.\<close>

definition rest_len :: "int \<Rightarrow> os \<Rightarrow> nat" where
  "rest_len fd s = (case fd_of s fd of Some (Reg ino pos rd wr ap) \<Rightarrow> length (os_data s ino) - pos | _ \<Rightarrow> 0)"

definition same_files :: "int \<Rightarrow> os \<Rightarrow> os \<Rightarrow> bool" where
  "same_files fd s s' \<longleftrightarrow> os_data s' = os_data s \<and> os_dir s' = os_dir s \<and> os_sched s' = os_sched s \<and> os_endian s' = os_endian s \<and>
     os_nofile s' = os_nofile s \<and> (\<exists>d. os_fd s' = (os_fd s)(nat fd := d))"

lemma same_files_trans: "same_files fd s s1 \<Longrightarrow> same_files fd s1 s2 \<Longrightarrow> same_files fd s s2"
  by (auto simp: same_files_def)

lemma same_files_refl [simp]: "same_files fd s s"
  by (simp add: same_files_def upd_same)

lemma same_files_read: "0 \<le> fd \<Longrightarrow> same_files fd s (snd (read_fd fd n s))"
  by (auto simp: same_files_def read_fd_def syscall_def Let_def set_fd_def upd_same
      split: outcome.split option.split ofd.split bool.split)

lemma same_files_lseek: "0 \<le> fd \<Longrightarrow> same_files fd s (snd (lseek_fd fd n w s))"
  by (auto simp: same_files_def lseek_fd_def syscall_def Let_def set_fd_def upd_same
      split: outcome.split option.split ofd.split bool.split)

lemma pktcnt_loop_total:
  assumes "0 \<le> fd"
  shows "\<exists>a' s'. pktcnt_loop fd a s = Some (a', s') \<and> same_files fd s s'"
proof (induction "rest_len fd s" arbitrary: a s rule: less_induct)
  case less
  obtain n bs s1 where r: "read_fd fd 16 s = ((n, bs), s1)" by (metis surj_pair)
  obtain off s2 where l: "lseek_fd fd (unat (caplen (pkthdr_of (os_endian s) bs))) SEEK_CUR s1 = (off, s2)" by force
  have sf: "same_files fd s s1" "same_files fd s1 s2"
    using same_files_read [OF assms, of s 16] same_files_lseek [OF assms, of s1 _ SEEK_CUR] r l by (metis snd_conv)+
  show ?case
  proof (cases "n = 16 \<and> 0 \<le> off")
    case True
    from r True have "\<exists>ino pos wr ap m. fd_of s fd = Some (Reg ino pos True wr ap) \<and> bs = take m (drop pos (os_data s ino)) \<and> n = int (length bs) \<and>
      s1 = set_fd fd (Some (Reg ino (pos + length bs) True wr ap)) (tick s)"
      by (cases rule: read_fd_cases) auto
    then obtain ino pos wr ap m where g: "fd_of s fd = Some (Reg ino pos True wr ap)" "bs = take m (drop pos (os_data s ino))"
      "n = int (length bs)" "s1 = set_fd fd (Some (Reg ino (pos + length bs) True wr ap)) (tick s)" by blast
    have pos: "pos + 16 \<le> length (os_data s ino)" using g(2,3) True by (auto simp: min_def split: if_splits)
    from lseek_fd_result [OF l assms] True g(3,4) assms have
      "os_fd s2 = (os_fd s1)(nat fd \<mapsto> Reg ino (nat off) True wr ap)" "int pos + 16 \<le> off" by (auto simp: fd_of_def set_fd_def)
    then have p: "pos + 16 \<le> nat off" "fd_of s2 fd = Some (Reg ino (nat off) True wr ap)" using assms by (auto simp: fd_of_def)
    have "rest_len fd s2 < rest_len fd s" using p pos g(1) sf by (simp add: rest_len_def same_files_def)
    from less.hyps [OF this, of "a + 1"] obtain a' s' where "pktcnt_loop fd (a + 1) s2 = Some (a', s')" "same_files fd s2 s'" by blast
    moreover from r l True have "pktcnt_loop fd a s = pktcnt_loop fd (a + 1) s2" by (subst pktcnt_loop.simps) simp
    ultimately show ?thesis using sf same_files_trans by metis
  next
    case False
    with r l sf show ?thesis by (subst pktcnt_loop.simps) (auto intro: same_files_trans)
  qed
qed

lemma pktcnt_loop_records:
  assumes "faultless s" and "0 \<le> fd" and "\<forall>p \<in> set ps. storable p" and "length rest < 16"
    and "fd_of s fd = Some (Reg ino pos True wr ap)"
    and "drop pos (os_data s ino) = concat (map (record_bytes (os_endian s)) ps) @ rest"
  shows "\<exists>s'. pktcnt_loop fd a s = Some (a + of_nat (length ps), s') \<and> same_files fd s s'"
  using assms
proof (induction ps arbitrary: a s pos)
  case Nil
  then obtain s1 where r: "read_fd fd 16 s = ((int (length rest), rest), s1)" by (simp add: read_fd_Succeed faultlessD)
  with same_files_read [OF Nil.prems(2), of s 16] have "same_files fd s s1" by simp
  with r Nil.prems(4) show ?case by (subst pktcnt_loop.simps) simp
next
  case (Cons p ps)
  let ?h = "pkthdr_bytes (os_endian s) (sf_hdr_of p)"
  have "take 16 (drop pos (os_data s ino)) = ?h" using Cons.prems(6) by (simp add: record_bytes_def)
  then obtain s1 where r: "read_fd fd 16 s = ((16, ?h), s1)" and f1: "fd_of s1 fd = Some (Reg ino (pos + 16) True wr ap)"
    using Cons.prems(1,2,5) by (simp add: read_fd_Succeed faultlessD)
  have c: "unat (caplen (sf_hdr_of p)) = length (p_data p)" using Cons.prems(3) by (simp add: caplen_storable)
  have sf1: "same_files fd s s1" using same_files_read [OF Cons.prems(2), of s 16] r by simp
  then have "os_sched s1 n = Succeed" for n using Cons.prems(1) by (simp add: same_files_def faultlessD)
  then obtain s2 where l: "lseek_fd fd (length (p_data p)) SEEK_CUR s1 = (int (pos + 16 + length (p_data p)), s2)"
    and f2: "fd_of s2 fd = Some (Reg ino (pos + 16 + length (p_data p)) True wr ap)"
    using f1 Cons.prems(2) by (simp add: lseek_fd_def syscall_def)
  note sf = sf1 same_files_lseek [OF Cons.prems(2), of s1 "length (p_data p)" SEEK_CUR, unfolded l snd_conv]
  have "drop (pos + 16 + length (p_data p)) (os_data s ino) = drop (16 + length (p_data p)) (drop pos (os_data s ino))"
    by (simp add: ac_simps)
  also have "\<dots> = concat (map (record_bytes (os_endian s)) ps) @ rest" using Cons.prems(6) by simp
  finally have d: "drop (pos + 16 + length (p_data p)) (os_data s2 ino) = concat (map (record_bytes (os_endian s2)) ps) @ rest"
    using sf by (simp add: same_files_def)
  have "faultless s2" using sf Cons.prems(1) by (simp add: same_files_def faultless_def)
  from Cons.IH [OF this Cons.prems(2) _ Cons.prems(4) f2 d, of "a + 1"] Cons.prems(3) obtain s' where
    "pktcnt_loop fd (a + 1) s2 = Some (a + 1 + of_nat (length ps), s')" "same_files fd s2 s'" by auto
  moreover have "pktcnt_loop fd a s = pktcnt_loop fd (a + 1) s2"
    by (subst pktcnt_loop.simps) (simp add: r pkthdr_roundtrip c l)
  moreover have "a + 1 + of_nat (length ps) = a + of_nat (length (p # ps))" by (simp add: ac_simps)
  ultimately show ?case using same_files_trans [OF same_files_trans [OF sf]] by auto
qed

lemma same_files_close:
  assumes "same_files fd s s'" and "0 \<le> fd" and "os_fd s (nat fd) = Some d" and "os_fd s = (os_fd s0)(nat fd := Some d)" and "os_fd s0 (nat fd) = None"
  shows "os_fd (snd (close_fd fd s')) = os_fd s0"
  using assms by (auto simp: same_files_def os_fd_close_fd fun_eq_iff)

text \<open>Whatever the file holds and whatever fails, the counter returns, closes the file and changes none.\<close>

lemma pktcnt_total:
  "\<exists>n s'. pktcnt pcap s = Some (n, s') \<and> os_fd s' = os_fd s \<and> os_data s' = os_data s \<and> os_dir s' = os_dir s"
proof -
  obtain fd s1 where o: "ldab_pcap_open pcap O_RDONLY s = (fd, s1)" by force
  note d = ldab_pcap_open_rdonly_data [of pcap s, unfolded o snd_conv]
  show ?thesis
  proof (cases "fd < 0")
    case True
    with ldab_pcap_open_fail [OF o] d o show ?thesis by (simp add: pktcnt_def open_flag_defs)
  next
    case False
    then have fd: "0 \<le> fd" by simp
    from pktcnt_loop_total [OF fd, of 0 s1] obtain a s2 where l: "pktcnt_loop fd 0 s1 = Some (a, s2)" "same_files fd s1 s2" by blast
    from ldab_pcap_open_ok [OF o fd] have "os_fd (snd (close_fd fd s2)) = os_fd s"
      by (elim conjE exE) (rule same_files_close [OF l(2) fd], auto)
    with o fd l d show ?thesis by (auto simp: pktcnt_def open_flag_defs same_files_def split_beta)
  qed
qed

text \<open>
  C35: The packet counter is right on every capture the daemon writes: for a file that holds a header, the records of any number of storable packets
  (fewer than \<open>2 ^ 31\<close>, the range of the result) and at most the beginning of another record header, as a write that came short leaves it, it returns
  exactly the number of packets, and the file is closed again.
\<close>

theorem pktcnt_counts:
  assumes "faultless s" and "free_fds s \<noteq> []" and "os_dir s pcap = Some ino"
    and "os_data s ino = pcap_image (os_endian s) ps @ rest" and "length rest < 16"
    and "\<forall>p \<in> set ps. storable p" and "length ps < 2 ^ 31"
  shows "\<exists>s'. pktcnt pcap s = Some (int (length ps), s') \<and> os_fd s' = os_fd s"
proof -
  obtain n fs where n: "free_fds s = n # fs" using assms(2) by (cases "free_fds s") auto
  have "header_ok (os_endian s) (take 24 (os_data s ino))"
    using pcap_image_header [of "os_endian s" "os_endian s" ps] by (simp add: assms(4) pcap_image_def)
  from ldab_pcap_open_rdonly_total [OF assms(1) n assms(3) this] obtain s1 where o: "ldab_pcap_open pcap O_RDONLY s = (int n, s1)" by blast
  note d = ldab_pcap_open_rdonly_data [of pcap s, unfolded o snd_conv] ldab_pcap_open_frame [of pcap O_RDONLY s, unfolded o snd_conv]
  from ldab_pcap_open_ok [OF o] d assms(3) have f: "os_fd s n = None" "os_fd s1 = (os_fd s)(n \<mapsto> Reg ino 24 True False False)"
    by (auto simp: open_flag_defs)
  have w: "faultless s1" "fd_of s1 (int n) = Some (Reg ino 24 True False False)"
    "drop 24 (os_data s1 ino) = concat (map (record_bytes (os_endian s1)) ps) @ rest"
    using d f assms(1,4) by (simp_all add: faultless_def fd_of_def pcap_image_def)
  from pktcnt_loop_records [OF w(1) _ assms(6,5) w(2,3), of 0] obtain s2 where
    l: "pktcnt_loop (int n) 0 s1 = Some (of_nat (length ps), s2)" "same_files (int n) s1 s2" by auto
  have "os_fd (snd (close_fd (int n) s2)) = os_fd s" by (rule same_files_close [OF l(2)]) (use f in auto)
  moreover have "sint (ucast (of_nat (length ps) :: u64) :: 32 word) = int (length ps)"
    using assms(7) by (simp add: ucast_snaplen signed_of_nat signed_take_bit_int_eq_self)
  ultimately show ?thesis using o l by (simp add: pktcnt_def open_flag_defs split_beta)
qed

definition counted_os :: os where
  "counted_os = (boot (\<lambda>_. Succeed))\<lparr>os_dir := [''a'' \<mapsto> 0], os_data := (\<lambda>_. pcap_image Little two_packets @ [1, 2, 3])\<rparr>"

theorem pktcnt_counts_witness: "\<exists>s'. pktcnt ''a'' counted_os = Some (2, s') \<and> os_fd s' 3 = None"
proof -
  have "faultless counted_os" "free_fds counted_os \<noteq> []" "os_dir counted_os ''a'' = Some 0"
    "os_data counted_os 0 = pcap_image (os_endian counted_os) two_packets @ [1, 2, 3]" "\<forall>p \<in> set two_packets. storable p"
    by (simp_all add: counted_os_def faultless_def free_fds_def upt_rec two_packets_def storable_def)
  from pktcnt_counts [OF this(1-4) _ this(5)] show ?thesis by (auto simp: two_packets_def counted_os_def)
qed

section \<open>The unit test\<close>

definition icmp_dns :: "byte list" where
  "icmp_dns =
     [0x00, 0x1e, 0x65, 0x93, 0x1b, 0x6c, 0x00, 0x1d,
      0x19, 0x84, 0x9c, 0xdc, 0x08, 0x00, 0x45, 0x00,
      0x00, 0x54, 0xdb, 0x46, 0x00, 0x00, 0x38, 0x01,
      0x4d, 0x41, 0x08, 0x08, 0x08, 0x08, 0xc0, 0xa8,
      0x89, 0x69, 0x00, 0x00, 0xce, 0x1a, 0x12, 0x2d,
      0x00, 0x02, 0xb7, 0xeb, 0xba, 0x4c, 0x00, 0x00,
      0x00, 0x00, 0xee, 0xaa, 0x00, 0x00, 0x00, 0x00,
      0x00, 0x00, 0x10, 0x11, 0x12, 0x13, 0x14, 0x15,
      0x16, 0x17, 0x18, 0x19, 0x1a, 0x1b, 0x1c, 0x1d,
      0x1e, 0x1f, 0x20, 0x21, 0x22, 0x23, 0x24, 0x25,
      0x26, 0x27, 0x28, 0x29, 0x2a, 0x2b, 0x2c, 0x2d,
      0x2e, 0x2f, 0x30, 0x31, 0x32, 0x33, 0x34, 0x35,
      0x36, 0x37]"

definition test_path :: string where "test_path = ''res.pcap''"

definition swapped_pcap_file_header_init :: pcap_file_header where
  "swapped_pcap_file_header_init =
     \<lparr>magic = bswap_32 (of_nat TCPDUMP_MAGIC), version_major = bswap_16 (of_nat PCAP_VERSION_MAJOR),
      version_minor = bswap_16 (of_nat PCAP_VERSION_MINOR), thiszone = 0, sigfigs = 0,
      snaplen = bswap_32 (of_int PCAP_DEFAULT_SNAPSHOT_LEN), linktype = bswap_32 (of_int LINKTYPE_EN10MB)\<rparr>"

text \<open>The clock of \<^verbatim>\<open>gettimeofday\<close> is a parameter, read at the number of system calls made so far.\<close>

definition test_pcap_write :: "(nat \<Rightarrow> u64 \<times> u64) \<Rightarrow> int \<Rightarrow> byte list \<Rightarrow> int \<Rightarrow> os \<Rightarrow> (int \<times> os) option" where
  "test_pcap_write clock fd payload plen s =
     (let (sec, usec) = clock (os_tick s) in
      do {
        (n, s1) \<leftarrow> ldab_pcap_write fd payload (of_int plen) (of_int plen) sec usec s;
        if n \<noteq> plen then Some (-1, s1) else Some (0, s1)
      })"

text \<open>An assertion that does not hold ends the program.\<close>

definition assert :: "bool \<Rightarrow> unit option" where
  "assert b = (if b then Some () else None)"

definition test_pcap_main :: "(nat \<Rightarrow> u64 \<times> u64) \<Rightarrow> os \<Rightarrow> (int \<times> os) option" where
  "test_pcap_main clock s =
     do {
       let pcap_hdr = swapped_pcap_file_header_init;
       (fd, s) \<leftarrow> ldab_pcap_create test_path LINKTYPE_EN10MB s;
       assert (fd > 0);
       (rc, s) \<leftarrow> test_pcap_write clock fd icmp_dns (int (length icmp_dns)) s;
       assert (rc = 0);
       let (rc, s) = ldab_pcap_close fd s;
       assert (rc = 0);
       let (fd, s) = ldab_pcap_open test_path O_RDONLY s;
       assert (fd > 0);
       let (rc, s) = ldab_pcap_close fd s;
       assert (rc = 0);
       let (fd, s) = ldab_pcap_open test_path (O_RDWR OR O_APPEND) s;
       assert (fd > 0);
       (rc, s) \<leftarrow> test_pcap_write clock fd icmp_dns (int (length icmp_dns)) s;
       assert (rc = 0);
       let (rc, s) = ldab_pcap_close fd s;
       assert (rc = 0);
       let (fd, s) = ldab_pcap_open test_path O_RDONLY s;
       assert (fd > 0);
       let (rc, s) = ldab_pcap_close fd s;
       assert (rc = 0);
       let (fd, s) = open_file test_path O_WRONLY s;
       assert (fd > 0);
       let (n, s) = write_fd fd (file_header_bytes (os_endian s) pcap_hdr) s;
       assert (n = 24);
       (rc, s) \<leftarrow> test_pcap_write clock fd icmp_dns (int (length icmp_dns)) s;
       assert (rc = 0);
       let (rc, s) = close_fd fd s;
       assert (rc = 0);
       let (fd, s) = ldab_pcap_open test_path O_RDONLY s;
       assert (fd > 0);
       let (rc, s) = ldab_pcap_close fd s;
       assert (rc = 0);
       s \<leftarrow> ldab_pcap_destroy fd test_path s;
       Some (0, s)
     }"

text \<open>
  The state between two steps of the test: the file is closed again and has a valid header; and the state within a step,
  where descriptor \<open>n\<close> is open for writing behind the header.
\<close>

definition kept :: "os \<Rightarrow> os \<Rightarrow> bool" where
  "kept s0 s \<longleftrightarrow> os_nofile s = os_nofile s0 \<and> faultless s \<and> os_endian s = os_endian s0"

definition pcap_file :: "string \<Rightarrow> nat \<Rightarrow> os \<Rightarrow> bool" where
  "pcap_file path ino s \<longleftrightarrow> os_dir s path = Some ino \<and> header_ok (os_endian s) (take 24 (os_data s ino))"

definition at_rest :: "string \<Rightarrow> os \<Rightarrow> os \<Rightarrow> bool" where
  "at_rest path s0 s \<longleftrightarrow> kept s0 s \<and> os_fd s = os_fd s0 \<and> (\<exists>ino. pcap_file path ino s)"

definition held :: "string \<Rightarrow> nat \<Rightarrow> os \<Rightarrow> os \<Rightarrow> bool" where
  "held path n s0 s \<longleftrightarrow> kept s0 s \<and>
     (\<exists>ino pos rd wr. pcap_file path ino s \<and> 24 \<le> pos \<and> os_fd s = (os_fd s0)(n \<mapsto> Reg ino pos rd wr False))"

definition writing :: "string \<Rightarrow> nat \<Rightarrow> os \<Rightarrow> os \<Rightarrow> bool" where
  "writing path n s0 s \<longleftrightarrow> kept s0 s \<and>
     (\<exists>ino pos rd. pcap_file path ino s \<and> 24 \<le> pos \<and> os_fd s = (os_fd s0)(n \<mapsto> Reg ino pos rd True False))"

lemma writing_held: "writing path n s0 s \<Longrightarrow> held path n s0 s"
  by (auto simp: writing_def held_def)

lemma free_fd_None: "free_fds s = n # fs \<Longrightarrow> os_fd s n = None"
proof -
  assume "free_fds s = n # fs"
  then have "n \<in> set (free_fds s)" by simp
  then show ?thesis by (simp add: free_fds_def)
qed

lemma header_ok_24: "header_ok e (take 24 d) \<Longrightarrow> 24 \<le> length d"
  by (auto simp: header_ok_def)

lemma write_at_keeps: "24 \<le> pos \<Longrightarrow> 24 \<le> length d \<Longrightarrow> take 24 (write_at pos new d) = take 24 d"
  by (simp add: write_at_def min_def)

lemma close_held:
  assumes "held path n s0 s" and "os_fd s0 n = None"
  shows "\<exists>s'. close_fd (int n) s = (0, s') \<and> at_rest path s0 s'"
  using assms
  by (auto simp: held_def at_rest_def kept_def pcap_file_def close_fd_def fd_of_def faultless_def set_fd_def fun_upd_idem)

lemma write_writing:
  assumes "writing path n s0 s"
  shows "\<exists>s'. write_fd (int n) bs s = (int (length bs), s') \<and> writing path n s0 s'"
proof -
  from assms obtain ino pos rd where w: "kept s0 s" "pcap_file path ino s" "24 \<le> pos" "os_fd s = (os_fd s0)(n \<mapsto> Reg ino pos rd True False)"
    by (auto simp: writing_def)
  then have f: "os_sched s (os_tick s) = Succeed" "fd_of s (int n) = Some (Reg ino pos rd True False)" by (auto simp: kept_def faultless_def fd_of_def)
  from w(2) have "24 \<le> length (os_data s ino)" by (auto simp: pcap_file_def dest: header_ok_24)
  with w(2,3) have "pcap_file path ino (snd (write_fd (int n) bs s))"
    unfolding write_fd_Succeed [OF f] by (simp add: pcap_file_def write_at_keeps)
  moreover have "kept s0 (snd (write_fd (int n) bs s))" using w(1) by (simp add: kept_def faultless_def)
  moreover have "os_fd (snd (write_fd (int n) bs s)) = (os_fd s0)(n \<mapsto> Reg ino (pos + length bs) rd True False)"
    unfolding write_fd_Succeed [OF f] using w(4) by simp
  moreover have "24 \<le> pos + length bs" using w(3) by simp
  ultimately have "writing path n s0 (snd (write_fd (int n) bs s))" by (auto simp: writing_def)
  then show ?thesis unfolding write_fd_Succeed [OF f] by simp
qed

lemma test_write_writing:
  assumes "writing path n s0 s" and "0 < n"
  shows "\<exists>s'. test_pcap_write clock (int n) icmp_dns (int (length icmp_dns)) s = Some (0, s') \<and> writing path n s0 s'"
proof -
  have l: "length icmp_dns = 98" by (simp add: icmp_dns_def)
  have h: "length (pkthdr_bytes e h) = 16" for e h by simp
  obtain sec usec where c: "clock (os_tick s) = (sec, usec)" by force
  let ?h = "pkthdr_bytes (os_endian s) \<lparr>ts = \<lparr>tv_sec = ucast sec, tv_usec = ucast usec\<rparr>, caplen = 98, len = 98\<rparr>"
  from write_writing [OF assms(1), of ?h] obtain s1 where w1: "write_fd (int n) ?h s = (16, s1)" "writing path n s0 s1" by auto
  from write_writing [OF w1(2), of icmp_dns] obtain s2 where w2: "write_fd (int n) icmp_dns s1 = (98, s2)" "writing path n s0 s2" unfolding l by auto
  have "test_pcap_write clock (int n) icmp_dns (int (length icmp_dns)) s = Some (0, s2)"
    using w1(1) w2(1) assms(2) l by (simp add: test_pcap_write_def c ldab_pcap_write_def)
  with w2(2) show ?thesis by blast
qed

lemma create_writing:
  assumes "faultless s" and "free_fds s = n # fs" and "0 < n"
  shows "\<exists>s'. ldab_pcap_create path LINKTYPE_EN10MB s = Some (int n, s') \<and> writing path n s s'"
proof -
  from ldab_pcap_create_total [OF assms] obtain s' where c: "ldab_pcap_create path LINKTYPE_EN10MB s = Some (int n, s')" by blast
  note f = ldab_pcap_create_frame [OF c]
  from ldab_pcap_create_ok [OF c] obtain ino where "os_fd s' = (os_fd s)(n \<mapsto> Reg ino 24 False True False)" "os_dir s' path = Some ino"
    "os_data s' ino = file_header_bytes (os_endian s) (pcap_hdr LINKTYPE_EN10MB)" by auto
  with f assms(1) header_ok_file_header_bytes have "writing path n s s'" by (auto simp: writing_def kept_def pcap_file_def faultless_def)
  with c show ?thesis by blast
qed

lemma at_rest_free: "at_rest path s0 s \<Longrightarrow> free_fds s = free_fds s0"
  by (simp add: at_rest_def kept_def free_fds_def)

lemma open_held:
  assumes "at_rest path s0 s" and "free_fds s0 = n # fs"
  shows "\<exists>s'. ldab_pcap_open path O_RDONLY s = (int n, s') \<and> held path n s0 s'"
proof -
  from assms(1) obtain ino where r: "faultless s" "kept s0 s" "os_fd s = os_fd s0" "pcap_file path ino s" by (auto simp: at_rest_def kept_def)
  note free = assms(2) [folded at_rest_free [OF assms(1)]]
  from ldab_pcap_open_rdonly_total [OF r(1) free] r(4) obtain s' where o: "ldab_pcap_open path O_RDONLY s = (int n, s')" by (auto simp: pcap_file_def)
  note d = ldab_pcap_open_rdonly_data [of path s, unfolded o snd_conv] ldab_pcap_open_frame [of path O_RDONLY s, unfolded o snd_conv]
  from ldab_pcap_open_ok [OF o] d r(4) have "os_fd s' = (os_fd s)(n \<mapsto> Reg ino 24 True False False)" by (auto simp: open_flag_defs pcap_file_def)
  with d r have "held path n s0 s'" by (auto simp: held_def kept_def pcap_file_def faultless_def)
  with o show ?thesis by blast
qed

text \<open>Opening for appending positions the descriptor at the end of the file.\<close>

lemma open_append_writing:
  assumes "at_rest path s0 s" and "free_fds s0 = n # fs"
  shows "\<exists>s'. ldab_pcap_open path (O_RDWR OR O_APPEND) s = (int n, s') \<and> writing path n s0 s'"
proof -
  from assms(1) obtain ino where r: "faultless s" "kept s0 s" "os_fd s = os_fd s0" "pcap_file path ino s" by (auto simp: at_rest_def kept_def)
  note free = assms(2) [folded at_rest_free [OF assms(1)]]
  from ldab_pcap_open_append_total [OF r(1) free] r(4) obtain s' where
    o: "ldab_pcap_open path (O_RDWR OR O_APPEND) s = (int n, s')" "os_data s' = os_data s" "os_dir s' = os_dir s" by (auto simp: pcap_file_def)
  note d = ldab_pcap_open_frame [of path "O_RDWR OR O_APPEND" s, unfolded o(1) snd_conv]
  from ldab_pcap_open_ok [OF o(1)] o r(4) have "os_fd s' = (os_fd s)(n \<mapsto> Reg ino (length (os_data s ino)) True True False)"
    by (auto simp: open_flag_defs pcap_file_def)
  moreover have "24 \<le> length (os_data s ino)" using r(4) by (auto simp: pcap_file_def dest: header_ok_24)
  ultimately have "writing path n s0 s'" using d o r by (auto simp: writing_def kept_def pcap_file_def faultless_def)
  with o show ?thesis by blast
qed

lemma swapped_header_ok: "header_ok e (file_header_bytes e swapped_pcap_file_header_init)"
  by (simp add: header_ok_def file_header_roundtrip swapped_pcap_file_header_init_def bswap_magic)

lemma overwrite_header:
  assumes "at_rest path s0 s" and "free_fds s0 = n # fs"
  shows "\<exists>s1 s2. open_file path O_WRONLY s = (int n, s1) \<and>
    write_fd (int n) (file_header_bytes (os_endian s1) swapped_pcap_file_header_init) s1 = (24, s2) \<and> writing path n s0 s2"
proof -
  from assms(1) obtain ino where r: "faultless s" "kept s0 s" "os_fd s = os_fd s0" "pcap_file path ino s" by (auto simp: at_rest_def kept_def)
  note free = assms(2) [folded at_rest_free [OF assms(1)]]
  from open_file_total [OF r(1) free, of path ino O_WRONLY] r(4) obtain s1 where o: "open_file path O_WRONLY s = (int n, s1)" by (auto simp: pcap_file_def)
  have d1: "os_data s1 = os_data s" "os_dir s1 = os_dir s"
    using o by (auto simp: open_file_def syscall_def Let_def open_flag_defs split: outcome.splits option.splits)
  note f1 = open_file_frame [of path O_WRONLY s, unfolded o snd_conv]
  from open_file_ok [OF o] d1 r(4) have fd1: "os_fd s1 = (os_fd s)(n \<mapsto> Reg ino 0 False True False)" by (auto simp: pcap_file_def open_flag_defs)
  have sc: "os_sched s1 (os_tick s1) = Succeed" using f1 r(1) by (simp add: faultlessD)
  from fd1 have f: "fd_of s1 (int n) = Some (Reg ino 0 False True False)" by (simp add: fd_of_def)
  let ?h = "file_header_bytes (os_endian s1) swapped_pcap_file_header_init"
  have "writing path n s0 (snd (write_fd (int n) ?h s1))"
    unfolding write_fd_Succeed [OF sc f] using r(2,4) f1 d1 fd1 r(3) swapped_header_ok
    by (auto simp: writing_def kept_def pcap_file_def faultless_def write_at_def)
  moreover have "fst (write_fd (int n) ?h s1) = 24" unfolding write_fd_Succeed [OF sc f] by simp
  ultimately show ?thesis using o by (metis prod.collapse)
qed

lemma destroy_rest:
  assumes "at_rest path s0 s" and "0 < n" and "os_fd s0 n = None"
  shows "\<exists>s'. ldab_pcap_destroy (int n) path s = Some s' \<and> os_fd s' = os_fd s0 \<and> os_dir s' path = None"
  using assms by (auto simp: at_rest_def kept_def pcap_file_def ldab_pcap_destroy_def close_fd_def unlink_def syscall_def fd_of_def faultless_def)

text \<open>
  C36: The unit test of the PCAP layer passes: in a run without system call failures, with a free descriptor (the lowest not 0) and whatever
  the clock gives, none of its assertions fails, whether its file existed before or not. It creates the file, writes to it, opens it again for reading, appends
  to it, replaces its header by one of the other byte order, opens that, and at the end the file is gone and no descriptor is left open.
\<close>

theorem test_pcap_passes:
  assumes "faultless s" and "free_fds s = n # fs" and "0 < n"
  shows "\<exists>s'. test_pcap_main clock s = Some (0, s') \<and> os_fd s' = os_fd s \<and> os_dir s' test_path = None"
proof -
  note fd = free_fd_None [OF assms(2)]
  from create_writing [OF assms] obtain s1 where 1: "ldab_pcap_create test_path LINKTYPE_EN10MB s = Some (int n, s1)" "writing test_path n s s1" by blast
  from test_write_writing [OF 1(2) assms(3)] obtain s2 where
    2: "test_pcap_write clock (int n) icmp_dns (int (length icmp_dns)) s1 = Some (0, s2)" "writing test_path n s s2" by blast
  from close_held [OF writing_held [OF 2(2)] fd] obtain s3 where 3: "close_fd (int n) s2 = (0, s3)" "at_rest test_path s s3" by blast
  from open_held [OF 3(2) assms(2)] obtain s4 where 4: "ldab_pcap_open test_path O_RDONLY s3 = (int n, s4)" "held test_path n s s4" by blast
  from close_held [OF 4(2) fd] obtain s5 where 5: "close_fd (int n) s4 = (0, s5)" "at_rest test_path s s5" by blast
  from open_append_writing [OF 5(2) assms(2)] obtain s6 where
    6: "ldab_pcap_open test_path (O_RDWR OR O_APPEND) s5 = (int n, s6)" "writing test_path n s s6" by blast
  from test_write_writing [OF 6(2) assms(3)] obtain s7 where
    7: "test_pcap_write clock (int n) icmp_dns (int (length icmp_dns)) s6 = Some (0, s7)" "writing test_path n s s7" by blast
  from close_held [OF writing_held [OF 7(2)] fd] obtain s8 where 8: "close_fd (int n) s7 = (0, s8)" "at_rest test_path s s8" by blast
  from open_held [OF 8(2) assms(2)] obtain s9 where 9: "ldab_pcap_open test_path O_RDONLY s8 = (int n, s9)" "held test_path n s s9" by blast
  from close_held [OF 9(2) fd] obtain sa where a: "close_fd (int n) s9 = (0, sa)" "at_rest test_path s sa" by blast
  from overwrite_header [OF a(2) assms(2)] obtain sb sc where b: "open_file test_path O_WRONLY sa = (int n, sb)"
    "write_fd (int n) (file_header_bytes (os_endian sb) swapped_pcap_file_header_init) sb = (24, sc)" "writing test_path n s sc" by blast
  from test_write_writing [OF b(3) assms(3)] obtain sd where
    d: "test_pcap_write clock (int n) icmp_dns (int (length icmp_dns)) sc = Some (0, sd)" "writing test_path n s sd" by blast
  from close_held [OF writing_held [OF d(2)] fd] obtain se where e: "close_fd (int n) sd = (0, se)" "at_rest test_path s se" by blast
  from open_held [OF e(2) assms(2)] obtain sf where f: "ldab_pcap_open test_path O_RDONLY se = (int n, sf)" "held test_path n s sf" by blast
  from close_held [OF f(2) fd] obtain sg where g: "close_fd (int n) sf = (0, sg)" "at_rest test_path s sg" by blast
  from destroy_rest [OF g(2) assms(3) fd] obtain s' where
    "ldab_pcap_destroy (int n) test_path sg = Some s'" "os_fd s' = os_fd s" "os_dir s' test_path = None" by blast
  with 1(1) 2(1) 3(1) 4(1) 5(1) 6(1) 7(1) 8(1) 9(1) a(1) b(1,2) d(1) e(1) f(1) g(1) assms(3) show ?thesis
    by (simp add: test_pcap_main_def assert_def ldab_pcap_close_def)
qed

theorem test_pcap_passes_witness:
  "\<exists>s'. test_pcap_main (\<lambda>t. (of_nat t, 0)) (boot (\<lambda>_. Succeed)) = Some (0, s') \<and> os_fd s' 3 = None"
  using test_pcap_passes [OF faultless_boot free_fds_boot, of "\<lambda>t. (of_nat t, 0)"] by auto

end
