(* ===== verification/Client_Safety.thy ===== *)
theory Client_Safety
  imports Client_Interface
begin

text \<open>
  The actions of the client return on every command line, whatever allocations and system calls fail, as long as the server answers:
  no branch of an option table frees a block twice or writes through a pointer that was not set, and every file is closed again.
  The locale \<open>option_loop\<close> states what the branches of a table promise and shows that reading the options keeps it;
  its interpretations are the tables of the actions. The lists of sessions and threads go well only without
  an identifier, see \<open>no_ids\<close>.
\<close>

section \<open>Answers\<close>

text \<open>The message type of the answer to each procedure, as \<^verbatim>\<open>src/libdabba-rpc/dabba.proto\<close> declares it.\<close>

fun typed :: "call \<Rightarrow> answer \<Rightarrow> bool" where
  "typed (Session Capture_Get) ans = (\<exists>l. ans = Captures l)"
| "typed (Session Replay_Get) ans = (\<exists>l. ans = Replays l)"
| "typed (Session Thread_Get) ans = (\<exists>l. ans = Threads l)"
| "typed (Session Thread_Capabilities_Get) ans = (\<exists>l. ans = Thread_Capabilities l)"
| "typed (Interface_Get Status ns) ans = (\<exists>l. ans = Status_List l)"
| "typed (Interface_Get Driver ns) ans = (\<exists>l. ans = Driver_List l)"
| "typed (Interface_Get Pauses ns) ans = (\<exists>l. ans = Pause_List l)"
| "typed (Interface_Get Offload ns) ans = (\<exists>l. ans = Offload_List l)"
| "typed (Interface_Get Settings ns) ans = (\<exists>l. ans = Settings_List l)"
| "typed (Interface_Get Coalescing ns) ans = (\<exists>l. ans = Coalesce_List l)"
| "typed (Interface_Get Capabilities ns) ans = (\<exists>l. ans = Capability_List l)"
| "typed (Interface_Get Statistics ns) ans = (\<exists>l. ans = Statistics_List l)"
| "typed (No_Id q) ans = typed q ans"
| "typed q ans = (\<exists>rc. ans = Error_Code rc)"

definition answering :: "'d env \<Rightarrow> bool" where
  "answering env \<longleftrightarrow> (\<forall>type name q d. \<exists>ans d'. e_call env type name q d = Some (ans, d') \<and> typed q ans)"

text \<open>A remote call that is answered; it leaves the system of the client alone.\<close>

definition returning :: "('a \<Rightarrow> 'd client \<Rightarrow> (int \<times> 'd client) option) \<Rightarrow> bool" where
  "returning rpc \<longleftrightarrow> (\<forall>a c. \<exists>c'. rpc a c = Some (0, c') \<and> c_os c' = c_os c)"

lemma rpc_invoke_returns:
  assumes "answering env" and "\<And>ans. typed q ans \<Longrightarrow> \<exists>str. print ans = Some str"
  shows "\<exists>c'. rpc_invoke env type name q print c = Some (0, c') \<and> c_os c' = c_os c"
proof -
  from assms(1) obtain ans d' where e: "e_call env type name q (c_peer c) = Some (ans, d')" "typed q ans" unfolding answering_def by blast
  from assms(2) [OF e(2)] obtain str where "print ans = Some str" by blast
  with e(1) show ?thesis by (simp add: rpc_invoke_def printf_def)
qed

section \<open>Option loops\<close>

primrec opt_all :: "('b \<Rightarrow> bool) \<Rightarrow> 'b opt \<Rightarrow> bool" where
  "opt_all Q (No_Argument n b) = Q b"
| "opt_all Q (Required_Argument n f) = (\<forall>v. Q (f v))"
| "opt_all Q (Optional_Argument n f) = (\<forall>v. Q (f v))"

lemma find_option_in: "find_option opts name = Some o1 \<Longrightarrow> o1 \<in> set opts"
  by (auto simp: find_option_def find_Some_iff split: option.splits list.splits dest!: arg_cong [where f = set])

lemma getopt_all:
  assumes "\<And>w o1. w \<in> set args \<Longrightarrow> is_option w \<Longrightarrow> find_option opts (fst (split_arg w)) = Some o1 \<Longrightarrow> opt_all Q o1"
    and "Some b \<in> set (getopt_long_only opts args)"
  shows "Q b"
  using assms
proof (induction "length args" arbitrary: args rule: less_induct)
  case less
  show ?case
  proof (cases args)
    case (Cons a as)
    obtain name val where sp: "split_arg a = (name, val)" by force
    have ih: "Some b \<in> set (getopt_long_only opts xs) \<Longrightarrow> Q b" if "length xs \<le> length as" "set xs \<subseteq> set as" for xs
      using less.hyps [of xs] less.prems(1) that Cons by auto
    have tl: "set (tl as) \<subseteq> set as" by (cases as) auto
    note g = less.prems(2) [unfolded Cons getopt_long_only.simps sp Let_def prod.case]
    show ?thesis
    proof (cases "find_option opts name")
      case None
      with g ih [of as] show ?thesis by (auto split: if_splits)
    next
      case (Some o1)
      with less.prems(1) [of a o1] sp Cons have q: "is_option a \<Longrightarrow> opt_all Q o1" by simp
      show ?thesis
      proof (cases o1)
        case Required_Argument
        with Some q g ih [of as] ih [of "tl as"] tl show ?thesis by (cases val; cases as) (auto split: if_splits)
      qed (use Some q g ih [of as] in \<open>auto split: if_splits\<close>)
    qed
  qed (use less.prems in simp)
qed

text \<open>What a branch keeps: \<open>P\<close> of the message and the system, and the descriptors.\<close>

definition verdict_ok :: "('m \<Rightarrow> os \<Rightarrow> bool) \<Rightarrow> 'm verdict \<Rightarrow> os \<Rightarrow> bool" where
  "verdict_ok P v s = (case v of Next a \<Rightarrow> P (a_msg a) s | Usage a \<Rightarrow> P (a_msg a) s | Out rc a \<Rightarrow> P (a_msg a) s | Return rc \<Rightarrow> True)"

lemma verdict_ok_simps [simp]:
  "verdict_ok P (Next a) s = P (a_msg a) s" "verdict_ok P (Usage a) s = P (a_msg a) s" "verdict_ok P (Out rc a) s = P (a_msg a) s"
  "verdict_ok P (Return rc) s"
  by (simp_all add: verdict_ok_def)

definition branch_ok :: "('m \<Rightarrow> os \<Rightarrow> bool) \<Rightarrow> 'm branch \<Rightarrow> bool" where
  "branch_ok P b \<longleftrightarrow> (\<forall>a s. P (a_msg a) s \<longrightarrow> (\<exists>v s'. b a s = Some (v, s') \<and> os_fd s' = os_fd s \<and> verdict_ok P v s'))"

lemma run_options_ok:
  assumes "\<And>b. Some b \<in> set bs \<Longrightarrow> branch_ok P b" and "P (a_msg a) s"
  shows "\<exists>v s'. run_options bs a s = Some (v, s') \<and> os_fd s' = os_fd s \<and> verdict_ok P v s'"
  using assms
proof (induction bs a s rule: run_options.induct)
  case (3 b bs a s)
  from "3.prems" obtain v s1 where b: "b a s = Some (v, s1)" "os_fd s1 = os_fd s" "verdict_ok P v s1"
    unfolding branch_ok_def by (metis list.set_intros(1))
  show ?case
  proof (cases v)
    case (Next a1)
    with "3.IH" [OF b(1) refl, of a1] "3.prems"(1) b show ?thesis by auto
  qed (use b in auto)
qed auto

lemma parse_options_ok:
  assumes "\<And>b. Some b \<in> set (getopt_long_only opts argv) \<Longrightarrow> branch_ok P b" and "P msg (c_os c)"
  obtains v c' where "parse_options opts msg argv c = Some (v, c')" "os_fd (c_os c') = os_fd (c_os c)" "verdict_ok P v (c_os c')"
proof -
  from run_options_ok [where bs = "getopt_long_only opts argv", OF assms(1),
      where a = "\<lparr>a_type = ADDRESS_TCP, a_name = DABBA_RPC_DEFAULT_TCP_SERVER_NAME, a_msg = msg\<rparr>" and s = "c_os c"] assms(2)
  obtain v s' where "run_options (getopt_long_only opts argv)
      \<lparr>a_type = ADDRESS_TCP, a_name = DABBA_RPC_DEFAULT_TCP_SERVER_NAME, a_msg = msg\<rparr> (c_os c) = Some (v, s')"
    "os_fd s' = os_fd (c_os c)" "verdict_ok P v s'" by auto
  then show ?thesis
    by (intro that [of v "case v of Usage a \<Rightarrow> printf (show_usage opts) (c\<lparr>c_os := s'\<rparr>) | _ \<Rightarrow> c\<lparr>c_os := s'\<rparr>"])
      (auto simp: parse_options_def printf_def split: verdict.split)
qed

text \<open>An action: options, connection, call.\<close>

lemma run_action_ok:
  assumes "\<And>b. Some b \<in> set (getopt_long_only opts argv) \<Longrightarrow> branch_ok P b" and "P msg (c_os c)" and "returning rpc"
  obtains v c1 rc c2 where "parse_options opts msg argv c = Some (v, c1)" "finish env rpc (v, c1) = Some (rc, c2)"
    "os_fd (c_os c2) = os_fd (c_os c)" "verdict_ok P v (c_os c2)"
proof -
  obtain v c1 where p: "parse_options opts msg argv c = Some (v, c1)" "os_fd (c_os c1) = os_fd (c_os c)" "verdict_ok P v (c_os c1)"
    using parse_options_ok [of opts argv P msg c] assms(1,2) by metis
  have "\<exists>rc c2. finish env rpc (v, c1) = Some (rc, c2) \<and> c_os c2 = c_os c1"
    using assms(3) by (cases v) (auto simp: finish_def returning_def, metis)
  with p show ?thesis using that by metis
qed

locale option_loop =
  fixes opts :: "'m branch opt list" and P :: "'m \<Rightarrow> os \<Rightarrow> bool"
  assumes branches: "o1 \<in> set opts \<Longrightarrow> opt_all (branch_ok P) o1"
begin

lemma action_ok:
  assumes "P msg (c_os c)" and "returning rpc"
  obtains v c1 rc c2 where "parse_options opts msg argv c = Some (v, c1)" "finish env rpc (v, c1) = Some (rc, c2)"
    "os_fd (c_os c2) = os_fd (c_os c)" "verdict_ok P v (c_os c2)"
proof -
  have "branch_ok P b" if "Some b \<in> set (getopt_long_only opts argv)" for b
    using getopt_all [OF _ that] branches find_option_in by blast
  from run_action_ok [where opts = opts and argv = argv and env = env, OF this assms] show ?thesis using that by blast
qed

end

section \<open>Branches\<close>

lemma server_options_ok: "o1 \<in> set server_options \<Longrightarrow> opt_all (branch_ok P) o1"
  by (auto simp: server_options_def branch_ok_def opt_tcp_def opt_local_def opt_help_def)

lemma help_ok: "branch_ok P opt_help"
  by (simp add: branch_ok_def opt_help_def)

lemma store_ok: "(\<And>v m s. P m s \<Longrightarrow> P (f v m) s) \<Longrightarrow> branch_ok P (store f v)"
  by (simp add: branch_ok_def store_def)

text \<open>Messages that own nothing, and those with the block of an identifier.\<close>

definition plain :: "'m \<Rightarrow> os \<Rightarrow> bool" where
  "plain m s = True"

definition id_owned :: "'m \<times> nat option \<Rightarrow> os \<Rightarrow> bool" where
  "id_owned m s = (case snd m of None \<Rightarrow> True | Some b \<Rightarrow> b \<in> os_heap s)"

lemma id_owned_simps [simp]: "id_owned (m, None) s" "id_owned (m, Some b) s = (b \<in> os_heap s)" "id_owned (apfst f p) s = id_owned p s"
  by (simp_all add: id_owned_def)

lemma id_branches_ok:
  "branch_ok id_owned (opt_id upd v)" "branch_ok id_owned (opt_bool f v)" "branch_ok id_owned (opt_u32 f v)" "branch_ok id_owned (opt_conv g f v)"
  "branch_ok id_owned (store (\<lambda>v. apfst (h v)) v)"
  by (auto simp: branch_ok_def opt_id_def opt_bool_def opt_u32_def opt_conv_def store_def malloc_def Let_def split_beta split: outcome.split if_splits)

lemma plain_store_ok: "branch_ok plain (store f v)"
  by (simp add: branch_ok_def store_def plain_def)

interpretation sv: option_loop server_options plain
  by unfold_locales (rule server_options_ok)

interpretation ido: option_loop id_option plain
  by unfold_locales (auto simp: id_option_def plain_store_ok intro: server_options_ok)

interpretation rs: option_loop replay_start_option plain
  by unfold_locales (auto simp: replay_start_option_def plain_store_ok intro: server_options_ok)

interpretation tm: option_loop thread_modify_option id_owned
  by unfold_locales (auto simp: thread_modify_option_def id_branches_ok help_ok intro: server_options_ok)

interpretation stm: option_loop status_modify_option id_owned
  by unfold_locales (auto simp: status_modify_option_def id_branches_ok intro: server_options_ok)

interpretation pam: option_loop pause_modify_option id_owned
  by unfold_locales (auto simp: pause_modify_option_def id_branches_ok intro: server_options_ok)

interpretation ofm: option_loop offload_modify_option id_owned
  by unfold_locales (auto simp: offload_modify_option_def id_branches_ok intro: server_options_ok)

interpretation sem: option_loop settings_modify_option id_owned
  by unfold_locales (auto simp: settings_modify_option_def id_branches_ok intro: server_options_ok)

interpretation com: option_loop coalesce_modify_option id_owned
  by unfold_locales (auto simp: coalesce_modify_option_def id_branches_ok help_ok intro: server_options_ok)

interpretation cam: option_loop capabilities_modify_option id_owned
  by unfold_locales (auto simp: capabilities_modify_option_def id_branches_ok intro: server_options_ok)

text \<open>A query owns its array and the blocks of its elements.\<close>

definition list_owned :: "id_list \<Rightarrow> os \<Rightarrow> bool" where
  "list_owned l s = (\<exists>H. owns H (map fst (il_ids l) @ somes [il_arr l]) s)"

lemma interface_id_ok: "branch_ok list_owned (opt_interface_id v)"
  unfolding branch_ok_def
proof (intro allI impI)
  fix a :: "id_list cmd_args" and s
  assume "list_owned (a_msg a) s"
  then obtain H where "owns H (map fst (il_ids (a_msg a)) @ somes [il_arr (a_msg a)]) s" by (auto simp: list_owned_def)
  from owns_grow [OF this] obtain b s1 where r: "realloc (il_arr (a_msg a)) s = Some (b, s1)"
    "owns H (map fst (il_ids (a_msg a)) @ somes [if b = None then il_arr (a_msg a) else b]) s1" "os_fd s1 = os_fd s" by blast
  show "\<exists>v' s'. opt_interface_id v a s = Some (v', s') \<and> os_fd s' = os_fd s \<and> verdict_ok list_owned v' s'"
  proof (cases b)
    case None
    with r show ?thesis by (simp add: opt_interface_id_def)
  next
    case (Some e)
    obtain k s2 where m: "malloc s1 = (k, s2)" by force
    from owns_alloc [OF m r(2)] have o: "owns H (somes [k] @ map fst (il_ids (a_msg a)) @ [e]) s2" "os_fd s2 = os_fd s1" using Some by auto
    show ?thesis
    proof (cases k)
      case None
      with r Some m o show ?thesis by (simp add: opt_interface_id_def)
    next
      case k: (Some d)
      with o(1) have "owns H ((map fst (il_ids (a_msg a)) @ [d]) @ [e]) s2" by (auto simp: owns_def)
      with k r Some m o(2) show ?thesis by (auto simp: opt_interface_id_def list_owned_def)
    qed
  qed
qed

interpretation ig: option_loop interface_get_option list_owned
  by unfold_locales (auto simp: interface_get_option_def interface_id_ok intro: server_options_ok)

lemma id_list_free_ok: "list_owned l s \<Longrightarrow> \<exists>s'. id_list_free l s = Some s' \<and> os_fd s' = os_fd s"
proof -
  assume "list_owned l s"
  then obtain H where o: "owns H (map fst (il_ids l) @ somes [il_arr l]) s" by (auto simp: list_owned_def)
  then have "free_all (map fst (il_ids l)) s = Some (s\<lparr>os_heap := os_heap s - set (map fst (il_ids l))\<rparr>)"
    by (intro free_all_ok) (auto simp: owns_def)
  with o show ?thesis by (cases "il_arr l") (auto simp: id_list_free_def free_def owns_def)
qed

text \<open>A capture owns the filter it has read.\<close>

definition filter_owned :: "capture_request \<times> pbuf_sock_fprog \<Rightarrow> os \<Rightarrow> bool" where
  "filter_owned m s = ((\<exists>H. owns H (pbuf_blocks (snd m)) s) \<and> (pb_arr (snd m) = None \<longrightarrow> pb_filter (snd m) = []))"

lemma filter_owned_apfst [simp]: "filter_owned (apfst f m) s = filter_owned m s"
  by (simp add: filter_owned_def)

lemma sock_filter_ok: "branch_ok filter_owned (opt_sock_filter v)"
  unfolding branch_ok_def
proof (intro allI impI)
  fix a :: "(capture_request \<times> pbuf_sock_fprog) cmd_args" and s
  assume "filter_owned (a_msg a) s"
  then obtain H where o: "owns H (pbuf_blocks (snd (a_msg a))) s" "pb_arr (snd (a_msg a)) = None \<longrightarrow> pb_filter (snd (a_msg a)) = []"
    by (auto simp: filter_owned_def)
  from parse_total [OF o, of v] obtain rc p s' L where "sock_filter_parse v (snd (a_msg a)) s = Some ((rc, p), s')" "os_fd s' = os_fd s"
    "owns H (L @ pbuf_blocks p) s'" "rc = 0 \<longrightarrow> L = []" "pb_arr p = None \<longrightarrow> pb_filter p = []" by (elim exE conjE) (rule that)
  then show "\<exists>v' s'. opt_sock_filter v a s = Some (v', s') \<and> os_fd s' = os_fd s \<and> verdict_ok filter_owned v' s'"
    by (auto simp: opt_sock_filter_def filter_owned_def)
qed

interpretation cs: option_loop capture_start_option filter_owned
  by unfold_locales
    (auto simp: capture_start_option_def sock_filter_ok store_ok branch_ok_def [of _ opt_append] opt_append_def intro: server_options_ok)

section \<open>Actions\<close>

lemma typed_error: "typed q (Error_Code None) \<Longrightarrow> typed q ans \<Longrightarrow> \<exists>str. rpc_error_code_print env ans = Some str"
  by (induction q ans rule: typed.induct) (auto simp: rpc_error_code_print_def split: option.split)

lemmas rpc_change_defs = rpc_capture_start_def rpc_capture_stop_def rpc_capture_stop_all_def rpc_replay_start_def rpc_replay_stop_def
  rpc_replay_stop_all_def rpc_thread_modify_def modify_call_def rpc_interface_status_modify_def rpc_interface_pause_modify_def
  rpc_interface_offload_modify_def rpc_interface_settings_modify_def rpc_interface_coalesce_modify_def rpc_interface_capabilities_modify_def

lemmas rpc_query_defs = rpc_thread_capabilities_get_def thread_capabilities_print_def interface_query_def
  rpc_interface_status_get_def interface_status_list_print_def rpc_interface_driver_get_def interface_driver_list_print_def
  rpc_interface_pause_get_def interface_pause_list_print_def rpc_interface_offload_get_def interface_offload_list_print_def
  rpc_interface_settings_get_def interface_settings_list_print_def rpc_interface_coalesce_get_def interface_coalesce_list_print_def
  rpc_interface_capabilities_get_def interface_capabilities_list_print_def rpc_interface_statistics_get_def interface_statistics_list_print_def

lemma changes_return:
  assumes "answering env"
  shows "returning (rpc_capture_start env)"
    "returning (rpc_capture_stop env)"
    "returning (rpc_capture_stop_all env)"
    "returning (rpc_replay_start env)"
    "returning (rpc_replay_stop env)"
    "returning (rpc_replay_stop_all env)"
    "returning (rpc_thread_modify env)"
    "returning (rpc_interface_status_modify env)"
    "returning (rpc_interface_pause_modify env)"
    "returning (rpc_interface_offload_modify env)"
    "returning (rpc_interface_settings_modify env)"
    "returning (rpc_interface_coalesce_modify env)"
    "returning (rpc_interface_capabilities_modify env)"
  unfolding rpc_change_defs Let_def returning_def
  by ((intro allI, rule rpc_invoke_returns [OF assms], erule typed_error [rotated], simp)+)

lemma lists_return:
  assumes "answering env"
  shows "returning (rpc_capture_get env)" "returning (rpc_replay_get env)" "returning (rpc_thread_get env)"
  unfolding rpc_capture_get_def [abs_def] rpc_replay_get_def [abs_def] rpc_thread_get_def [abs_def] returning_def
    capture_settings_print_def [abs_def] replay_settings_print_def [abs_def] thread_print_def [abs_def]
  by ((intro allI, rule rpc_invoke_returns [OF assms], erule typed.elims; force)+)

lemma queries_return:
  assumes "answering env"
  shows "returning (rpc_thread_capabilities_get env)"
    "returning (rpc_interface_status_get env)"
    "returning (rpc_interface_driver_get env)"
    "returning (rpc_interface_pause_get env)"
    "returning (rpc_interface_offload_get env)"
    "returning (rpc_interface_settings_get env)"
    "returning (rpc_interface_coalesce_get env)"
    "returning (rpc_interface_capabilities_get env)"
    "returning (rpc_interface_statistics_get env)"
  unfolding rpc_query_defs returning_def
  by ((intro allI, rule rpc_invoke_returns [OF assms], erule typed.elims; force)+)

text \<open>An action that returns, with the descriptors as before, on a sound heap.\<close>

definition goes :: "'d command \<Rightarrow> int \<Rightarrow> string list \<Rightarrow> bool" where
  "goes f argc argv \<longleftrightarrow> (\<forall>c. heap_wf (c_os c) \<longrightarrow> (\<exists>r c'. f argc argv c = Some (r, c') \<and> os_fd (c_os c') = os_fd (c_os c)))"

context option_loop
begin

lemma ret_goes:
  fixes env :: "'d env"
  assumes "\<And>s. heap_wf s \<Longrightarrow> P msg s" and "returning rpc"
  shows "goes (\<lambda>argc argv c. ret (do { r \<leftarrow> parse_options opts msg argv c; finish env rpc r })) argc argv"
  unfolding goes_def
proof (intro allI impI)
  fix c :: "'d client"
  assume "heap_wf (c_os c)"
  from action_ok [OF assms(1) [OF this] assms(2), of argv env] obtain v c1 rc c2 where
    "parse_options opts msg argv c = Some (v, c1)" "finish env rpc (v, c1) = Some (rc, c2)" "os_fd (c_os c2) = os_fd (c_os c)" by metis
  then show "\<exists>r c'. ret (do { r \<leftarrow> parse_options opts msg argv c; finish env rpc r }) = Some (r, c') \<and> os_fd (c_os c') = os_fd (c_os c)"
    by (simp add: ret_def)
qed

end

lemma id_owned_free: "id_owned m s \<Longrightarrow> \<exists>s'. free (snd m) s = Some s' \<and> os_fd s' = os_fd s"
  by (cases "snd m") (auto simp: id_owned_def free_def)

lemma modify_goes:
  fixes env :: "'d env"
  assumes "option_loop opts id_owned" and "returning rpc"
  shows "goes (\<lambda>argc. modify env opts init rpc) argc argv"
  unfolding goes_def
proof (intro allI impI)
  fix c :: "'d client"
  have "id_owned (init, None) (c_os c)" by simp
  from option_loop.action_ok [OF assms(1) this assms(2), of argv env] obtain v c1 rc c2 where
    a: "parse_options opts (init, None) argv c = Some (v, c1)" "finish env rpc (v, c1) = Some (rc, c2)" "os_fd (c_os c2) = os_fd (c_os c)"
      "verdict_ok id_owned v (c_os c2)" by metis
  then show "\<exists>r c'. modify env opts init rpc argv c = Some (r, c') \<and> os_fd (c_os c') = os_fd (c_os c)"
    by (cases v) (auto simp: modify_def dest!: id_owned_free)
qed

lemma thread_modify_goes:
  fixes env :: "'d env"
  assumes env: "answering env"
  shows "goes (cmd_thread_modify env) argc argv"
  unfolding goes_def
proof (intro allI impI)
  fix c :: "'d client"
  have "id_owned thread_modify_init (c_os c)" by (simp add: thread_modify_init_def)
  from tm.action_ok [OF this changes_return(7) [OF env], of argv env] obtain v c1 rc c2 where
    "parse_options thread_modify_option thread_modify_init argv c = Some (v, c1)" "finish env (rpc_thread_modify env) (v, c1) = Some (rc, c2)"
    "os_fd (c_os c2) = os_fd (c_os c)" "verdict_ok id_owned v (c_os c2)" by metis
  then show "\<exists>r c'. cmd_thread_modify env argc argv c = Some (r, c') \<and> os_fd (c_os c') = os_fd (c_os c)"
    by (cases v) (auto simp: cmd_thread_modify_def dest!: id_owned_free)
qed

lemma interface_get_goes:
  fixes env :: "'d env"
  assumes "returning rpc"
  shows "goes (rpc_interface_get env rpc) argc argv"
  unfolding goes_def
proof (intro allI impI)
  fix c :: "'d client"
  assume "heap_wf (c_os c)"
  then have "list_owned \<lparr>il_arr = None, il_ids = []\<rparr> (c_os c)" by (auto simp: list_owned_def owns_def)
  from ig.action_ok [OF this assms, of argv env] obtain v c1 rc c2 where
    "parse_options interface_get_option \<lparr>il_arr = None, il_ids = []\<rparr> argv c = Some (v, c1)" "finish env rpc (v, c1) = Some (rc, c2)"
    "os_fd (c_os c2) = os_fd (c_os c)" "verdict_ok list_owned v (c_os c2)" by metis
  then show "\<exists>r c'. rpc_interface_get env rpc argc argv c = Some (r, c') \<and> os_fd (c_os c') = os_fd (c_os c)"
    by (cases v) (auto simp: rpc_interface_get_def dest!: id_list_free_ok)
qed

lemma filter_owned_free: "filter_owned m s \<Longrightarrow> \<exists>p s'. sock_filter_destroy (snd m) s = Some (p, s') \<and> os_fd s' = os_fd s"
proof -
  assume "filter_owned m s"
  then obtain H where "owns H ([] @ pbuf_blocks (snd m)) s" "pb_arr (snd m) = None \<longrightarrow> pb_filter (snd m) = []" by (auto simp: filter_owned_def)
  from destroy_owned [OF this] show ?thesis by auto
qed

lemma capture_start_goes:
  fixes env :: "'d env"
  assumes env: "answering env"
  shows "goes (cmd_capture_start env) argc argv"
  unfolding goes_def
proof (intro allI impI)
  fix c :: "'d client"
  assume "heap_wf (c_os c)"
  then have "filter_owned capture_start_init (c_os c)"
    by (auto simp: filter_owned_def capture_start_init_def owns_def pbuf_blocks_def dabba__sock_fprog__init_def)
  from cs.action_ok [OF this changes_return(1) [OF env], of argv env] obtain v c1 rc c2 where
    "parse_options capture_start_option capture_start_init argv c = Some (v, c1)" "finish env (rpc_capture_start env) (v, c1) = Some (rc, c2)"
    "os_fd (c_os c2) = os_fd (c_os c)" "verdict_ok filter_owned v (c_os c2)" by metis
  then show "\<exists>r c'. cmd_capture_start env argc argv c = Some (r, c') \<and> os_fd (c_os c') = os_fd (c_os c)"
    by (cases v) (auto simp: cmd_capture_start_def dest!: filter_owned_free)
qed

lemma plain_actions_go:
  assumes "answering env"
  shows "goes (cmd_capture_stop env) argc argv" "goes (cmd_capture_stop_all env) argc argv" "goes (cmd_replay_start env) argc argv"
    "goes (cmd_replay_stop env) argc argv" "goes (cmd_replay_stop_all env) argc argv" "goes (cmd_thread_capabilities_get env) argc argv"
  unfolding cmd_capture_stop_def [abs_def] cmd_capture_stop_all_def [abs_def] cmd_replay_start_def [abs_def] cmd_replay_stop_def [abs_def]
    cmd_replay_stop_all_def [abs_def] cmd_thread_capabilities_get_def [abs_def]
  using ido.ret_goes sv.ret_goes rs.ret_goes changes_return(2-6) [OF assms] queries_return(1) [OF assms] by (simp_all add: plain_def)

lemma modify_actions_go:
  assumes "answering env"
  shows "goes (cmd_interface_status_modify env) argc argv" "goes (cmd_interface_pause_modify env) argc argv"
    "goes (cmd_interface_offload_modify env) argc argv" "goes (cmd_interface_settings_modify env) argc argv"
    "goes (cmd_interface_coalesce_modify env) argc argv" "goes (cmd_interface_capabilities_modify env) argc argv"
  unfolding cmd_interface_status_modify_def [abs_def] cmd_interface_pause_modify_def [abs_def] cmd_interface_offload_modify_def [abs_def]
    cmd_interface_settings_modify_def [abs_def] cmd_interface_coalesce_modify_def [abs_def] cmd_interface_capabilities_modify_def [abs_def]
  by (rule modify_goes [OF stm.option_loop_axioms changes_return(8) [OF assms]] modify_goes [OF pam.option_loop_axioms changes_return(9) [OF assms]]
    modify_goes [OF ofm.option_loop_axioms changes_return(10) [OF assms]] modify_goes [OF sem.option_loop_axioms changes_return(11) [OF assms]]
    modify_goes [OF com.option_loop_axioms changes_return(12) [OF assms]] modify_goes [OF cam.option_loop_axioms changes_return(13) [OF assms]])+

text \<open>A list of sessions or threads goes well when no option stands for \<^verbatim>\<open>--id\<close>.\<close>

definition without_id :: "string list \<Rightarrow> bool" where
  "without_id args \<longleftrightarrow> (\<forall>w \<in> set args. is_option w \<longrightarrow> fst (split_arg w) \<notin> {''i'', ''id''})"

lemma find_id_option:
  assumes "find_option id_list_option name = Some o1" and "name \<notin> {''i'', ''id''}"
  shows "o1 \<in> set server_options"
proof (rule ccontr)
  assume "o1 \<notin> set server_options"
  with find_option_in [OF assms(1)] have o1: "o1 = Required_Argument ''id'' no_ids" by (simp add: id_list_option_def)
  have "find (\<lambda>o1. opt_name o1 = name) id_list_option = None"
  proof (rule ccontr)
    assume "find (\<lambda>o1. opt_name o1 = name) id_list_option \<noteq> None"
    then obtain x where x: "find (\<lambda>o1. opt_name o1 = name) id_list_option = Some x" by blast
    with assms(1) have "o1 = x" by (simp add: find_option_def)
    moreover have "opt_name x = name" using x by (auto simp: find_Some_iff)
    ultimately have "opt_name o1 = name" by simp
    with o1 assms(2) show False by simp
  qed
  with assms(1) have "filter (\<lambda>o1. take (length name) (opt_name o1) = name) id_list_option = [o1]"
    by (auto simp: find_option_def split: list.splits)
  then have "take (length name) ''id'' = name" "name \<noteq> []" using o1 by (auto simp: id_list_option_def server_options_def split: if_splits)
  with assms(2) show False by (cases name rule: remdups_adj.cases) auto
qed

lemma get_goes:
  fixes env :: "'d env"
  assumes "returning rpc" and "without_id args"
  shows "goes (\<lambda>argc argv. get_session env rpc args) argc argv"
  unfolding goes_def
proof (intro allI impI)
  fix c :: "'d client"
  have "branch_ok (\<lambda>m s. m = None) b" if "Some b \<in> set (getopt_long_only id_list_option args)" for b
    using getopt_all [OF _ that] assms(2) find_id_option server_options_ok unfolding without_id_def by metis
  from run_action_ok [OF this _ assms(1), where env = env and c = c and msg = None] obtain v c1 rc c2 where
    "parse_options id_list_option None args c = Some (v, c1)" "finish env rpc (v, c1) = Some (rc, c2)"
    "os_fd (c_os c2) = os_fd (c_os c)" "verdict_ok (\<lambda>m s. m = None) v (c_os c2)" by metis
  then show "\<exists>r c'. get_session env rpc args c = Some (r, c') \<and> os_fd (c_os c') = os_fd (c_os c)"
    by (cases v) (auto simp: get_session_def free_def)
qed

section \<open>Command lines\<close>

definition words_length :: "string list \<Rightarrow> nat" where
  "words_length ws = sum_list (map (\<lambda>w. Suc (length w)) ws)"

lemma help_name_short: "offset + words_length ws \<le> NAME_MAX \<Longrightarrow> \<exists>page'. help_name offset ws page = Some page'"
  by (induction offset ws page rule: help_name.induct) (auto simp: words_length_def)

lemma words_length_take: "words_length (take n ws) \<le> words_length ws"
  unfolding words_length_def by (metis append_take_drop_id le_add1 map_append sum_list_append)

lemma help_goes:
  assumes "words_length argv \<le> 250"
  shows "goes (cmd_help env) argc argv"
proof -
  have "5 + words_length (take (nat argc) argv) \<le> NAME_MAX" using assms words_length_take [of "nat argc" argv] by (simp add: NAME_MAX_def)
  from help_name_short [OF this, of "''dabba''"] show ?thesis by (auto simp: goes_def cmd_help_def printf_def split: option.split)
qed

lemma builtin_goes: "goes fn argc argv \<Longrightarrow> goes (run_builtin fn) argc argv"
  unfolding goes_def run_builtin_def by (fastforce split: outcome_of.split simp: Let_def)

lemma action_goes:
  assumes "\<And>w args fn. argv = w # args \<Longrightarrow> map_of cmd w = Some fn \<Longrightarrow> goes fn (argc - 1) args"
  shows "goes (cmd_run_action env cmd) argc argv"
proof (cases argv)
  case Nil
  then show ?thesis by (simp add: goes_def cmd_run_action_def cmd_help_def printf_def)
next
  case (Cons w args)
  show ?thesis
  proof (cases "map_of cmd w")
    case None
    with Cons show ?thesis by (simp add: goes_def cmd_run_action_def printf_def)
  next
    case (Some fn)
    from builtin_goes [OF assms [OF Cons Some]] Cons Some show ?thesis by (simp add: goes_def cmd_run_action_def)
  qed
qed

text \<open>Only \<^verbatim>\<open>help\<close> and \<^verbatim>\<open>version\<close> are put in the place of a first word, and no word is lengthened.\<close>

lemma help_args_other:
  assumes "help_args argc argv = w # args" and "w \<noteq> ''help''" and "w \<noteq> ''version''"
  shows "argv = w # args"
  using assms by (auto simp: help_args_def Let_def split: if_splits)

lemma help_args_length:
  assumes "help_args (int (length argv)) argv = w # args"
  shows "words_length args \<le> words_length argv"
proof -
  consider "argv = []" | x where "argv = [x]" | x y zs where "argv = x # y # zs" by (metis neq_Nil_conv)
  then show ?thesis using assms by cases (auto simp: help_args_def Let_def words_length_def split: if_splits)
qed

lemma command_goes:
  assumes "map_of cmd ''help'' = None" and "map_of cmd ''version'' = None"
    and "\<And>w args fn. argv = w # args \<Longrightarrow> map_of cmd w = Some fn \<Longrightarrow> goes fn (argc - 1) args"
  shows "goes (cmd_run_command env cmd) argc argv"
proof -
  have "goes (cmd_run_action env cmd) argc (help_args argc argv)"
    by (rule action_goes) (metis assms help_args_other option.distinct(1))
  then show ?thesis by (simp add: goes_def cmd_run_command_def)
qed

lemma interface_goes:
  assumes env: "answering env"
  shows "goes (cmd_interface env) argc argv"
proof -
  note go = modify_actions_go [OF env] queries_return(2-) [OF env, THEN interface_get_goes]
  have "goes (cmd_interface_capabilities env) i ws" "goes (cmd_interface_coalesce env) i ws" "goes (cmd_interface_driver env) i ws"
    "goes (cmd_interface_offload env) i ws" "goes (cmd_interface_pause env) i ws" "goes (cmd_interface_settings env) i ws"
    "goes (cmd_interface_statistics env) i ws" "goes (cmd_interface_status env) i ws" for i ws
    unfolding cmd_interface_capabilities_def cmd_interface_coalesce_def cmd_interface_driver_def cmd_interface_offload_def
      cmd_interface_pause_def cmd_interface_settings_def cmd_interface_statistics_def cmd_interface_status_def
    by (rule action_goes, auto simp: go split: if_splits)+
  then show ?thesis unfolding cmd_interface_def by (intro command_goes) (auto split: if_splits)
qed

lemma without_id_tl: "without_id args \<Longrightarrow> without_id (tl args)"
  by (cases args) (auto simp: without_id_def)

lemma lists_go:
  assumes "answering env" and "without_id argv"
  shows "goes (cmd_capture_get env) argc argv" "goes (cmd_replay_get env) argc argv" "goes (cmd_thread_get env) argc argv"
  using get_goes [OF lists_return(1) [OF assms(1)] assms(2)] get_goes [OF lists_return(2) [OF assms(1)] without_id_tl [OF assms(2)]]
    get_goes [OF lists_return(3) [OF assms(1)] assms(2)]
  by (simp_all add: goes_def cmd_capture_get_def cmd_replay_get_def cmd_thread_get_def)

text \<open>The lines whose first words are a table of sessions or threads and \<^verbatim>\<open>get\<close>.\<close>

definition id_free :: "string list \<Rightarrow> bool" where
  "id_free argv \<longleftrightarrow> (argv \<noteq> [] \<and> hd argv = ''get'' \<longrightarrow> without_id (tl argv))"

lemma capture_goes: "answering env \<Longrightarrow> id_free argv \<Longrightarrow> goes (cmd_capture env) argc argv"
  unfolding cmd_capture_def by (intro command_goes) (auto simp: id_free_def capture_start_goes plain_actions_go lists_go split: if_splits)

lemma replay_goes: "answering env \<Longrightarrow> id_free argv \<Longrightarrow> goes (cmd_replay env) argc argv"
  unfolding cmd_replay_def by (intro command_goes) (auto simp: id_free_def plain_actions_go lists_go split: if_splits)

lemma thread_capabilities_goes: "answering env \<Longrightarrow> goes (cmd_thread_capabilities env) argc argv"
  unfolding cmd_thread_capabilities_def by (intro command_goes) (auto simp: plain_actions_go split: if_splits)

lemma thread_goes: "answering env \<Longrightarrow> id_free argv \<Longrightarrow> goes (cmd_thread env) argc argv"
  unfolding cmd_thread_def by (intro command_goes) (auto simp: id_free_def thread_capabilities_goes thread_modify_goes lists_go split: if_splits)

text \<open>
  C32: The client returns on every command line but two kinds: one that asks for a list of sessions or threads and gives an identifier (it is written through
  a pointer that was never set), and one of more than 250 characters, for which the name of a manual page may be written past its buffer. Whatever options are
  given, in any order and number, whatever a filter file holds and whichever allocations and system calls fail, no block is released twice, no pointer that
  was not set is followed, and every file is closed again, as long as the server answers each call with a message of the type of the procedure.
\<close>

theorem client_returns:
  assumes "answering env" and "heap_wf (c_os c)" and "words_length argv \<le> 250"
    and "take 2 argv \<in> {[''capture'', ''get''], [''replay'', ''get''], [''thread'', ''get'']} \<Longrightarrow> without_id (drop 2 argv)"
  shows "\<exists>r c'. dabba_main env argv c = Some (r, c') \<and> os_fd (c_os c') = os_fd (c_os c)"
proof -
  have "goes fn (int (length argv) - 1) args"
    if h: "help_args (int (length argv)) argv = w # args" and m: "map_of (commands env) w = Some fn" for w args fn
  proof -
    have "words_length args \<le> 250" using help_args_length [OF h] assms(3) by simp
    then have "goes (cmd_help env) i args" for i by (rule help_goes)
    moreover have "goes (cmd_version env) i args" for i by (simp add: goes_def cmd_version_def printf_def)
    moreover have "id_free args" if "w \<in> {''capture'', ''replay'', ''thread''}"
    proof -
      have "argv = w # args" using help_args_other [OF h] that by auto
      with that assms(4) show ?thesis by (cases args) (auto simp: id_free_def)
    qed
    ultimately show ?thesis using m assms(1)
      by (auto simp: commands_def interface_goes intro: capture_goes replay_goes thread_goes split: if_splits)
  qed
  from action_goes [OF this] have "goes (cmd_run_action env (commands env)) (int (length argv)) (help_args (int (length argv)) argv)" .
  with assms(2) show ?thesis by (simp add: goes_def dabba_main_def cmd_run_command_def)
qed

fun no_answer :: "call \<Rightarrow> answer" where
  "no_answer (Session Capture_Get) = Captures None"
| "no_answer (Session Replay_Get) = Replays None"
| "no_answer (Session Thread_Get) = Threads None"
| "no_answer (Session Thread_Capabilities_Get) = Thread_Capabilities None"
| "no_answer (Interface_Get Status ns) = Status_List None"
| "no_answer (Interface_Get Driver ns) = Driver_List None"
| "no_answer (Interface_Get Pauses ns) = Pause_List None"
| "no_answer (Interface_Get Offload ns) = Offload_List None"
| "no_answer (Interface_Get Settings ns) = Settings_List None"
| "no_answer (Interface_Get Coalescing ns) = Coalesce_List None"
| "no_answer (Interface_Get Capabilities ns) = Capability_List None"
| "no_answer (Interface_Get Statistics ns) = Statistics_List None"
| "no_answer (No_Id q) = no_answer q"
| "no_answer q = Error_Code None"

definition deaf_env :: "unit env" where
  "deaf_env = \<lparr>e_client_new = (\<lambda>_ _. True), e_is_connected = (\<lambda>_ _ _. True), e_call = (\<lambda>_ _ q d. Some (no_answer q, d)),
     e_strerror = (\<lambda>_. ''error''), e_man = (\<lambda>_. None), e_version = ''0''\<rparr>"

definition short_of_memory :: "unit client" where
  "short_of_memory = \<lparr>c_os = boot (\<lambda>n. if n < 3 then Succeed else Fail 11), c_out = [],
     c_stdout = \<lparr>so_open = True, so_pipe = False, so_flush = 0, so_error = False, so_close = 0\<rparr>, c_peer = ()\<rparr>"

theorem client_returns_witness:
  "\<exists>r c'. dabba_main deaf_env [''interface'', ''status'', ''get'', ''--id'', ''lo'', ''--id'', ''eth0''] short_of_memory = Some (r, c') \<and>
     os_fd (c_os c') 3 = None"
proof -
  have "typed q (no_answer q)" for q by (induction q rule: no_answer.induct) simp_all
  then have "answering deaf_env" by (simp add: answering_def deaf_env_def)
  moreover have "heap_wf (c_os short_of_memory)" "os_fd (c_os short_of_memory) 3 = None"
    by (simp_all add: short_of_memory_def heap_wf_def)
  ultimately show ?thesis
    using client_returns [of deaf_env short_of_memory "[''interface'', ''status'', ''get'', ''--id'', ''lo'', ''--id'', ''eth0'']"]
    by (simp add: words_length_def) metis
qed

end
