(* ===== verification/Spec2Isabelle.thy ===== *)
theory Spec2Isabelle
  imports Prelude Posix Pcap Interface Sock_Filter Packet_Mmap Ring Packet_Rx Packet_Tx
    Tailq Text Cpu_Affinity Rpc_List Threads Misc Capture Replay Sessions Daemon Listing Service
    Links Interface_Get Interface_Modify Capabilities Getopt Filter_File Client Client_Sessions Client_Interface Remote Startup
    Pcap_Tools Client_Safety
begin

text \<open>
  dabba is a packet capture and replay tool for Linux. It has three parts: the library \<^verbatim>\<open>src/libdabba\<close> (capture files, packet rings shared
  with the kernel, socket filters, device requests), the daemon \<^verbatim>\<open>src/dabbad\<close>, which runs captures and replays as threads and offers them,
  with the settings of the network interfaces, as remote procedures, and the command line client \<^verbatim>\<open>src/dabba\<close>, which calls these
  procedures and prints the answers. The messages are declared in \<^verbatim>\<open>src/libdabba-rpc/dabba.proto\<close>. This development models
  all three parts and the way a command line travels through them.

  \<^bold>\<open>Ground.\<close> \<open>Prelude\<close> has the word types, collections of facts and generic lemmas. \<open>Posix\<close> is the system: the record \<open>os\<close> holds
  descriptors, files, heap blocks, memory maps, threads, \<open>errno\<close> and a schedule that decides for every call whether it succeeds, fails
  with some error or is cut short; \<open>boot\<close> is a fresh system. Nothing is assumed about the schedule unless a theorem says
  \<open>faultless\<close>. Requests to a device are answered by an arbitrary function of the history of requests. An operation is a function on the
  state; an operation of type \<open>option\<close> is \<open>None\<close> where the C program fails an assertion, uses memory it does not own or never returns, so that a
  proof of \<open>Some\<close> excludes all of these. \<open>Text\<close> and \<open>Getopt\<close> have printing and reading of numbers and the option parser of the C library
  (without \<^verbatim>\<open>POSIXLY_CORRECT\<close>, error messages on the standard error left out).

  \<^bold>\<open>The library.\<close>
  \<^item> \<open>Pcap\<close>: \<^verbatim>\<open>pcap.c\<close>, headers byte by byte in both byte orders. Files are created all or nothing, and what is written is read back.
  \<^item> \<open>Interface\<close>: \<^verbatim>\<open>interface.c\<close>, all requests. Descriptors are given back, the answer is that of the kernel, one bit of the flag word is changed.
  \<^item> \<open>Sock_Filter\<close>: \<^verbatim>\<open>sock-filter.c\<close> of the library and of the daemon, with an interpreter for filters. An accepted filter stays inside
    its program and scratch memory, and ends if its jumps do not wrap around.
  \<^item> \<open>Packet_Mmap\<close>: \<^verbatim>\<open>packet-mmap.c\<close>, setting up and tearing down a ring in all error cases; the frames of a new ring tile its mapping.
  \<^item> \<open>Ring\<close>, \<open>Packet_Rx\<close>, \<open>Packet_Tx\<close>: \<^verbatim>\<open>packet-rx.c\<close> and \<^verbatim>\<open>packet-tx.c\<close>. Thread and kernel take turns in a step relation; no packet is
    lost or doubled, and the threads do not get stuck. The loops are endless, so their claims are about every reachable state.

  \<^bold>\<open>The daemon.\<close>
  \<^item> \<open>Tailq\<close>, \<open>Rpc_List\<close>: queues and lists of reply messages. The queues of threads, captures and replays are instances of one locale.
  \<^item> \<open>Cpu_Affinity\<close>, \<open>Threads\<close>: \<^verbatim>\<open>thread.c\<close>. \<open>cpu_set_range\<close> is a partial function whose domain of termination is a theorem.
  \<^item> \<open>Capture\<close>, \<open>Replay\<close>: \<^verbatim>\<open>capture.c\<close>, \<^verbatim>\<open>replay.c\<close>. \<open>Sessions\<close>, \<open>Daemon\<close> and \<open>Listing\<close> prove once, in locales over what captures and replays
    have in common, what starting, stopping and listing a session does to the resources of the process.
  \<^item> \<open>Service\<close>: the dispatcher, the runs of the daemon as the relations \<open>daemon_step\<close> and \<open>daemon_reach\<close>, the invariant of reachable states,
    the abstract service, a finite table from identifiers to kind and geometry, that it refines, and \<open>calm\<close>, a state in which no call fails any more
    whatever has failed before.
  \<^item> \<open>Links\<close>, \<open>Interface_Get\<close>, \<open>Interface_Modify\<close>, \<open>Capabilities\<close>: \<^verbatim>\<open>interface.c\<close> and \<^verbatim>\<open>interface-*.c\<close>. The netlink library is a record
    of functions. The locale \<open>link_reply\<close> states what a callback must do; its eight interpretations are the eight lists.
  \<^item> \<open>Misc\<close>, \<open>Startup\<close>: \<^verbatim>\<open>misc.c\<close>, \<^verbatim>\<open>dabbad.c\<close>, \<^verbatim>\<open>help.c\<close> and the server of \<^verbatim>\<open>rpc.c\<close>.

  \<^bold>\<open>The client.\<close>
  \<^item> \<open>Filter_File\<close>: \<^verbatim>\<open>sock-filter.c\<close>, with the buffered stream, \<open>fgets\<close> and the format of \<open>sscanf\<close>. The stream has the marks
    of the C library for the end of the file and for an error. Reading ahead has fuel for each byte of a line, which is enough because every read gives at least
    one byte or sets a mark. A well-formed file is read back exactly; any file is read to an end, with what stays allocated stated.
  \<^item> \<open>Client\<close>: \<^verbatim>\<open>cli.c\<close>, \<^verbatim>\<open>rpc.c\<close>, \<^verbatim>\<open>help.c\<close>, \<^verbatim>\<open>dabba.c\<close>. The record \<open>env\<close> holds what is not part of the program: the RPC library with the peer behind it,
    the texts of errors, the manual program, the version.
  \<^item> \<open>Client_Sessions\<close>: \<^verbatim>\<open>capture.c\<close>, \<^verbatim>\<open>replay.c\<close>, \<^verbatim>\<open>thread.c\<close>, \<^verbatim>\<open>thread-capabilities.c\<close>. \<open>Client_Interface\<close>: \<^verbatim>\<open>interface.c\<close>, \<^verbatim>\<open>interface-*.c\<close> and \<open>main\<close>.
    An option table carries the branch of the switch for each option as a function.
  \<^item> \<open>Client_Safety\<close>: the client returns on every command line but the two kinds its theorem names. The locale \<open>option_loop\<close> states what the branches of
    an option table keep; its twelve interpretations are the tables of the actions.
  \<^item> \<open>Remote\<close>: \<open>serve\<close>, the 25 procedures of the service on the state of the daemon, and lemmas that join client and daemon.

  \<^bold>\<open>Test programs.\<close> \<open>Pcap_Tools\<close>: the packet counter \<^verbatim>\<open>src/dabba/test/tools/pktcnt.c\<close>, right on every file the daemon writes, and the unit test
  \<^verbatim>\<open>src/libdabba/tests/test-pcap.c\<close>, which passes.

  This theory has the theorems that span components: safety, ownership of resources, refinement, draining and the progress of the daemon
  in every reachable state; that calls on interfaces do not disturb sessions; and that a command line starts the capture it describes.
  Several theorems state what the code does where it does not do what it means to; their texts say so.

  \<^bold>\<open>Not modelled.\<close> The encoding and transport of messages (protobuf-c), the netlink library and the manual program are parameters. What the
  library does with a message whose required identifier is missing is a parameter of \<open>serve\<close>. The memory and sockets of these libraries and the links inside
  the kernel are not part of the state. Procedures run one after the other, as in the event loop of the daemon; packet threads interleave with them at the
  granularity of \<open>daemon_step\<close>, where a cancelled thread uses its ring no more. A kernel that refuses or discards a malformed packet of a transmit ring is left out. Timing, the shell tests, the test of packet rings (it accepts 0 or \<open>ENOMEM\<close> from the kernel and checks nothing else), manual pages and build files are left out.
\<close>

section \<open>A concrete run\<close>

text \<open>A freshly booted system without faults, and a request it can serve.\<close>

definition demo_capture :: capture_request where
  "demo_capture = \<lparr>cr_pcap = Some ''a'', cr_interface = Some ANY_INTERFACE, cr_frame_nr = 8, cr_frame_size = 2048,
     cr_append = False, cr_sfp = None\<rparr>"

abbreviation demo_os :: os where "demo_os \<equiv> boot (\<lambda>_. Succeed)"

lemma idle_boot: "idle (boot sc)"
  by (simp add: idle_def kernel_ok_def)

lemmas idle_demo = idle_boot [of "\<lambda>_. Succeed"]

lemma good_demo: "good_capture demo_capture s"
  by (simp add: good_capture_def demo_capture_def capture_settings_are_valid_def packet_mmap_frame_size_is_valid_def powerof2_def
      ANY_INTERFACE_def PACKET_MMAP_ETH_FRAME_LEN_def)

lemma demo_served:
  obtains d where "dabbad_capture_start demo_capture (init_daemon demo_os) = Some (0, d)"
    "capture_started demo_capture (init_daemon demo_os) d" "faultless (d_os d)"
proof -
  have "free_fds demo_os = 3 # 4 # [5, 6, 7]" by (simp add: free_fds_boot)
  from capture_served [OF init_inv [OF idle_demo] _ _ good_demo, of 3 4 "[5, 6, 7]"] this faultless_boot that show ?thesis
    by (auto simp: init_daemon_def)
qed

text \<open>The same request where every call fails.\<close>

lemma demo_refused:
  "\<exists>d rc. dabbad_capture_start demo_capture (init_daemon (boot (\<lambda>_. Fail 0))) = Some (rc, d) \<and> rc \<noteq> 0"
proof -
  have "capture_settings_are_valid demo_capture" using good_demo by (simp add: good_capture_def)
  moreover obtain s' where "socket (boot (\<lambda>_. Fail 0)) = (-1, s')" "os_errno s' \<noteq> 0" by (auto simp: socket_def syscall_def errno_def)
  ultimately show ?thesis by (auto simp: dabbad_capture_start_def init_daemon_def)
qed

lemma demo_runs:
  "\<exists>d c. daemon_reach demo_os d \<and> faultless (d_os d) \<and> captures d = [c] \<and> replays d = []"
proof -
  obtain d where d: "dabbad_capture_start demo_capture (init_daemon demo_os) = Some (0, d)"
    "capture_started demo_capture (init_daemon demo_os) d" "faultless (d_os d)" by (rule demo_served)
  have "daemon_step (init_daemon demo_os) (Some (Capture_Start demo_capture, Code 0)) d"
    using d(1) by (intro daemon_step.rpc) (simp add: coded_def)
  then have "daemon_reach demo_os d" by (rule daemon_reach.step [OF daemon_reach.init])
  with d show ?thesis by (auto simp: capture_started_def init_daemon_def empty_tailq_def)
qed

text \<open>A client connected to that system, and the words of a command line that asks for the same request.\<close>

definition demo_env :: "daemon env" where
  "demo_env = \<lparr>e_client_new = (\<lambda>_ _. True), e_is_connected = (\<lambda>_ _ _. True), e_call = (\<lambda>_ _. serve demo_netlink (\<lambda>_ _. None)),
     e_strerror = (\<lambda>rc. if rc = 0 then ''Success'' else ''Error''), e_man = (\<lambda>_. None), e_version = ''0''\<rparr>"

definition demo_client :: "daemon client" where
  "demo_client = \<lparr>c_os = demo_os, c_out = [], c_stdout = \<lparr>so_open = True, so_pipe = False, so_flush = 0, so_error = False, so_close = 0\<rparr>,
     c_peer = init_daemon demo_os\<rparr>"

definition demo_options :: "(string \<times> string) list" where
  "demo_options = [(''interface'', ''any''), (''pcap'', ''a''), (''frame-size'', ''2048''), (''frame-number'', ''8'')]"

lemma requested_demo: "requested demo_options = demo_capture"
proof -
  have "show_nat 8 = ''8''" "show_nat 2048 = ''2048''" by code_simp+
  then have "strtoull ''8'' = 8" "strtoull ''2048'' = 2048" using strtoull_show_nat [of 8] strtoull_show_nat [of 2048] by simp_all
  then show ?thesis
    by (simp add: requested_def demo_options_def demo_capture_def capture_setting_def capture_start_init_def ANY_INTERFACE_def)
qed

section \<open>The daemon\<close>

text \<open>
  C22: in every state the daemon can reach, whatever system calls fail and however requests, thread ends and file
  accesses interleave, starting, stopping and stopping all of captures and replays and listing replays return: no
  assertion of the queues fires, nothing is freed twice and no pointer out of the heap is used.
\<close>

theorem daemon_safe:
  assumes "idle s" and "daemon_reach s d"
  shows "(\<exists>r. dabbad_capture_start cm d = Some r) \<and> (\<exists>r. dabbad_capture_stop i d = Some r) \<and>
    (\<exists>r. dabbad_capture_stop_all d = Some r) \<and> (\<exists>r. dabbad_replay_start rm d = Some r) \<and>
    (\<exists>r. dabbad_replay_stop i d = Some r) \<and> (\<exists>r. dabbad_replay_stop_all d = Some r) \<and> (\<exists>r. dabbad_replay_get d = Some r)"
proof -
  note inv = reach_inv [OF assms(2,1)]
  have "\<exists>r. dabbad_capture_start cm d = Some r" "\<exists>r. dabbad_replay_start rm d = Some r"
    using capture_start_result [OF inv, of cm] replay_start_result [OF inv, of rm] by blast+
  moreover have "\<exists>r. dabbad_capture_stop i d = Some r" "\<exists>r. dabbad_replay_stop i d = Some r"
    using cs.stop_result [OF inv, of i] rs.stop_result [OF inv, of i] by blast+
  moreover have "\<exists>r. dabbad_capture_stop_all d = Some r" "\<exists>r. dabbad_replay_stop_all d = Some r"
    unfolding dabbad_capture_stop_all_def dabbad_replay_stop_all_def
    using cs.stop_loop_result [OF inv refl] rs.stop_loop_result [OF inv refl] by blast+
  moreover have "\<exists>r. dabbad_replay_get d = Some r" using replay_get_result [OF inv] by blast
  ultimately show ?thesis by simp
qed

theorem daemon_safe_witness:
  "\<exists>d c. daemon_reach demo_os d \<and> captures d = [c] \<and> (\<exists>r. dabbad_capture_stop (capture_id c) d = Some r)"
proof -
  from demo_runs obtain d c where d: "daemon_reach demo_os d" "captures d = [c]" by blast
  from daemon_safe [OF idle_demo d(1)] d show ?thesis by blast
qed

text \<open>
  C23: the daemon owns exactly the memory of what it runs. In every reachable state the heap is made of the blocks of the
  running sessions, each block of one session; the memory maps are their rings; the thread queue holds exactly their threads;
  no two sessions share a descriptor; the counters of the queues are right; and every session has a ring that is ready, an open
  file in the mode its thread needs and a live thread working on it. Of descriptors it says no more: others may be open, those
  that a stop or a failed start has lost, such as the packet sockets of stopped captures.
\<close>

theorem daemon_owns:
  assumes "idle s" and "daemon_reach s d"
  shows "os_heap (d_os d) = set (concat (map ss_blocks (sessions d))) \<and> distinct (concat (map ss_blocks (sessions d))) \<and>
    dom (os_maps (d_os d)) = (buf \<circ> ss_ring) ` set (sessions d) \<and> distinct (concat (map ss_fds (sessions d))) \<and>
    mset (tq_head (d_threads d)) = mset (map ss_thread (sessions d)) \<and>
    tq_length (d_captures d) = length (captures d) \<and> tq_length (d_replays d) = length (replays d) \<and>
    tq_length (d_threads d) = length (sessions d) \<and>
    (\<forall>x \<in> set (sessions d). ring_ready (ss_ring x) (d_os d) \<and>
       (\<exists>ino pos rd wr. fd_of (d_os d) (ss_fd x) = Some (Reg ino pos rd wr False) \<and>
          (if pt_type (ss_thread x) = CAPTURE_THREAD then wr else rd)) \<and>
       (\<exists>th \<in> set (os_threads (d_os d)). t_id th = pt_id (ss_thread x) \<and> \<not> t_cancel th \<and> t_arg th \<in> set (ss_blocks x)))"
proof -
  note inv = reach_inv [OF assms(2,1)]
  then have o: "owned (d_os d) (sessions d)" and l: "live (d_os d) (d_threads d) (sessions d)" by (simp_all add: daemon_inv_def)
  have n: "tq_length (d_threads d) = length (sessions d)"
    using l inv_lengths(1) [OF inv] by (metis live_def length_map mset_eq_length)
  have x: "ring_ready (ss_ring x) (d_os d) \<and>
       (\<exists>ino pos rd wr. fd_of (d_os d) (ss_fd x) = Some (Reg ino pos rd wr False) \<and>
          (if pt_type (ss_thread x) = CAPTURE_THREAD then wr else rd)) \<and>
       (\<exists>th \<in> set (os_threads (d_os d)). t_id th = pt_id (ss_thread x) \<and> \<not> t_cancel th \<and> t_arg th \<in> set (ss_blocks x))"
    if "x \<in> set (sessions d)" for x
  proof -
    from o that have ok: "session_ok (d_os d) x" by (simp add: owned_def)
    from l that obtain th where "th \<in> set (os_threads (d_os d))" "t_id th = pt_id (ss_thread x)" "\<not> t_cancel th" "t_arg th = pt_node (ss_thread x)"
      by (auto simp: live_def)
    with ok show ?thesis by (cases "pt_type (ss_thread x)") (auto simp: session_ok_def)
  qed
  show ?thesis using o l n x inv by (simp add: owned_def live_def daemon_inv_def)
qed

theorem daemon_owns_witness:
  "\<exists>d c. daemon_reach demo_os d \<and> captures d = [c] \<and> os_heap (d_os d) = set (ss_blocks (capture_session c))"
proof -
  from demo_runs obtain d c where d: "daemon_reach demo_os d" "captures d = [c]" "replays d = []" by blast
  from daemon_owns [OF idle_demo d(1)] d show ?thesis by (auto simp: sessions_def)
qed

text \<open>
  C24: the daemon implements a table of sessions. Seen as the map from identifiers to kind and ring layout, the daemon
  starts empty and every step does what the abstract service allows: a successful start adds one fresh identifier with the
  layout asked for, a stop removes the one named or nothing, stopping all removes only that kind and reports 0 exactly when
  none is left, a list has one row for each entry of its kind, and everything else leaves the table alone.
\<close>

theorem daemon_refines:
  assumes "idle s" and "daemon_reach s d" and "daemon_step d e d'"
  shows "table (init_daemon s) = Map.empty \<and> spec_step (table d) e (table d')"
  using step_table [OF assms(3) reach_inv [OF assms(2,1)]] by (simp add: table_def sessions_def init_daemon_def empty_tailq_def)

theorem daemon_refines_witness:
  "\<exists>d c d' rc. daemon_reach demo_os d \<and> captures d = [c] \<and> daemon_step d (Some (Capture_Stop (capture_id c), Code rc)) d' \<and>
     spec_step (table d) (Some (Capture_Stop (capture_id c), Code rc)) (table d')"
proof -
  from demo_runs obtain d c where d: "daemon_reach demo_os d" "captures d = [c]" by blast
  from cs.stop_result [OF reach_inv [OF d(1) idle_demo], of "capture_id c"] obtain rc d' where "dabbad_capture_stop (capture_id c) d = Some (rc, d')" by blast
  then have st: "daemon_step d (Some (Capture_Stop (capture_id c), Code rc)) d'" by (intro daemon_step.rpc) (simp add: coded_def)
  from daemon_refines [OF idle_demo d(1) st] d st show ?thesis by blast
qed

text \<open>
  C25: stopping all captures is stopping each by its identifier in the order of the queue up to the first failure, and the
  same for replays; the loop that reads each node's successor before releasing the node never reads a released one.
\<close>

theorem stop_all_is_stop_each:
  assumes "idle s" and "daemon_reach s d"
  shows "dabbad_capture_stop_all d = stop_each dabbad_capture_stop (map capture_id (captures d)) d \<and>
    dabbad_replay_stop_all d = stop_each dabbad_replay_stop (map replay_id (replays d)) d"
proof -
  note inv = reach_inv [OF assms(2,1)]
  have "capture_id = pt_id \<circ> pc_thread" "replay_id = pt_id \<circ> pr_thread" by (auto simp: capture_id_def replay_id_def)
  then show ?thesis using cs.stop_loop_each [OF inv refl] rs.stop_loop_each [OF inv refl]
    by (simp add: dabbad_capture_stop_all_def dabbad_replay_stop_all_def)
qed

theorem stop_all_is_stop_each_witness:
  "\<exists>d c. daemon_reach demo_os d \<and> captures d = [c] \<and> dabbad_capture_stop_all d = stop_each dabbad_capture_stop [capture_id c] d"
proof -
  from demo_runs obtain d c where d: "daemon_reach demo_os d" "captures d = [c]" by blast
  from stop_all_is_stop_each [OF idle_demo d(1)] d show ?thesis by auto
qed

text \<open>
  C26: from every reachable state, also one reached through failed calls, stopping all captures and then all replays
  succeeds and gives back all memory if no call fails from then on (\<open>calm d\<close> is the state \<open>d\<close> with that environment): no heap
  block, no memory map and no thread of the queue is left.
\<close>

theorem daemon_drains:
  assumes "idle s" and "daemon_reach s d"
  shows "\<exists>d1 d2. dabbad_capture_stop_all (calm d) = Some (0, d1) \<and> dabbad_replay_stop_all d1 = Some (0, d2) \<and>
    os_heap (d_os d2) = {} \<and> os_maps (d_os d2) = Map.empty \<and> tq_head (d_threads d2) = []"
proof -
  note inv = calm_inv [OF reach_inv [OF assms(2,1)]]
  from cs.stop_loop_result [OF inv refl] obtain d1 where d1: "dabbad_capture_stop_all (calm d) = Some (0, d1)" "daemon_inv d1"
    "captures d1 = []" "faultless (d_os d1)" by (auto simp: dabbad_capture_stop_all_def)
  from rs.stop_loop_result [OF d1(2) refl] d1(4) obtain d2 where d2: "dabbad_replay_stop_all d1 = Some (0, d2)" "daemon_inv d2"
    "replays d2 = []" "same_captures d1 d2" by (auto simp: dabbad_replay_stop_all_def)
  have "sessions d2 = []" using d1(3) d2(3,4) by (simp add: sessions_def)
  with d2(2) have "os_heap (d_os d2) = {}" "os_maps (d_os d2) = Map.empty" "tq_head (d_threads d2) = []"
    by (simp_all add: daemon_inv_def owned_def live_def)
  with d1(1) d2(1) show ?thesis by blast
qed

theorem daemon_drains_witness:
  "(\<exists>d d1 d2. daemon_reach demo_os d \<and> captures d \<noteq> [] \<and> dabbad_capture_stop_all (calm d) = Some (0, d1) \<and>
      dabbad_replay_stop_all d1 = Some (0, d2) \<and> os_heap (d_os d2) = {}) \<and>
   (\<exists>rc d d1. daemon_step (init_daemon (boot (\<lambda>_. Fail 0))) (Some (Capture_Start demo_capture, Code rc)) d \<and> rc \<noteq> 0 \<and>
      dabbad_capture_stop_all (calm d) = Some (0, d1))"
proof (rule conjI)
  from demo_runs obtain d c where d: "daemon_reach demo_os d" "captures d = [c]" by blast
  from daemon_drains [OF idle_demo d(1)] d show "\<exists>d d1 d2. daemon_reach demo_os d \<and> captures d \<noteq> [] \<and>
    dabbad_capture_stop_all (calm d) = Some (0, d1) \<and> dabbad_replay_stop_all d1 = Some (0, d2) \<and> os_heap (d_os d2) = {}"
    by (metis list.distinct(1))
next
  let ?s = "boot (\<lambda>_. Fail 0)"
  obtain d rc where d: "dabbad_capture_start demo_capture (init_daemon ?s) = Some (rc, d)" "rc \<noteq> 0" using demo_refused by blast
  then have st: "daemon_step (init_daemon ?s) (Some (Capture_Start demo_capture, Code rc)) d"
    by (intro daemon_step.rpc) (simp add: coded_def)
  from daemon_drains [OF idle_boot daemon_reach.step [OF daemon_reach.init this]] st d(2)
  show "\<exists>rc d d1. daemon_step (init_daemon ?s) (Some (Capture_Start demo_capture, Code rc)) d \<and> rc \<noteq> 0 \<and>
      dabbad_capture_stop_all (calm d) = Some (0, d1)" by blast
qed

text \<open>
  C27: a good request is served. In every reachable state with two free descriptors, whatever has failed before, a request is
  answered with 0 if no call fails from then on and if: its settings are valid, it names all interfaces, its number of frames is a power of two and at
  least 8, its ring is smaller than 4 GiB, its filter is absent, empty or accepted by the check, and, if it appends, its file is a
  capture file already. Then the capture runs under a fresh identifier with the layout asked for.
\<close>

theorem capture_is_served:
  assumes "idle s" and "daemon_reach s d" and "free_fds (d_os d) = a # b # fs" and "good_capture m (d_os d)"
  shows "\<exists>d' c. dabbad_capture_start m (calm d) = Some (0, d') \<and> captures d' = captures d @ [c] \<and> replays d' = replays d \<and>
    daemon_inv d' \<and> capture_id c \<notin> dom (table d) \<and> table d' (capture_id c) =
      Some (CAPTURE_THREAD, mmap_layout (ucast (cr_frame_size m)) (cr_frame_nr m))"
proof -
  note inv = calm_inv [OF reach_inv [OF assms(2,1)]]
  from capture_served [OF inv, of a b fs m] assms(3,4) obtain d' where
    d': "dabbad_capture_start m (calm d) = Some (0, d')" "capture_started m (calm d) d'" by auto
  then obtain c where c: "daemon_inv d'" "d_replays d' = d_replays d" "captures d' = captures d @ [c]"
    "layout (rx_mmap (pc_rx c)) = mmap_layout (ucast (cr_frame_size m)) (cr_frame_nr m)" by (auto simp: capture_started_def)
  have e: "entry (capture_session c) = (capture_id c, CAPTURE_THREAD, mmap_layout (ucast (cr_frame_size m)) (cr_frame_nr m))"
    using inv_types(1) [OF c(1)] c(3,4) by (simp add: entry_def capture_id_def)
  have "mset (sessions d') = add_mset (capture_session c) (mset (sessions (calm d)))" using c(2,3) by (simp add: sessions_def)
  note t = table_add(1,2) [OF inv c(1) this e]
  have "table d' (capture_id c) = Some (CAPTURE_THREAD, mmap_layout (ucast (cr_frame_size m)) (cr_frame_nr m))" unfolding t(2) by simp
  with d'(1) c t(1) show ?thesis by (auto simp: table_def)
qed

theorem capture_is_served_witness:
  "\<exists>d' c. dabbad_capture_start demo_capture (calm (init_daemon (boot (\<lambda>_. Fail 0)))) = Some (0, d') \<and> captures d' = [c] \<and> daemon_inv d'"
proof -
  let ?s = "boot (\<lambda>_. Fail 0)"
  have d: "free_fds (d_os (init_daemon ?s)) = 3 # 4 # [5, 6, 7]" using free_fds_boot by (simp add: init_daemon_def)
  from capture_is_served [OF idle_boot daemon_reach.init d good_demo] show ?thesis by (auto simp: init_daemon_def empty_tailq_def)
qed

text \<open>Sockets stay open through everything a stop does.\<close>

definition sock_open :: "nat \<Rightarrow> os \<Rightarrow> bool" where
  "sock_open n s \<longleftrightarrow> (\<exists>sk. os_fd s n = Some (Sock sk))"

lemma sock_open_cong: "os_fd s' = os_fd s \<Longrightarrow> sock_open n s' = sock_open n s"
  by (simp add: sock_open_def)

lemma sock_open_on_sock: "sock_open n s \<Longrightarrow> sock_open n (snd (on_sock fd f s))"
proof -
  assume "sock_open n s"
  moreover obtain rc s' where "on_sock fd f s = (rc, s')" by force
  ultimately show ?thesis using on_sock_result [of fd f s rc s'] by (auto simp: sock_open_def)
qed

lemma sock_open_free: "free b s = Some s' \<Longrightarrow> sock_open n s' = sock_open n s"
  by (auto simp: free_def sock_open_def split: option.splits if_splits)

lemma sock_open_close: "sock_open n s \<Longrightarrow> 0 \<le> fd \<Longrightarrow> nat fd \<noteq> n \<Longrightarrow> sock_open n (snd (close_fd fd s))"
  by (simp add: sock_open_def)

lemma sock_open_mmap_destroy:
  assumes "ldab_packet_mmap_destroy pm s = Some (pm', s')" and "sock_open n s"
  shows "sock_open n s'"
proof -
  from assms obtain s1 where f: "free (map_option fst (vec pm)) s = Some s1"
    and s': "s' = snd (packet_mmap_unregister (fst (packet_mmap_munmap pm s1)) (snd (packet_mmap_munmap pm s1)))"
    by (auto simp: ldab_packet_mmap_destroy_def packet_mmap_vector_destroy_def Let_def split_beta bind_eq_Some_conv)
  have "os_fd (snd (packet_mmap_munmap pm s1)) = os_fd s1"
    by (auto simp: packet_mmap_munmap_def munmap_def errno_def Let_def split_beta)
  then have "sock_open n (snd (packet_mmap_munmap pm s1))" using assms(2) sock_open_free [OF f] sock_open_cong by metis
  then show ?thesis using s' sock_open_on_sock by (simp add: packet_mmap_unregister_def setsockopt_ring_def Let_def split_beta)
qed

lemma capture_teardown_sock:
  assumes "capture_teardown c d = Some d'" and "sock_open n (d_os d)" and "0 \<le> rx_pcap_fd (pc_rx c)" "nat (rx_pcap_fd (pc_rx c)) \<noteq> n"
  shows "sock_open n (d_os d')"
proof -
  let ?s1 = "snd (ldab_sock_filter_detach (pf_sock (rx_mmap (pc_rx c))) (d_os d))"
  from assms(1) obtain s2 s3 f pm s4 s5 where s: "dabbad_sfp_destroy (rx_sfp (pc_rx c)) ?s1 = Some (f, s2)"
    "s3 = snd (close_fd (rx_pcap_fd (pc_rx c)) s2)" "ldab_packet_mmap_destroy (rx_mmap (pc_rx c)) s3 = Some (pm, s4)"
    "free (Some (pc_blk c)) s4 = Some s5" "d_os d' = s5"
    by (auto simp: capture_teardown_def bind_eq_Some_conv Let_def split_beta split: prod.splits)
  have "sock_open n ?s1" using assms(2) by (simp add: ldab_sock_filter_detach_def setsockopt_filter_def sock_open_on_sock)
  moreover from s(1) have "free (fp_blk (rx_sfp (pc_rx c))) ?s1 = Some s2" by (auto simp: dabbad_sfp_destroy_def bind_eq_Some_conv)
  ultimately have "sock_open n s2" using sock_open_free by metis
  then have "sock_open n s3" using s(2) assms(3,4) by (simp add: sock_open_close)
  then show ?thesis using sock_open_mmap_destroy [OF s(3)] sock_open_free [OF s(4)] s(5) by simp
qed

text \<open>
  C28: stopping a capture leaves its packet socket open. After a successful stop, the descriptor of the socket still leads
  to it, and no session that is left uses it: the descriptor is lost, one for each capture that is stopped.
\<close>

theorem capture_stop_leaks_socket:
  assumes "idle s" and "daemon_reach s d" and "c \<in> set (captures d)" and "dabbad_capture_stop (capture_id c) d = Some (0, d')"
  shows "(\<exists>sk. fd_of (d_os d') (pf_sock (rx_mmap (pc_rx c))) = Some (Sock sk)) \<and>
    (\<forall>x \<in> set (sessions d'). nat (pf_sock (rx_mmap (pc_rx c))) \<notin> set (ss_fds x))"
proof -
  note inv = reach_inv [OF assms(2,1)]
  let ?n = "pf_sock (rx_mmap (pc_rx c))" and ?x = "capture_session c"
  have o: "owned (d_os d) (sessions d)" and x: "?x \<in> set (sessions d)" using inv assms(3) by (simp_all add: daemon_inv_def sessions_def)
  then have ok: "session_ok (d_os d) ?x" by (simp add: owned_def)
  then have "ring_ready (rx_mmap (pc_rx c)) (d_os d)" by (simp add: session_ok_def)
  from ring_ready_sock [OF this] obtain sk where sk: "fd_of (d_os d) ?n = Some (Sock sk)" "0 \<le> ?n" by blast
  from ok have fd: "0 < rx_pcap_fd (pc_rx c)" "nat (rx_pcap_fd (pc_rx c)) \<noteq> nat ?n"
    using sk by (auto simp: session_ok_def fd_of_def split: if_splits)
  have so: "sock_open (nat ?n) (d_os d)" using sk by (auto simp: sock_open_def fd_of_def split: if_splits)
  have f: "dabbad_capture_find (capture_id c) (d_captures d) = Some c"
    using cq.find_some inv_queues(1) [OF inv] assms(3) by blast
  from cs.stop_result [OF inv, of "capture_id c"] assms(3,4) sessions_blks(3) [OF inv] have st: "stopped captures same_replays c d d'"
    by (auto simp: capture_id_def [symmetric] distinct_map dest: inj_onD)
  from capture_stop_one [OF inv assms(3)] obtain q s1 rc where th: "dabbad_thread_stop (pc_thread c) (d_threads d) (d_os d) = Some (rc, q, s1)" by blast
  with assms(4) f have td: "capture_teardown c (d\<lparr>d_os := s1, d_threads := q\<rparr>) = Some d'"
    by (auto simp: dabbad_capture_stop_def bind_eq_Some_conv Let_def split: if_splits)
  have "os_fd s1 = os_fd (d_os d)"
    using th pthread_cancel_result by (auto simp: dabbad_thread_stop_def same_resources_def bind_eq_Some_conv split: option.splits prod.splits if_splits)
  then have "sock_open (nat ?n) (d_os d')" using capture_teardown_sock [OF td] so fd by (simp add: sock_open_def)
  moreover have "nat ?n \<notin> set (ss_fds y)" if "y \<in> set (sessions d')" for y
  proof -
    have m: "mset (sessions d) = mset (?x # sessions d')"
      using st mset_map_remove1 [OF assms(3), of capture_session] by (simp add: stopped_def sessions_def del: mset_remove1)
    from owned_perm [OF o m] have "distinct (concat (map ss_fds (?x # sessions d')))" by (simp add: owned_def)
    then show ?thesis using that by (auto simp: ss_fds_def)
  qed
  ultimately show ?thesis using sk(2) by (auto simp: sock_open_def fd_of_def)
qed

theorem capture_stop_leaks_socket_witness:
  "\<exists>d c d'. daemon_reach demo_os d \<and> captures d = [c] \<and> dabbad_capture_stop (capture_id c) d = Some (0, d') \<and>
     (\<exists>sk. fd_of (d_os d') (pf_sock (rx_mmap (pc_rx c))) = Some (Sock sk))"
proof -
  from demo_runs obtain d c where d: "daemon_reach demo_os d" "faultless (d_os d)" "captures d = [c]" by blast
  note inv = reach_inv [OF d(1) idle_demo]
  from capture_stop_one [OF inv, of c] d(2,3) cq.find_some [OF inv_queues(1) [OF inv], of c] obtain d' where
    st: "dabbad_capture_stop (capture_id c) d = Some (0, d')" by (auto simp: dabbad_capture_stop_def Let_def)
  from capture_stop_leaks_socket [OF idle_demo d(1) _ st] d st show ?thesis by auto
qed

text \<open>
  C29: without failures the lists of captures and of replays are complete: the reply is NULL only for an empty queue,
  and otherwise has one element for each session, in the order they were started, with its identifier and the number and
  size of its frames. Listing changes neither the queues nor the memory, the maps and the descriptors in use.
\<close>

theorem listing_is_complete:
  assumes "idle s" and "daemon_reach s d" and "faultless (d_os d)"
  shows "(\<exists>r d'. dabbad_capture_get d = Some (r, d') \<and> start_failed d d' \<and> (case r of None \<Rightarrow> captures d = []
      | Some is \<Rightarrow> map ci_id is = map capture_id (captures d) \<and>
          map ci_frame_nr is = map (\<lambda>c. ucast (tp_frame_nr (layout (rx_mmap (pc_rx c))))) (captures d) \<and>
          map ci_frame_size is = map (\<lambda>c. ucast (tp_frame_size (layout (rx_mmap (pc_rx c))))) (captures d))) \<and>
    (\<exists>r d'. dabbad_replay_get d = Some (r, d') \<and> start_failed d d' \<and> (case r of None \<Rightarrow> replays d = []
      | Some is \<Rightarrow> map ri_id is = map replay_id (replays d) \<and>
          map ri_frame_nr is = map (\<lambda>r. ucast (tp_frame_nr (layout (tx_mmap (pr_tx r))))) (replays d) \<and>
          map ri_frame_size is = map (\<lambda>r. ucast (tp_frame_size (layout (tx_mmap (pr_tx r))))) (replays d)))"
proof -
  note inv = reach_inv [OF assms(2,1)]
  from capture_get_result [OF inv] assms(3) obtain r d' where "dabbad_capture_get d = Some (r, d')"
    by (cases "dabbad_capture_get d") auto
  with capture_get_result [OF inv] assms(3) replay_get_result [OF inv] show ?thesis
    by (auto split: option.splits)
qed

theorem listing_is_complete_witness:
  "\<exists>d c i d'. daemon_reach demo_os d \<and> captures d = [c] \<and> dabbad_capture_get d = Some (Some [i], d') \<and> ci_id i = capture_id c"
proof -
  from demo_runs obtain d c where d: "daemon_reach demo_os d" "faultless (d_os d)" "captures d = [c]" by blast
  from listing_is_complete [OF idle_demo d(1,2)] d(3) obtain r d' where r: "dabbad_capture_get d = Some (r, d')"
    "case r of None \<Rightarrow> False | Some is \<Rightarrow> map ci_id is = [capture_id c]" by (auto split: option.splits)
  then obtain i where "r = Some [i]" "ci_id i = capture_id c" by (auto split: option.splits)
  with d r show ?thesis by blast
qed

section \<open>Interfaces and sessions\<close>

text \<open>
  C31: Reading and changing interfaces does not disturb captures and replays: whatever the netlink library and the kernel answer,
  a call on an interface that is served leaves the queues of captures, replays and threads, the memory, the maps and
  the descriptors of the daemon as they were, and the state it leaves is again one of those the other theorems on the daemon speak about.
\<close>

theorem interface_calls_isolated:
  assumes "idle s" and "daemon_reach s d" and "serve nl bad q d = Some (a, d')" and "\<not> (\<exists>r. q = Session r)" and "\<not> (\<exists>r. q = No_Id r)"
  shows "daemon_reach s d' \<and> d_captures d' = d_captures d \<and> d_replays d' = d_replays d \<and> d_threads d' = d_threads d \<and>
    os_heap (d_os d') = os_heap (d_os d) \<and> os_maps (d_os d') = os_maps (d_os d) \<and> os_fd (d_os d') = os_fd (d_os d)"
proof -
  from serve_quiet [OF inv_lengths(2) [OF reach_inv [OF assms(2,1)]] assms(3-5)] obtain u where
    "d' = d\<lparr>d_os := u\<rparr>" "gives_back (d_os d) u" by blast
  with serve_reach [OF assms(1-3,5)] show ?thesis by (simp add: gives_back_def acq_def)
qed

theorem interface_calls_isolated_witness:
  "\<exists>d c x d'. daemon_reach demo_os d \<and> captures d = [c] \<and>
     serve demo_netlink (\<lambda>_ _. None) (Interface_Get Pauses [''eth0'']) d = Some (Pause_List (Some [x]), d') \<and>
     captures d' = [c] \<and> os_heap (d_os d') = os_heap (d_os d)"
proof -
  from demo_runs obtain d c where d: "daemon_reach demo_os d" "faultless (d_os d)" "captures d = [c]" by blast
  have wf: "heap_wf (d_os d)" using inv_lengths(2) [OF reach_inv [OF d(1) idle_demo]] .
  have "rtnl_link_alloc demo_netlink (tick (tick (tick (d_os d))))" by (simp add: demo_netlink_def)
  from pause_r.listed [OF wf demo_cache this, of "[''eth0'']" 2] d(2) obtain x s' where
    "dabbad_interface_pause_get demo_netlink [''eth0''] (d_os d) = Some (Some [x], s')"
    by (auto simp: lists_links_def asked_def demo_netlink_def demo_link_def get_defs)
  then have "serve demo_netlink (\<lambda>_ _. None) (Interface_Get Pauses [''eth0'']) d = Some (Pause_List (Some [x]), d\<lparr>d_os := s'\<rparr>)"
    by (simp add: interface_get_def on_os_def)
  with interface_calls_isolated [OF idle_demo d(1) this] d(1,3) show ?thesis by auto
qed

section \<open>From the command line to the thread\<close>

text \<open>
  C30: The command \<^verbatim>\<open>dabba capture start\<close> followed by any sequence of the options for interface, file, frame number and
  frame size, sent to a daemon in any reachable state, asks for exactly the capture these options describe (the last of a kind
  decides, defaults for the rest), prints the result code of the procedure, and leaves the daemon
  with that capture running or, if it failed, with its sessions, thread queue, memory, maps and the descriptors it had open
  unchanged; a failed start may leave a descriptor or a file behind. Whatever the result code, the exit status is that of flushing and closing
  standard output (\<open>closing\<close>), 0 when this succeeds and when standard output is a pipe or closed.
\<close>

theorem client_starts_capture:
  assumes "fst ` set kvs \<subseteq> {''interface'', ''pcap'', ''frame-number'', ''frame-size''}"
    and "dabba_rpc_client_connect env DABBA_RPC_DEFAULT_TCP_SERVER_NAME ADDRESS_TCP"
    and "e_call env ADDRESS_TCP DABBA_RPC_DEFAULT_TCP_SERVER_NAME = serve nl bad"
    and "idle s" and "daemon_reach s (c_peer c)"
  shows "\<exists>rc d. dabba_main env (''capture'' # ''start'' # long_options kvs) c =
      Some (Ret (fst (closing (c_stdout c))), c\<lparr>c_peer := d, c_stdout := snd (closing (c_stdout c)),
        c_out := c_out c @ ''  rc: '' @ show_int rc @ '' # '' @ e_strerror env rc @ [CHR 0x0A]\<rparr>) \<and>
    dabbad_capture_start (requested kvs) (c_peer c) = Some (rc, d) \<and> daemon_reach s d \<and>
    (start_failed (c_peer c) d \<or> rc = 0 \<and> capture_started (requested kvs) (c_peer c) d)"
proof -
  from capture_start_result [OF reach_inv [OF assms(5,4)], of "requested kvs"] obtain rc d where
    d: "dabbad_capture_start (requested kvs) (c_peer c) = Some (rc, d)"
      "start_failed (c_peer c) d \<or> rc = 0 \<and> capture_started (requested kvs) (c_peer c) d" by blast
  then have q: "dispatch (Capture_Start (requested kvs)) (c_peer c) = Some (Code rc, d)" by (simp add: coded_def)
  then have "e_call env ADDRESS_TCP DABBA_RPC_DEFAULT_TCP_SERVER_NAME (Session (Capture_Start (requested kvs))) (c_peer c) =
      Some (Error_Code (Some rc), d)" by (simp add: assms(3))
  from main_capture_start [OF assms(1) cmd_capture_start_sends [OF assms(1,2) this]]
  have "dabba_main env (''capture'' # ''start'' # long_options kvs) c = Some (Ret (fst (closing (c_stdout c))),
      c\<lparr>c_peer := d, c_stdout := snd (closing (c_stdout c)), c_out := c_out c @ rpc_error_line env rc\<rparr>)"
    by simp
  with d daemon_reach.step [OF assms(5) daemon_step.rpc [OF q]] show ?thesis by (auto simp: rpc_error_line_def eol_def)
qed


theorem client_starts_capture_witness:
  "\<exists>d c. dabba_main demo_env [''capture'', ''start'', ''--interface'', ''any'', ''--pcap'', ''a'', ''--frame-size'', ''2048'', ''--frame-number'', ''8'']
     demo_client = Some (Ret 0, demo_client\<lparr>c_peer := d, c_stdout := (c_stdout demo_client)\<lparr>so_open := False\<rparr>,
       c_out := ''  rc: 0 # Success'' @ [CHR 0x0A]\<rparr>) \<and> captures d = [c]"
proof -
  obtain d where d: "dabbad_capture_start demo_capture (init_daemon demo_os) = Some (0, d)"
    "capture_started demo_capture (init_daemon demo_os) d" by (rule demo_served)
  have o: "long_options demo_options = [''--interface'', ''any'', ''--pcap'', ''a'', ''--frame-size'', ''2048'', ''--frame-number'', ''8'']"
    by (simp add: long_options_def demo_options_def)
  have cl: "closing (c_stdout demo_client) = (0, (c_stdout demo_client)\<lparr>so_open := False\<rparr>)" by (simp add: closing_def demo_client_def)
  have z: "show_int 0 = ''0''" by (simp add: show_int_def show_nat.simps digit_def char_of_def bit_0)
  have "dabba_rpc_client_connect demo_env DABBA_RPC_DEFAULT_TCP_SERVER_NAME ADDRESS_TCP"
    by (simp add: dabba_rpc_client_connect_def demo_env_def eval_nat_numeral)
  from client_starts_capture [of demo_options demo_env demo_netlink "\<lambda>_ _. None" demo_os demo_client, OF _ this _ idle_demo] daemon_reach.init
  have "\<exists>rc d'. dabba_main demo_env (''capture'' # ''start'' # long_options demo_options) demo_client =
      Some (Ret 0, demo_client\<lparr>c_peer := d', c_stdout := (c_stdout demo_client)\<lparr>so_open := False\<rparr>, c_out := ''  rc: '' @ show_int rc @ '' # '' @ e_strerror demo_env rc @ [CHR 0x0A]\<rparr>) \<and>
    dabbad_capture_start (requested demo_options) (init_daemon demo_os) = Some (rc, d')"
    unfolding cl fst_conv snd_conv by (auto simp: demo_options_def demo_client_def demo_env_def)
  then have "dabba_main demo_env (''capture'' # ''start'' # long_options demo_options) demo_client =
      Some (Ret 0, demo_client\<lparr>c_peer := d, c_stdout := (c_stdout demo_client)\<lparr>so_open := False\<rparr>, c_out := ''  rc: 0 # Success'' @ [CHR 0x0A]\<rparr>)"
    using d(1) by (auto simp: requested_demo z demo_env_def)
  moreover obtain c where "captures d = [c]" using d(2) by (auto simp: capture_started_def init_daemon_def empty_tailq_def)
  ultimately show ?thesis by (auto simp: o)
qed


end
